theory Spec2Isabelle
  imports Complex_Main "HOL-Library.Log_Nat" "HOL-Library.Sublist"
begin

section \<open>Data model\<close>

text \<open>
  The node behaviour of \<^verbatim>\<open>nmos/node_behaviour.cpp\<close> (stored as
  \<^verbatim>\<open>src/unnamed/part_000\<close>): the discovery and registration state machine of an
  IS-04 node, its event grain, the registration client and peer-to-peer operation.

  JSON payloads are opaque; identifiers, resource types and paths are strings.
\<close>

type_synonym json = string
type_synonym nmos_id = string
type_synonym nmos_type = string
type_synonym tai = nat
type_synonym service_priority = int

text \<open>
  Modelled from the spec: \<^verbatim>\<open>get_resource_event_type\<close> (nmos/query_utils.h) is not among
  the sources; the spec gives every event a kind in \<open>{added, modified, removed, sync}\<close>,
  which the source names \<^verbatim>\<open>resource_added_event\<close>, \<^verbatim>\<open>resource_modified_event\<close>,
  \<^verbatim>\<open>resource_removed_event\<close> and \<^verbatim>\<open>resource_unchanged_event\<close>. The kind is a field
  of the event.
\<close>

datatype resource_event_type =
  resource_added_event | resource_removed_event | resource_modified_event | resource_unchanged_event

record event =
  ev_path :: string
  ev_type :: resource_event_type
  ev_post :: json

definition get_resource_event_type :: "event \<Rightarrow> resource_event_type" where
  "get_resource_event_type ev = ev_type ev"

text \<open>
  Modelled from the spec: \<^verbatim>\<open>nmos::type_from_resourceType\<close> (nmos/api_utils.h) is not among
  the sources; a path is \<open><resource-type-plural>/<id>\<close>, so the type is the plural without
  its last character.
\<close>

definition type_from_resourceType :: "string \<Rightarrow> nmos_type" where
  "type_from_resourceType resourceType = butlast resourceType"

text \<open>
  \<^verbatim>\<open>path.find('/')\<close> is \<^verbatim>\<open>npos\<close> when the path has no slash; then \<^verbatim>\<open>slash + 1\<close>
  wraps to 0 and both substrings are the whole path.
\<close>

definition get_node_behaviour_event_id_type :: "event \<Rightarrow> nmos_id \<times> nmos_type" where
  "get_node_behaviour_event_id_type ev =
     (let p = ev_path ev; plural = takeWhile (\<lambda>c. c \<noteq> CHR ''/'') p in
      if CHR ''/'' \<in> set p
      then (drop (length plural + 1) p, type_from_resourceType plural)
      else (p, type_from_resourceType p))"

subsection \<open>Registration services: an ordered multimap\<close>

text \<open>
  \<^verbatim>\<open>std::multimap<service_priority, web::uri>\<close>: the entries in key order, entries of
  equal key in the order of their insertion (an insertion goes to the upper bound of its
  key). \<^verbatim>\<open>begin()\<close> of an empty multimap is \<^verbatim>\<open>end()\<close>; dereferencing or erasing it
  is undefined, which the model returns as \<open>None\<close>.
\<close>

type_synonym 'a multimap = "(service_priority \<times> 'a) list"

fun mm_insert :: "service_priority \<times> 'a \<Rightarrow> 'a multimap \<Rightarrow> 'a multimap" where
  "mm_insert e [] = [e]"
| "mm_insert e (x # xs) = (if fst e < fst x then e # x # xs else x # mm_insert e xs)"

definition multimap_of :: "(service_priority \<times> 'a) list \<Rightarrow> 'a multimap" where
  "multimap_of xs = fold mm_insert xs []"

definition top_registration_service :: "'a multimap \<Rightarrow> 'a option" where
  "top_registration_service registration_services =
     (case registration_services of [] \<Rightarrow> None | x # _ \<Rightarrow> Some (snd x))"

definition pop_registration_service :: "'a multimap \<Rightarrow> 'a multimap option" where
  "pop_registration_service registration_services =
     (case registration_services of [] \<Rightarrow> None | _ # xs \<Rightarrow> Some xs)"

subsection \<open>URIs, settings, requests\<close>

record uri =
  uri_scheme :: string
  uri_host :: string
  uri_port :: int
  uri_path :: string

definition empty_uri :: uri where
  "empty_uri = \<lparr>uri_scheme = [], uri_host = [], uri_port = 0, uri_path = []\<rparr>"

definition is_empty :: "uri \<Rightarrow> bool" where
  "is_empty u = (u = empty_uri)"

text \<open>
  The settings the thread reads. \<^verbatim>\<open>discovery_backoff_min\<close> and \<^verbatim>\<open>discovery_backoff_max\<close>
  are converted to \<^verbatim>\<open>double\<close> where they are used, so they are integers;
  \<^verbatim>\<open>discovery_backoff_factor\<close> is the \<^verbatim>\<open>double\<close> the setting was read as.
\<close>

record settings =
  pri :: service_priority
  registry_address :: "string option"
  registration_port :: int
  registry_version :: string
  discovery_backoff_min :: int
  discovery_backoff_max :: int
  discovery_backoff_factor :: real
  registration_heartbeat_interval :: int

text \<open>
  Modelled from the spec: \<^verbatim>\<open>nmos::service_priorities::no_priority\<close> (nmos/mdns.h) is not
  among the sources; the spec reserves 100 for it.
\<close>

definition no_priority :: service_priority where
  "no_priority = 100"

definition get_registration_service :: "settings \<Rightarrow> uri" where
  "get_registration_service st =
     (case registry_address st of
        Some address \<Rightarrow>
          \<lparr>uri_scheme = ''http'', uri_host = address, uri_port = registration_port st,
           uri_path = ''/x-nmos/registration/'' @ registry_version st\<rparr>
      | None \<Rightarrow> empty_uri)"

text \<open>
  \<^verbatim>\<open>web::uri::split_path(path).back()\<close>: the last segment of the path. The source calls
  \<^verbatim>\<open>back()\<close> on the segments without a check; a base URI of a Registration API ends in
  its version, and the model gives the empty string for a path without segments.
\<close>

fun split_path :: "string \<Rightarrow> string \<Rightarrow> string list" where
  "split_path acc [] = (if acc = [] then [] else [acc])"
| "split_path acc (c # cs) =
     (if c = CHR ''/'' then (if acc = [] then split_path [] cs else acc # split_path [] cs)
      else split_path (acc @ [c]) cs)"

definition registry_version_of :: "uri \<Rightarrow> string" where
  "registry_version_of base =
     (case split_path [] (uri_path base) of [] \<Rightarrow> [] | s # ss \<Rightarrow> last (s # ss))"

datatype http_method = POST | DEL

text \<open>
  The body of a registration request. The downgrade of the resource data to the
  registry's version is a hook outside the sources: the body records the data and the
  version the hook is applied with.
\<close>

record registration_body =
  body_type :: nmos_type
  body_data :: json
  body_version :: string

record request =
  req_base :: uri
  req_method :: http_method
  req_path :: string
  req_body :: "registration_body option"

definition make_registration_request_body :: "nmos_type \<Rightarrow> json \<Rightarrow> string \<Rightarrow> registration_body" where
  "make_registration_request_body ty data version =
     \<lparr>body_type = ty, body_data = data, body_version = version\<rparr>"

text \<open>
  What a request comes back with: a response with its status code, or the
  \<^verbatim>\<open>http_exception\<close> that \<^verbatim>\<open>.get()\<close> throws on a connection failure or a timeout.
\<close>

datatype http_result = Response nat | Http_failure

datatype exn = http_exception | registration_service_exception

abbreviation (input) status_OK :: nat where "status_OK \<equiv> 200"
abbreviation (input) status_Created :: nat where "status_Created \<equiv> 201"
abbreviation (input) status_NoContent :: nat where "status_NoContent \<equiv> 204"
abbreviation (input) status_NotFound :: nat where "status_NotFound \<equiv> 404"

text \<open>
  Modelled from the spec: \<^verbatim>\<open>web::http::is_server_error_status_code\<close> and
  \<^verbatim>\<open>is_client_error_status_code\<close> are not among the sources; the spec's 5xx and 4xx.
\<close>

definition is_server_error_status_code :: "nat \<Rightarrow> bool" where
  "is_server_error_status_code code = (500 \<le> code \<and> code \<le> 599)"

definition is_client_error_status_code :: "nat \<Rightarrow> bool" where
  "is_client_error_status_code code = (400 \<le> code \<and> code \<le> 499)"

subsection \<open>Peer-to-peer version counters\<close>

text \<open>
  Modelled from the spec: \<^verbatim>\<open>nmos::api_resource_versions\<close> (nmos/mdns.h) is not among the
  sources; the spec has one non-negative integer per resource type, starting at zero.
\<close>

record api_resource_versions =
  ver_self :: nat
  ver_devices :: nat
  ver_sources :: nat
  ver_flows :: nat
  ver_senders :: nat
  ver_receivers :: nat

definition initial_versions :: api_resource_versions where
  "initial_versions =
     \<lparr>ver_self = 0, ver_devices = 0, ver_sources = 0, ver_flows = 0, ver_senders = 0,
      ver_receivers = 0\<rparr>"

definition update_resource_version :: "api_resource_versions \<Rightarrow> nmos_type \<Rightarrow> api_resource_versions" where
  "update_resource_version ver ty =
     (let v1 = (if ty = ''node'' then ver\<lparr>ver_self := ver_self ver + 1\<rparr> else ver);
          v2 = (if ty = ''source'' then v1\<lparr>ver_sources := ver_sources v1 + 1\<rparr> else v1);
          v3 = (if ty = ''flow'' then v2\<lparr>ver_flows := ver_flows v2 + 1\<rparr> else v2);
          v4 = (if ty = ''device'' then v3\<lparr>ver_devices := ver_devices v3 + 1\<rparr> else v3);
          v5 = (if ty = ''sender'' then v4\<lparr>ver_senders := ver_senders v4 + 1\<rparr> else v4);
          v6 = (if ty = ''receiver'' then v5\<lparr>ver_receivers := ver_receivers v5 + 1\<rparr> else v5)
      in v6)"

definition versions_le :: "api_resource_versions \<Rightarrow> api_resource_versions \<Rightarrow> bool" where
  "versions_le a b =
     (ver_self a \<le> ver_self b \<and> ver_devices a \<le> ver_devices b \<and> ver_sources a \<le> ver_sources b \<and>
      ver_flows a \<le> ver_flows b \<and> ver_senders a \<le> ver_senders b \<and> ver_receivers a \<le> ver_receivers b)"

section \<open>The agent's state and its environment\<close>

datatype agent_mode =
  mode_initial_discovery | mode_initial_registration | mode_registered_operation |
  mode_rediscovery | mode_peer_to_peer_operation

text \<open>
  What the agent does that its surroundings can observe, in order: the HTTP requests of
  the thread itself (those of the background heartbeats are the environment's), the
  start and the cancellation of its background tasks, its mDNS advertisements and its
  timed waits, in whole milliseconds as \<^verbatim>\<open>std::chrono::milliseconds\<close> counts them.
\<close>

datatype action =
    Request request
  | Start_heartbeats uri nmos_id
  | Cancel_heartbeats
  | Register_service
  | Update_service "api_resource_versions option"
  | Start_background_discovery
  | Cancel_background_discovery
  | Wait_for int

text \<open>
  What other threads do while the agent has released the lock (inside
  \<^verbatim>\<open>condition.wait\<close> or a \<^verbatim>\<open>reverse_lock_guard\<close>): resources change and their events
  are inserted into the grain; the server is shut down; the background heartbeats end
  with a 404 (\<^verbatim>\<open>node_unregistered\<close>) or with an exception
  (\<^verbatim>\<open>registration_service_error\<close>); the background discovery of peer-to-peer
  operation makes an attempt that resolves the given services.
\<close>

datatype env_action =
    Resource_events "event list"
  | Set_shutdown
  | Heartbeats_not_found
  | Heartbeats_failed
  | Background_discovery "(service_priority \<times> uri) list"

text \<open>
  One record holds the shared model (\<^verbatim>\<open>nmos::model\<close>, the shutdown flag), the variables of
  \<^verbatim>\<open>node_behaviour_thread\<close>, the local variables of the operation in progress, the trace
  of actions, and the environment's script: the results of the HTTP requests to come
  (a request made when the script is used up fails like a connection failure), what the
  other threads do in each window in which the lock is released, and what each
  foreground DNS-SD browse resolves.
\<close>

record world =
  shutdown :: bool
  model_settings :: settings
  held :: "(string \<times> json) list"
  grain_present :: bool
  grain_data :: "event list"
  grain_updated :: tai
  resources_updated :: tai
  agent_mode :: agent_mode
  discovery_backoff :: real
  registration_services :: "uri multimap"
  self_id :: nmos_id
  client :: "uri option"
  events :: "event list"
  registration_service_error :: bool
  node_registered :: bool
  node_unregistered :: bool
  registration_services_discovered :: bool
  most_recent_update :: tai
  background_heartbeats :: bool
  background_discovery :: bool
  ver :: api_resource_versions
  trace :: "action list"
  error_log :: "(string \<times> nat) list"
  responses :: "http_result list"
  windows :: "env_action list list"
  discoveries :: "(service_priority \<times> uri) list list"

subsection \<open>The resource store\<close>

text \<open>
  Modelled from the spec: \<^verbatim>\<open>strictly_increasing_update\<close>, \<^verbatim>\<open>make_resource_events\<close> and
  the insertion of events into the grain (nmos/resources, nmos/query_utils) are not among
  the sources. The spec's grain is an append-only sequence of events with a strictly
  increasing \<open>updated\<close> watermark, and a \<open>sync\<close> event is made for every resource held.
\<close>

definition strictly_increasing_update :: "world \<Rightarrow> tai" where
  "strictly_increasing_update w = Suc (max (grain_updated w) (resources_updated w))"

definition make_resource_events :: "(string \<times> json) list \<Rightarrow> event list" where
  "make_resource_events rs =
     map (\<lambda>r. \<lparr>ev_path = fst r, ev_type = resource_unchanged_event, ev_post = snd r\<rparr>) rs"

definition apply_resource_event :: "event \<Rightarrow> (string \<times> json) list \<Rightarrow> (string \<times> json) list" where
  "apply_resource_event ev rs =
     (case ev_type ev of
        resource_added_event \<Rightarrow> rs @ [(ev_path ev, ev_post ev)]
      | resource_removed_event \<Rightarrow> filter (\<lambda>r. fst r \<noteq> ev_path ev) rs
      | resource_modified_event \<Rightarrow>
          map (\<lambda>r. if fst r = ev_path ev then (fst r, ev_post ev) else r) rs
      | resource_unchanged_event \<Rightarrow> rs)"

definition insert_resource_events :: "event list \<Rightarrow> world \<Rightarrow> world" where
  "insert_resource_events evs w =
     w\<lparr>held := fold apply_resource_event evs (held w),
       grain_data := grain_data w @ evs,
       grain_updated := strictly_increasing_update w\<rparr>"

subsection \<open>Discovery\<close>

definition discovered_services :: "uri multimap \<Rightarrow> uri \<Rightarrow> uri multimap" where
  "discovered_services resolved fallback_registration_service =
     (if resolved \<noteq> [] then resolved
      else if \<not> is_empty fallback_registration_service
      then mm_insert (no_priority, fallback_registration_service) resolved
      else resolved)"

text \<open>
  \<^verbatim>\<open>nmos::experimental::resolve_service\<close> is the mDNS browse, outside the sources: the
  environment's script gives the services in the order they are inserted.
\<close>

definition resolve_service :: "world \<Rightarrow> uri multimap \<times> world" where
  "resolve_service w =
     (case discoveries w of
        [] \<Rightarrow> ([], w)
      | d # ds \<Rightarrow> (multimap_of d, w\<lparr>discoveries := ds\<rparr>))"

definition discover_registration_services :: "uri \<Rightarrow> world \<Rightarrow> uri multimap \<times> world" where
  "discover_registration_services fallback_registration_service w =
     (case resolve_service w of
        (resolved, w1) \<Rightarrow> (discovered_services resolved fallback_registration_service, w1))"

subsection \<open>Windows in which the lock is released\<close>

fun apply_env_action :: "env_action \<Rightarrow> world \<Rightarrow> world" where
  "apply_env_action (Resource_events evs) w = insert_resource_events evs w"
| "apply_env_action Set_shutdown w = w\<lparr>shutdown := True\<rparr>"
| "apply_env_action Heartbeats_not_found w =
     (if background_heartbeats w
      then w\<lparr>node_unregistered := True, background_heartbeats := False\<rparr> else w)"
| "apply_env_action Heartbeats_failed w =
     (if background_heartbeats w
      then w\<lparr>registration_service_error := True, background_heartbeats := False\<rparr> else w)"
| "apply_env_action (Background_discovery resolved) w =
     (if background_discovery w
      then (let rs = discovered_services (multimap_of resolved)
                       (get_registration_service (model_settings w))
            in w\<lparr>registration_services := rs,
                 registration_services_discovered := (rs \<noteq> []),
                 background_discovery := (rs = [])\<rparr>)
      else w)"

definition unlocked :: "world \<Rightarrow> world" where
  "unlocked w =
     (case windows w of
        [] \<Rightarrow> w
      | a # rest \<Rightarrow> fold apply_env_action a (w\<lparr>windows := rest\<rparr>))"

text \<open>
  \<^verbatim>\<open>condition.wait(lock, pred)\<close>: returns at once when the predicate holds; otherwise the
  lock is released and the wait goes on until the other threads have made the predicate
  true. When the environment's script ends first, the agent waits for ever.
\<close>

datatype wait_result = Woken world | Waits_forever world

fun wait_windows :: "(world \<Rightarrow> bool) \<Rightarrow> env_action list list \<Rightarrow> world \<Rightarrow> wait_result" where
  "wait_windows pred [] w =
     (if pred w then Woken (w\<lparr>windows := []\<rparr>) else Waits_forever (w\<lparr>windows := []\<rparr>))"
| "wait_windows pred (a # rest) w =
     (if pred w then Woken (w\<lparr>windows := a # rest\<rparr>)
      else wait_windows pred rest (fold apply_env_action a w))"

definition condition_wait :: "(world \<Rightarrow> bool) \<Rightarrow> world \<Rightarrow> wait_result" where
  "condition_wait pred w = wait_windows pred (windows w) w"

subsection \<open>The grain guard\<close>

text \<open>
  The constructor of \<^verbatim>\<open>node_behaviour_grain_guard\<close> swaps the local \<^verbatim>\<open>events\<close> with the
  grain's and stamps the grain; the destructor, when events remain, appends the grain's
  events to them, swaps back and stamps the grain again.
\<close>

definition node_behaviour_grain_guard :: "world \<Rightarrow> world" where
  "node_behaviour_grain_guard w =
     w\<lparr>events := grain_data w, grain_data := events w,
       grain_updated := strictly_increasing_update w\<rparr>"

definition node_behaviour_grain_guard_dtor :: "world \<Rightarrow> world" where
  "node_behaviour_grain_guard_dtor w =
     (if events w = [] then w
      else w\<lparr>grain_data := events w @ grain_data w, events := grain_data w,
             grain_updated := strictly_increasing_update w\<rparr>)"

section \<open>The registration client\<close>

definition client_request :: "request \<Rightarrow> world \<Rightarrow> http_result \<times> world" where
  "client_request r w =
     (case responses w of
        [] \<Rightarrow> (Http_failure, w\<lparr>trace := trace w @ [Request r]\<rparr>)
      | x # xs \<Rightarrow> (x, w\<lparr>trace := trace w @ [Request r], responses := xs\<rparr>))"

definition post_resource :: "uri \<Rightarrow> registration_body \<Rightarrow> request" where
  "post_resource base body =
     \<lparr>req_base = base, req_method = POST, req_path = ''/resource'', req_body = Some body\<rparr>"

definition delete_resource :: "uri \<Rightarrow> string \<Rightarrow> request" where
  "delete_resource base p =
     \<lparr>req_base = base, req_method = DEL, req_path = ''/resource/'' @ p, req_body = None\<rparr>"

definition post_health :: "uri \<Rightarrow> nmos_id \<Rightarrow> request" where
  "post_health base i =
     \<lparr>req_base = base, req_method = POST, req_path = ''/health/nodes/'' @ i, req_body = None\<rparr>"

text \<open>Always logs; throws on a server error (5xx) only.\<close>

definition handle_registration_error_conditions ::
    "nat \<Rightarrow> string \<Rightarrow> world \<Rightarrow> (exn + unit) \<times> world" where
  "handle_registration_error_conditions status operation w =
     (if is_server_error_status_code status
      then (Inl registration_service_exception, w\<lparr>error_log := error_log w @ [(operation, status)]\<rparr>)
      else if is_client_error_status_code status
      then (Inr (), w\<lparr>error_log := error_log w @ [(operation, status)]\<rparr>)
      else (Inr (), w\<lparr>error_log := error_log w @ [(operation, status)]\<rparr>))"

text \<open>
  The first continuation of a creation: what the creation goes on with after the
  response to its POST. On 200 the registration is out of sync: DELETE, then POST again.
\<close>

definition creation_first_response ::
    "uri \<Rightarrow> string \<Rightarrow> registration_body \<Rightarrow> nat \<Rightarrow> world \<Rightarrow> (exn + http_result) \<times> world" where
  "creation_first_response base p body status w =
     (if status = status_Created then (Inr (Response status), w)
      else if status = status_OK then
        (case client_request (delete_resource base p) w of
           (Http_failure, w1) \<Rightarrow> (Inl http_exception, w1)
         | (Response status2, w1) \<Rightarrow>
             (case (if status2 = status_NoContent then (Inr (), w1)
                    else handle_registration_error_conditions status2 ''deletion'' w1) of
                (Inl e, w2) \<Rightarrow> (Inl e, w2)
              | (Inr _, w2) \<Rightarrow>
                  (case client_request (post_resource base body) w2 of
                     (r, w3) \<Rightarrow> (Inr r, w3))))
      else (Inr (Response status), w))"

definition creation_final_response :: "http_result \<Rightarrow> world \<Rightarrow> (exn + unit) \<times> world" where
  "creation_final_response r w =
     (case r of
        Http_failure \<Rightarrow> (Inl http_exception, w)
      | Response status \<Rightarrow>
          (if status = status_Created then (Inr (), w)
           else handle_registration_error_conditions status ''creation'' w))"

text \<open>
  \<^verbatim>\<open>request_registration(...).get()\<close>: the requests for one resource event, and how the
  task ends: normally, or with the exception that \<^verbatim>\<open>get()\<close> rethrows.
\<close>

definition request_registration :: "uri \<Rightarrow> event \<Rightarrow> world \<Rightarrow> (exn + unit) \<times> world" where
  "request_registration base ev w =
     (let registry_version = registry_version_of base;
          p = ev_path ev;
          id_type = get_node_behaviour_event_id_type ev;
          event_type = get_resource_event_type ev;
          creation = (resource_added_event = event_type \<or> resource_unchanged_event = event_type);
          update = (resource_modified_event = event_type);
          deletion = (resource_removed_event = event_type)
      in
      if creation then
        (let body = make_registration_request_body (snd id_type) (ev_post ev) registry_version in
         case client_request (post_resource base body) w of
           (Http_failure, w1) \<Rightarrow> (Inl http_exception, w1)
         | (Response status, w1) \<Rightarrow>
             (case creation_first_response base p body status w1 of
                (Inl e, w2) \<Rightarrow> (Inl e, w2)
              | (Inr r, w2) \<Rightarrow> creation_final_response r w2))
      else if update then
        (let body = make_registration_request_body (snd id_type) (ev_post ev) registry_version in
         case client_request (post_resource base body) w of
           (Http_failure, w1) \<Rightarrow> (Inl http_exception, w1)
         | (Response status, w1) \<Rightarrow>
             (if status = status_OK then (Inr (), w1)
              else handle_registration_error_conditions status ''update'' w1))
      else if deletion then
        (case client_request (delete_resource base p) w of
           (Http_failure, w1) \<Rightarrow> (Inl http_exception, w1)
         | (Response status, w1) \<Rightarrow>
             (if status = status_NoContent then (Inr (), w1)
              else handle_registration_error_conditions status ''deletion'' w1))
      else (Inr (), w))"

text \<open>
  \<^verbatim>\<open>update_node_health(...).get()\<close>: one heartbeat. True on 200, false on 404 (logged),
  an exception on a failure or a 5xx, and true on every other status (logged).
\<close>

definition update_node_health :: "uri \<Rightarrow> nmos_id \<Rightarrow> world \<Rightarrow> (exn + bool) \<times> world" where
  "update_node_health base i w =
     (case client_request (post_health base i) w of
        (Http_failure, w1) \<Rightarrow> (Inl http_exception, w1)
      | (Response status, w1) \<Rightarrow>
          (if status = status_OK then (Inr True, w1)
           else if status = status_NotFound
           then (Inr False, w1\<lparr>error_log := error_log w1 @ [(''heartbeat'', status)]\<rparr>)
           else (case handle_registration_error_conditions status ''heartbeat'' w1 of
                   (Inl e, w2) \<Rightarrow> (Inl e, w2)
                 | (Inr _, w2) \<Rightarrow> (Inr True, w2))))"

section \<open>The operations\<close>

text \<open>
  The loops of the agent run until the server is shut down, and wait on the condition
  variable in between: each is its body (one iteration) and a loop that runs the body
  a bounded number of times (\<open>Out_of_fuel\<close> holds the state the bound was reached in, at
  the head of the loop). A body ends by going round again, by leaving the loop, by
  waiting for ever, or in undefined behaviour (\<^verbatim>\<open>begin()\<close> of an empty multimap
  dereferenced or erased).
\<close>

datatype fault = Top_of_empty | Pop_of_empty

datatype step = Continue world | Break world | Waits world | Fault fault

datatype outcome = Returned world | Waiting world | Crashed fault | Out_of_fuel world

definition pop_services :: "world \<Rightarrow> world option" where
  "pop_services w =
     (case pop_registration_service (registration_services w) of
        None \<Rightarrow> None
      | Some rs \<Rightarrow> Some (w\<lparr>registration_services := rs\<rparr>))"

subsection \<open>Initial registration\<close>

definition initial_registration_wake :: "world \<Rightarrow> bool" where
  "initial_registration_wake w =
     (shutdown w \<or> registration_service_error w \<or> node_registered w \<or>
      most_recent_update w < grain_updated w)"

text \<open>
  The inner \<^verbatim>\<open>while (0 != events.size())\<close> of \<^verbatim>\<open>initial_registration\<close>, on the local
  buffer. After an exception the flag is set and the event stays at the front; the next
  test of the loop breaks on the flag, which is the last equation's result.
\<close>

fun initial_registration_drain :: "uri \<Rightarrow> event list \<Rightarrow> world \<Rightarrow> world" where
  "initial_registration_drain base [] w = w\<lparr>events := []\<rparr>"
| "initial_registration_drain base (e # es) w =
     (if shutdown w \<or> registration_service_error w \<or> node_registered w
      then w\<lparr>events := e # es\<rparr>
      else
        (let id_type = get_node_behaviour_event_id_type e;
             event_type = get_resource_event_type e
         in
         if \<not> (''node'' = snd id_type \<and>
                (resource_added_event = event_type \<or> resource_unchanged_event = event_type))
         then initial_registration_drain base es w
         else
           (case request_registration base e (unlocked (w\<lparr>self_id := fst id_type\<rparr>)) of
              (Inr _, w1) \<Rightarrow> initial_registration_drain base es (w1\<lparr>node_registered := True\<rparr>)
            | (Inl _, w1) \<Rightarrow> w1\<lparr>registration_service_error := True, events := e # es\<rparr>)))"

definition initial_registration_attempt :: "uri \<Rightarrow> world \<Rightarrow> world" where
  "initial_registration_attempt base_uri w =
     (let w1 = (if client w \<noteq> Some base_uri then w\<lparr>client := Some base_uri\<rparr> else w);
          w2 = node_behaviour_grain_guard (w1\<lparr>events := []\<rparr>);
          w3 = initial_registration_drain base_uri (events w2) w2;
          w4 = w3\<lparr>most_recent_update := grain_updated w3\<rparr>
      in node_behaviour_grain_guard_dtor w4)"

definition initial_registration_body :: "world \<Rightarrow> step" where
  "initial_registration_body w =
     (case condition_wait initial_registration_wake w of
        Waits_forever w1 \<Rightarrow> Waits w1
      | Woken w1 \<Rightarrow>
          (case (if registration_service_error w1 then pop_services w1 else Some w1) of
             None \<Rightarrow> Fault Pop_of_empty
           | Some w2 \<Rightarrow>
               if shutdown w2 \<or> registration_services w2 = [] \<or> node_registered w2
               then Break w2
               else
                 (case top_registration_service (registration_services w2) of
                    None \<Rightarrow> Fault Top_of_empty
                  | Some base_uri \<Rightarrow> Continue (initial_registration_attempt base_uri w2))))"

fun initial_registration_loop :: "nat \<Rightarrow> world \<Rightarrow> outcome" where
  "initial_registration_loop 0 w = Out_of_fuel w"
| "initial_registration_loop (Suc n) w =
     (case initial_registration_body w of
        Continue w1 \<Rightarrow> initial_registration_loop n w1
      | Break w1 \<Rightarrow> Returned w1
      | Waits w1 \<Rightarrow> Waiting w1
      | Fault f \<Rightarrow> Crashed f)"

definition initial_registration_enter :: "world \<Rightarrow> world" where
  "initial_registration_enter w =
     w\<lparr>client := None,
       grain_data := make_resource_events (held w),
       grain_updated := strictly_increasing_update w,
       registration_service_error := False,
       node_registered := False,
       most_recent_update := 0\<rparr>"

definition initial_registration :: "nat \<Rightarrow> world \<Rightarrow> outcome" where
  "initial_registration n w =
     (if \<not> grain_present w then Returned w
      else initial_registration_loop n (initial_registration_enter w))"

subsection \<open>Registered operation\<close>

definition registered_operation_wake :: "world \<Rightarrow> bool" where
  "registered_operation_wake w =
     (shutdown w \<or> registration_service_error w \<or> node_unregistered w \<or>
      most_recent_update w < grain_updated w)"

definition cancel_background_heartbeats :: "world \<Rightarrow> world" where
  "cancel_background_heartbeats w =
     w\<lparr>background_heartbeats := False, trace := trace w @ [Cancel_heartbeats]\<rparr>"

definition start_background_heartbeats :: "uri \<Rightarrow> world \<Rightarrow> world" where
  "start_background_heartbeats base_uri w =
     w\<lparr>background_heartbeats := True,
       trace := trace w @ [Start_heartbeats base_uri (self_id w)]\<rparr>"

text \<open>
  The first interaction with a newly selected Registration API: the client is made and
  one heartbeat is awaited, with the lock held.
\<close>

definition first_heartbeat :: "uri \<Rightarrow> world \<Rightarrow> world" where
  "first_heartbeat base_uri w =
     (case update_node_health base_uri (self_id w) (w\<lparr>client := Some base_uri\<rparr>) of
        (Inr registered, w1) \<Rightarrow> (if \<not> registered then w1\<lparr>node_unregistered := True\<rparr> else w1)
      | (Inl _, w1) \<Rightarrow> w1\<lparr>registration_service_error := True\<rparr>)"

text \<open>
  The inner \<^verbatim>\<open>while (0 != events.size())\<close> of \<^verbatim>\<open>registered_operation\<close>; as above, after
  an exception the next test of the loop breaks on the flag.
\<close>

fun registered_operation_drain :: "uri \<Rightarrow> event list \<Rightarrow> world \<Rightarrow> world" where
  "registered_operation_drain base [] w = w\<lparr>events := []\<rparr>"
| "registered_operation_drain base (e # es) w =
     (if shutdown w \<or> registration_service_error w \<or> node_unregistered w
      then w\<lparr>events := e # es\<rparr>
      else
        (let id_type = get_node_behaviour_event_id_type e;
             event_type = get_resource_event_type e
         in
         case request_registration base e (unlocked w) of
           (Inr _, w1) \<Rightarrow>
             registered_operation_drain base es
               (if self_id w1 = fst id_type \<and> resource_removed_event = event_type
                then w1\<lparr>node_unregistered := True\<rparr> else w1)
         | (Inl _, w1) \<Rightarrow> w1\<lparr>registration_service_error := True, events := e # es\<rparr>))"

definition registered_operation_drain_cycle :: "uri \<Rightarrow> world \<Rightarrow> world" where
  "registered_operation_drain_cycle base_uri w =
     (let w1 = node_behaviour_grain_guard (w\<lparr>events := []\<rparr>);
          w2 = w1\<lparr>most_recent_update := grain_updated w1\<rparr>;
          w3 = registered_operation_drain base_uri (events w2) w2;
          w4 = w3\<lparr>most_recent_update := grain_updated w3\<rparr>
      in node_behaviour_grain_guard_dtor w4)"

definition registered_operation_attempt :: "uri \<Rightarrow> world \<Rightarrow> world" where
  "registered_operation_attempt base_uri w =
     (if client w \<noteq> Some base_uri then
        (let w1 = first_heartbeat base_uri w in
         if shutdown w1 \<or> registration_service_error w1 \<or> node_unregistered w1 then w1
         else registered_operation_drain_cycle base_uri (start_background_heartbeats base_uri w1))
      else registered_operation_drain_cycle base_uri w)"

definition pop_and_cancel :: "world \<Rightarrow> world option" where
  "pop_and_cancel w =
     (case pop_services w of
        None \<Rightarrow> None
      | Some w1 \<Rightarrow> Some (cancel_background_heartbeats (unlocked w1)))"

definition registered_operation_body :: "world \<Rightarrow> step" where
  "registered_operation_body w =
     (case condition_wait registered_operation_wake w of
        Waits_forever w1 \<Rightarrow> Waits w1
      | Woken w1 \<Rightarrow>
          (case (if registration_service_error w1 then pop_and_cancel w1 else Some w1) of
             None \<Rightarrow> Fault Pop_of_empty
           | Some w2 \<Rightarrow>
               if shutdown w2 \<or> registration_services w2 = [] \<or> node_unregistered w2
               then Break w2
               else
                 (case top_registration_service (registration_services w2) of
                    None \<Rightarrow> Fault Top_of_empty
                  | Some base_uri \<Rightarrow> Continue (registered_operation_attempt base_uri w2))))"

fun registered_operation_loop :: "nat \<Rightarrow> world \<Rightarrow> outcome" where
  "registered_operation_loop 0 w = Out_of_fuel w"
| "registered_operation_loop (Suc n) w =
     (case registered_operation_body w of
        Continue w1 \<Rightarrow> registered_operation_loop n w1
      | Break w1 \<Rightarrow> Returned (cancel_background_heartbeats (unlocked w1))
      | Waits w1 \<Rightarrow> Waiting w1
      | Fault f \<Rightarrow> Crashed f)"

definition registered_operation_enter :: "world \<Rightarrow> world" where
  "registered_operation_enter w =
     w\<lparr>client := None,
       background_heartbeats := False,
       registration_service_error := False,
       node_unregistered := False,
       most_recent_update := 0\<rparr>"

definition registered_operation :: "nat \<Rightarrow> world \<Rightarrow> outcome" where
  "registered_operation n w =
     (if \<not> grain_present w then Returned w
      else registered_operation_loop n (registered_operation_enter w))"

subsection \<open>Peer-to-peer operation\<close>

definition advertise_node_service :: "world \<Rightarrow> world" where
  "advertise_node_service w =
     (if no_priority \<noteq> pri (model_settings w)
      then w\<lparr>trace := trace w @ [Register_service]\<rparr> else w)"

text \<open>
  The two overloads of \<^verbatim>\<open>update_node_service\<close>: with the \<open>ver_\<close> records (\<open>Some\<close>) and
  without them (\<open>None\<close>).
\<close>

definition update_node_service :: "api_resource_versions option \<Rightarrow> world \<Rightarrow> world" where
  "update_node_service v w =
     (if no_priority \<noteq> pri (model_settings w)
      then w\<lparr>trace := trace w @ [Update_service v]\<rparr> else w)"

definition peer_to_peer_wake :: "world \<Rightarrow> bool" where
  "peer_to_peer_wake w =
     (shutdown w \<or> registration_services_discovered w \<or> most_recent_update w < grain_updated w)"

definition update_versions :: "event list \<Rightarrow> api_resource_versions \<Rightarrow> api_resource_versions" where
  "update_versions evs v =
     fold (\<lambda>event v'. update_resource_version v' (snd (get_node_behaviour_event_id_type event))) evs v"

definition peer_to_peer_body :: "world \<Rightarrow> step" where
  "peer_to_peer_body w =
     (case condition_wait peer_to_peer_wake w of
        Waits_forever w1 \<Rightarrow> Waits w1
      | Woken w1 \<Rightarrow>
          if shutdown w1 \<or> registration_services_discovered w1 then Break w1
          else
            (let w2 = node_behaviour_grain_guard (w1\<lparr>events := []\<rparr>);
                 w3 = unlocked w2;
                 w4 = w3\<lparr>ver := update_versions (events w3) (ver w3)\<rparr>;
                 w5 = update_node_service (Some (ver w4)) w4;
                 w6 = node_behaviour_grain_guard_dtor (w5\<lparr>events := []\<rparr>)
             in Continue (w6\<lparr>most_recent_update := grain_updated w6\<rparr>)))"

definition peer_to_peer_leave :: "world \<Rightarrow> world" where
  "peer_to_peer_leave w =
     (let w1 = unlocked (update_node_service None w)
      in w1\<lparr>background_discovery := False, trace := trace w1 @ [Cancel_background_discovery]\<rparr>)"

fun peer_to_peer_loop :: "nat \<Rightarrow> world \<Rightarrow> outcome" where
  "peer_to_peer_loop 0 w = Out_of_fuel w"
| "peer_to_peer_loop (Suc n) w =
     (case peer_to_peer_body w of
        Continue w1 \<Rightarrow> peer_to_peer_loop n w1
      | Break w1 \<Rightarrow> Returned (peer_to_peer_leave w1)
      | Waits w1 \<Rightarrow> Waiting w1
      | Fault f \<Rightarrow> Crashed f)"

definition peer_to_peer_enter :: "world \<Rightarrow> world" where
  "peer_to_peer_enter w =
     (let w1 = update_node_service (Some initial_versions) (w\<lparr>ver := initial_versions\<rparr>)
      in w1\<lparr>registration_services_discovered := False,
            background_discovery := True,
            trace := trace w1 @ [Start_background_discovery],
            most_recent_update := 0\<rparr>)"

definition peer_to_peer_operation :: "nat \<Rightarrow> world \<Rightarrow> outcome" where
  "peer_to_peer_operation n w =
     (if \<not> grain_present w then Returned w
      else peer_to_peer_loop n (peer_to_peer_enter w))"

section \<open>The state machine\<close>

subsection \<open>The arithmetic of the backoff\<close>

text \<open>
  \<^verbatim>\<open>discovery_backoff\<close> is a C++ \<^verbatim>\<open>double\<close>, an IEEE 754 binary64 number: 53 significant
  bits, binary exponents from \<open>-1022\<close> to \<open>1023\<close>, and below that range the multiples of
  \<open>2 powi -1074\<close>. A finite double is taken as the real number it denotes, and the result of
  an operation is the exact result rounded to the nearest double, a tie going to the
  even significand: \<open>binary_exponent x\<close> is the integer part of the binary logarithm of a
  positive \<open>x\<close>, which fixes the spacing of the doubles around \<open>x\<close>.

  The settings are JSON numbers, so they are finite. A product beyond the largest double
  is an infinity in C++ and stays a large real here; the one product of the thread is
  clamped between two converted \<^verbatim>\<open>int\<close>s at once, which gives the same double in both
  readings. The sign of a zero is not kept: the thread only compares and multiplies.
\<close>

definition binary_exponent :: "real \<Rightarrow> int" where
  "binary_exponent x =
     (if 1 \<le> x then bitlen \<lfloor>x\<rfloor> - 1 else - bitlen (\<lceil>1 / x\<rceil> - 1))"

definition round_half_even :: "real \<Rightarrow> int" where
  "round_half_even y =
     (let n = \<lfloor>y\<rfloor>; r = y - of_int n
      in if r < 1 / 2 then n else if 1 / 2 < r then n + 1 else if even n then n else n + 1)"

definition round_to_double :: "real \<Rightarrow> real" where
  "round_to_double x =
     (if x = 0 then 0
      else (let e = max (binary_exponent \<bar>x\<bar>) (- 1022) - 52
            in of_int (round_half_even (x / 2 powi e)) * 2 powi e))"

definition double_of_int :: "int \<Rightarrow> real" where
  "double_of_int n = round_to_double (of_int n)"

definition double_mult :: "real \<Rightarrow> real \<Rightarrow> real" where
  "double_mult a b = round_to_double (a * b)"

text \<open>
  The conversion of a double to the integer type \<^verbatim>\<open>std::chrono::milliseconds::rep\<close>
  drops the fraction. \<^verbatim>\<open>std::max (a, b)\<close> is \<^verbatim>\<open>b\<close> when \<^verbatim>\<open>a < b\<close> and \<^verbatim>\<open>a\<close> otherwise;
  \<^verbatim>\<open>std::min (a, b)\<close> is \<^verbatim>\<open>b\<close> when \<^verbatim>\<open>b < a\<close> and \<^verbatim>\<open>a\<close> otherwise.
\<close>

definition milliseconds_rep :: "real \<Rightarrow> int" where
  "milliseconds_rep x = (if 0 \<le> x then \<lfloor>x\<rfloor> else \<lceil>x\<rceil>)"

definition std_max :: "real \<Rightarrow> real \<Rightarrow> real" where
  "std_max a b = (if a < b then b else a)"

definition std_min :: "real \<Rightarrow> real \<Rightarrow> real" where
  "std_min a b = (if b < a then b else a)"

definition next_discovery_backoff :: "settings \<Rightarrow> real \<Rightarrow> real" where
  "next_discovery_backoff st backoff =
     std_min
       (std_max (double_of_int (discovery_backoff_min st))
                (double_mult backoff (discovery_backoff_factor st)))
       (double_of_int (discovery_backoff_max st))"

definition discover :: "world \<Rightarrow> world" where
  "discover w =
     (case discover_registration_services (get_registration_service (model_settings w)) w of
        (rs, w1) \<Rightarrow> w1\<lparr>registration_services := rs\<rparr>)"

text \<open>What the \<^verbatim>\<open>switch\<close> does with the mode when an operation has returned.\<close>

definition after_initial_registration :: "world \<Rightarrow> world" where
  "after_initial_registration w =
     (if registration_services w \<noteq> []
      then w\<lparr>agent_mode := mode_registered_operation, discovery_backoff := 0\<rparr>
      else w\<lparr>agent_mode := mode_initial_discovery\<rparr>)"

definition after_registered_operation :: "world \<Rightarrow> world" where
  "after_registered_operation w =
     (if registration_services w \<noteq> []
      then w\<lparr>agent_mode := mode_initial_registration\<rparr>
      else w\<lparr>agent_mode := mode_rediscovery\<rparr>)"

definition after_peer_to_peer_operation :: "world \<Rightarrow> world" where
  "after_peer_to_peer_operation w =
     (if registration_services w \<noteq> []
      then w\<lparr>agent_mode := mode_initial_registration\<rparr> else w)"

definition after_operation :: "(world \<Rightarrow> world) \<Rightarrow> outcome \<Rightarrow> outcome" where
  "after_operation f r = (case r of Returned w \<Rightarrow> Returned (f w) | other \<Rightarrow> other)"

text \<open>
  One pass through the \<^verbatim>\<open>switch (mode)\<close> of \<^verbatim>\<open>node_behaviour_thread\<close>; \<open>n\<close> bounds the
  iterations of the operation it runs.
\<close>

definition node_behaviour_switch :: "nat \<Rightarrow> world \<Rightarrow> outcome" where
  "node_behaviour_switch n w =
     (case agent_mode w of
        mode_initial_discovery \<Rightarrow>
          (let w1 = (if 0 \<noteq> discovery_backoff w
                     then unlocked
                            (w\<lparr>trace := trace w @
                                 [Wait_for (milliseconds_rep
                                    (double_mult (double_of_int 1000) (discovery_backoff w)))]\<rparr>)
                     else w)
           in
           if 0 \<noteq> discovery_backoff w \<and> shutdown w1 then Returned w1
           else
             (let w2 = discover w1 in
              if registration_services w2 \<noteq> []
              then Returned (w2\<lparr>agent_mode := mode_initial_registration,
                     discovery_backoff :=
                       next_discovery_backoff (model_settings w2) (discovery_backoff w2)\<rparr>)
              else Returned (w2\<lparr>agent_mode := mode_peer_to_peer_operation\<rparr>)))
      | mode_initial_registration \<Rightarrow>
          after_operation after_initial_registration (initial_registration n w)
      | mode_registered_operation \<Rightarrow>
          after_operation after_registered_operation (registered_operation n w)
      | mode_rediscovery \<Rightarrow>
          (let w1 = discover w in
           if registration_services w1 \<noteq> []
           then Returned (w1\<lparr>agent_mode := mode_registered_operation\<rparr>)
           else Returned (w1\<lparr>agent_mode := mode_peer_to_peer_operation\<rparr>))
      | mode_peer_to_peer_operation \<Rightarrow>
          after_operation after_peer_to_peer_operation (peer_to_peer_operation n w))"

fun node_behaviour_loop :: "nat \<Rightarrow> nat \<Rightarrow> world \<Rightarrow> outcome" where
  "node_behaviour_loop 0 n w = Out_of_fuel w"
| "node_behaviour_loop (Suc k) n w =
     (if shutdown w then Returned w
      else
        (case node_behaviour_switch n w of
           Returned w1 \<Rightarrow> node_behaviour_loop k n w1
         | other \<Rightarrow> other))"

text \<open>
  \<^verbatim>\<open>node_behaviour_thread\<close> from its start: the node is advertised, the discovery backoff
  is 0, the grain is inserted empty, and the loop runs from \<open>initial_discovery\<close>.
\<close>

definition node_behaviour_start :: "world \<Rightarrow> world" where
  "node_behaviour_start w =
     (let w1 = advertise_node_service
                 (w\<lparr>agent_mode := mode_initial_discovery, registration_services := [],
                    discovery_backoff := 0, self_id := []\<rparr>)
      in w1\<lparr>grain_present := True, grain_data := [],
            grain_updated := strictly_increasing_update w1\<rparr>)"

definition node_behaviour_thread :: "nat \<Rightarrow> nat \<Rightarrow> world \<Rightarrow> outcome" where
  "node_behaviour_thread k n w = node_behaviour_loop k n (node_behaviour_start w)"

section \<open>Example data\<close>

text \<open>Concrete settings, registries, events and a quiescent state, for the examples below.\<close>

definition example_settings :: settings where
  "example_settings =
     \<lparr>pri = 0, registry_address = None, registration_port = 3210, registry_version = ''v1.2'',
      discovery_backoff_min = 1, discovery_backoff_max = 30, discovery_backoff_factor = 3 / 2,
      registration_heartbeat_interval = 5\<rparr>"

definition registry_a :: uri where
  "registry_a =
     \<lparr>uri_scheme = ''http'', uri_host = ''a'', uri_port = 8235,
      uri_path = ''/x-nmos/registration/v1.2''\<rparr>"

definition registry_b :: uri where
  "registry_b =
     \<lparr>uri_scheme = ''http'', uri_host = ''b'', uri_port = 8235,
      uri_path = ''/x-nmos/registration/v1.2''\<rparr>"

definition example_event :: "string \<Rightarrow> resource_event_type \<Rightarrow> event" where
  "example_event p t = \<lparr>ev_path = p, ev_type = t, ev_post = ''{}''\<rparr>"

definition quiet_world :: world where
  "quiet_world =
     \<lparr>shutdown = False, model_settings = example_settings, held = [], grain_present = True,
      grain_data = [], grain_updated = 1, resources_updated = 0,
      agent_mode = mode_initial_discovery, discovery_backoff = 0, registration_services = [],
      self_id = [], client = None, events = [], registration_service_error = False,
      node_registered = False, node_unregistered = False,
      registration_services_discovered = False, most_recent_update = 0,
      background_heartbeats = False, background_discovery = False, ver = initial_versions,
      trace = [], error_log = [], responses = [], windows = [], discoveries = []\<rparr>"

definition example_services :: "(service_priority \<times> string) list" where
  "example_services = [(2, ''a''), (1, ''b''), (2, ''c''), (1, ''d'')]"

section \<open>Auxiliary definitions\<close>

definition io_only :: "world \<Rightarrow> world \<Rightarrow> bool" where
  "io_only w w' =
     (w'\<lparr>trace := trace w, error_log := error_log w, responses := responses w\<rparr> = w)"

definition creation_body :: "uri \<Rightarrow> event \<Rightarrow> registration_body" where
  "creation_body base ev =
     make_registration_request_body (snd (get_node_behaviour_event_id_type ev)) (ev_post ev)
       (registry_version_of base)"

definition answered_without_server_error :: "http_result list \<Rightarrow> bool" where
  "answered_without_server_error rs =
     (case rs of Response s # _ \<Rightarrow> \<not> is_server_error_status_code s | _ \<Rightarrow> False)"

definition c2_event :: event where
  "c2_event = example_event ''devices/D1'' resource_added_event"

definition c2_world :: world where
  "c2_world = quiet_world\<lparr>self_id := ''N1'', client := Some registry_a,
     registration_services := [(100, registry_a)],
     responses := [Response 200, Response 204, Response 503]\<rparr>"

definition untouched :: "(world \<Rightarrow> 'a) \<Rightarrow> bool" where
  "untouched f =
     (\<forall>w. (\<forall>x. f (w\<lparr>shutdown := x\<rparr>) = f w) \<and> (\<forall>x. f (w\<lparr>held := x\<rparr>) = f w) \<and>
          (\<forall>x. f (w\<lparr>grain_data := x\<rparr>) = f w) \<and> (\<forall>x. f (w\<lparr>grain_updated := x\<rparr>) = f w) \<and>
          (\<forall>x. f (w\<lparr>registration_services := x\<rparr>) = f w) \<and> (\<forall>x. f (w\<lparr>client := x\<rparr>) = f w) \<and>
          (\<forall>x. f (w\<lparr>events := x\<rparr>) = f w) \<and>
          (\<forall>x. f (w\<lparr>registration_service_error := x\<rparr>) = f w) \<and>
          (\<forall>x. f (w\<lparr>node_registered := x\<rparr>) = f w) \<and>
          (\<forall>x. f (w\<lparr>node_unregistered := x\<rparr>) = f w) \<and>
          (\<forall>x. f (w\<lparr>registration_services_discovered := x\<rparr>) = f w) \<and>
          (\<forall>x. f (w\<lparr>most_recent_update := x\<rparr>) = f w) \<and>
          (\<forall>x. f (w\<lparr>background_heartbeats := x\<rparr>) = f w) \<and>
          (\<forall>x. f (w\<lparr>background_discovery := x\<rparr>) = f w) \<and>
          (\<forall>x. f (w\<lparr>ver := x\<rparr>) = f w) \<and> (\<forall>x. f (w\<lparr>trace := x\<rparr>) = f w) \<and>
          (\<forall>x. f (w\<lparr>error_log := x\<rparr>) = f w) \<and> (\<forall>x. f (w\<lparr>responses := x\<rparr>) = f w) \<and>
          (\<forall>x. f (w\<lparr>windows := x\<rparr>) = f w))"

fun waited :: "wait_result \<Rightarrow> world" where
  "waited (Woken w) = w"
| "waited (Waits_forever w) = w"

fun arrived :: "env_action \<Rightarrow> event list" where
  "arrived (Resource_events evs) = evs"
| "arrived Set_shutdown = []"
| "arrived Heartbeats_not_found = []"
| "arrived Heartbeats_failed = []"
| "arrived (Background_discovery resolved) = []"

definition arrivals :: "env_action list list \<Rightarrow> event list" where
  "arrivals ws = concat (map (\<lambda>a. concat (map arrived a)) ws)"

definition c1_device :: event where "c1_device = example_event ''devices/D1'' resource_added_event"
definition c1_sender :: event where "c1_sender = example_event ''senders/S1'' resource_added_event"
definition c1_flow :: event where "c1_flow = example_event ''flows/F1'' resource_added_event"

definition c1_world :: world where
  "c1_world = quiet_world\<lparr>self_id := ''N1'', client := Some registry_a,
     registration_services := [(100, registry_a)],
     grain_data := [c1_device, c1_sender],
     responses := [Response 201, Response 503],
     windows := [[], [Resource_events [c1_flow]]]\<rparr>"

definition c1_node :: event where "c1_node = example_event ''nodes/N1'' resource_added_event"

definition c1_registering :: world where
  "c1_registering = quiet_world\<lparr>registration_services := [(100, registry_a)],
     grain_data := [c1_device, c1_node, c1_sender],
     responses := [Response 201],
     windows := [[Resource_events [c1_flow]]]\<rparr>"

definition c1_peer_to_peer :: world where
  "c1_peer_to_peer = quiet_world\<lparr>background_discovery := True, most_recent_update := 1,
     grain_data := [c1_sender],
     windows := [[Resource_events [c1_device]], [Resource_events [c1_flow]]]\<rparr>"

definition c1_stopped :: world where
  "c1_stopped = c1_world\<lparr>events := [c1_sender], grain_data := [c1_flow]\<rparr>"

fun woken :: "wait_result \<Rightarrow> world option" where
  "woken (Woken w) = Some w"
| "woken (Waits_forever w) = None"

fun outcome_world :: "outcome \<Rightarrow> world option" where
  "outcome_world (Returned w) = Some w"
| "outcome_world (Waiting w) = Some w"
| "outcome_world (Out_of_fuel w) = Some w"
| "outcome_world (Crashed f) = None"

fun is_Returned :: "outcome \<Rightarrow> bool" where
  "is_Returned (Returned w) = True"
| "is_Returned (Waiting w) = False"
| "is_Returned (Out_of_fuel w) = False"
| "is_Returned (Crashed f) = False"

definition c3_world :: world where
  "c3_world = quiet_world\<lparr>held := [(''nodes/N1'', ''{}'')], discoveries := [[]],
     windows := [[], [Background_discovery [(100, registry_a)]]]\<rparr>"

definition c3_found :: world where
  "c3_found = quiet_world\<lparr>discovery_backoff := 2, discoveries := [[(100, registry_a)]]\<rparr>"

definition c3_shut_down :: world where
  "c3_shut_down = quiet_world\<lparr>discovery_backoff := 2, discoveries := [[(100, registry_a)]],
     windows := [[Set_shutdown]]\<rparr>"

definition c3_rounded :: world where
  "c3_rounded = quiet_world\<lparr>discovery_backoff := 1,
     model_settings := example_settings\<lparr>discovery_backoff_factor := round_to_double (1001 / 1000)\<rparr>,
     discoveries := [[(100, registry_a)]]\<rparr>"

definition c3_registering :: world where
  "c3_registering = quiet_world\<lparr>agent_mode := mode_initial_registration,
     held := [(''nodes/N1'', ''{}'')], registration_services := [(100, registry_a)],
     discovery_backoff := 3, responses := [Response 201]\<rparr>"

definition c10_world :: world where
  "c10_world = quiet_world\<lparr>held := [(''nodes/N1'', ''{}'')],
     registration_services := [(100, registry_a)], responses := [Response 503]\<rparr>"

definition services_view :: "world \<Rightarrow> bool \<times> uri multimap" where
  "services_view w = (background_discovery w, registration_services w)"

definition node_creation :: "event \<Rightarrow> bool" where
  "node_creation e =
     (''node'' = snd (get_node_behaviour_event_id_type e) \<and>
      (resource_added_event = get_resource_event_type e \<or>
       resource_unchanged_event = get_resource_event_type e))"

fun resource_request :: "action \<Rightarrow> bool" where
  "resource_request (Request q) = (take 9 (req_path q) = ''/resource'')"
| "resource_request (Start_heartbeats u i) = False"
| "resource_request Cancel_heartbeats = False"
| "resource_request Register_service = False"
| "resource_request (Update_service v) = False"
| "resource_request Start_background_discovery = False"
| "resource_request Cancel_background_discovery = False"
| "resource_request (Wait_for t) = False"

definition heartbeat_alive :: "http_result list \<Rightarrow> bool" where
  "heartbeat_alive rs =
     (case rs of Response s # _ \<Rightarrow> s \<noteq> status_NotFound \<and> \<not> is_server_error_status_code s
      | _ \<Rightarrow> False)"

definition c9_world :: world where
  "c9_world = quiet_world\<lparr>held := [(''nodes/N1'', ''{}'')],
     discoveries := [[(100, registry_a)]],
     responses := [Response 201, Response 200, Response 204, Response 201],
     windows := [[Resource_events [example_event ''nodes/N1'' resource_removed_event,
                                  example_event ''nodes/N2'' resource_added_event]]]\<rparr>"

definition c9_node :: event where
  "c9_node = \<lparr>ev_path = ''nodes/N1'', ev_type = resource_unchanged_event, ev_post = ''{}''\<rparr>"

definition c9_device :: event where
  "c9_device = \<lparr>ev_path = ''devices/D1'', ev_type = resource_unchanged_event, ev_post = ''{}''\<rparr>"

definition c9_registering :: world where
  "c9_registering = quiet_world\<lparr>registration_services := [(100, registry_a)],
     client := Some registry_a, responses := [Response 201]\<rparr>"

definition c7_world :: world where
  "c7_world = quiet_world\<lparr>self_id := ''N1'', registration_services := [(100, registry_a)],
     responses := [Response 400]\<rparr>"

definition c7_selected :: world where
  "c7_selected = quiet_world\<lparr>self_id := ''N1'', registration_services := [(100, registry_a)],
     grain_data := [example_event ''devices/D1'' resource_added_event],
     responses := [Response 200, Response 201]\<rparr>"

definition event_request :: "uri \<Rightarrow> event \<Rightarrow> request" where
  "event_request base e =
     (if resource_removed_event = ev_type e then delete_resource base (ev_path e)
      else post_resource base (creation_body base e))"

definition event_operation :: "event \<Rightarrow> string" where
  "event_operation e =
     (case ev_type e of
        resource_added_event \<Rightarrow> ''creation''
      | resource_unchanged_event \<Rightarrow> ''creation''
      | resource_modified_event \<Rightarrow> ''update''
      | resource_removed_event \<Rightarrow> ''deletion'')"

definition c6_world :: world where
  "c6_world = quiet_world\<lparr>held := [(''nodes/N1'', ''{}'')],
     discoveries := [[(100, registry_a)]],
     responses := [Response 201, Response 200, Response 204],
     windows := [[Resource_events [example_event ''nodes/N1'' resource_removed_event]]]\<rparr>"

definition c6_removal :: event where
  "c6_removal = example_event ''nodes/N1'' resource_removed_event"

definition c6_draining :: world where
  "c6_draining = quiet_world\<lparr>self_id := ''N1'', client := Some registry_a,
     registration_services := [(100, registry_a)], background_heartbeats := True,
     responses := [Response 204]\<rparr>"

definition c6_failing :: world where
  "c6_failing = c6_draining\<lparr>windows := [[Heartbeats_failed]]\<rparr>"

definition c4_thread :: world where
  "c4_thread = quiet_world\<lparr>held := [(''nodes/N1'', ''{}'')],
     discoveries := [[(50, registry_b), (100, registry_a)]],
     responses := [Response 201, Response 200, Response 503, Response 200, Response 201],
     windows := [[Resource_events [example_event ''devices/D1'' resource_added_event]]]\<rparr>"

definition c4_world :: world where
  "c4_world = quiet_world\<lparr>self_id := ''N1'', registration_services := [(100, registry_a)],
     grain_data := [example_event ''nodes/N1'' resource_removed_event,
                    example_event ''devices/D1'' resource_modified_event],
     responses := [Response 200, Response 404]\<rparr>"

fun published :: "action list \<Rightarrow> api_resource_versions list" where
  "published [] = []"
| "published (Update_service (Some v) # as) = v # published as"
| "published (Update_service None # as) = published as"
| "published (Request q # as) = published as"
| "published (Start_heartbeats u i # as) = published as"
| "published (Cancel_heartbeats # as) = published as"
| "published (Register_service # as) = published as"
| "published (Start_background_discovery # as) = published as"
| "published (Cancel_background_discovery # as) = published as"
| "published (Wait_for t # as) = published as"

definition publications :: "world \<Rightarrow> api_resource_versions list \<Rightarrow> world \<Rightarrow> bool" where
  "publications w vs w' =
     (published (trace w') = published (trace w) @ vs \<and> sorted_wrt versions_le vs \<and>
      (\<forall>v \<in> set vs. versions_le (ver w) v \<and> versions_le v (ver w')) \<and>
      versions_le (ver w) (ver w'))"

definition c5_world :: world where
  "c5_world = quiet_world\<lparr>held := [(''nodes/N1'', ''{}'')],
     windows := [[], [Resource_events [example_event ''nodes/N1'' resource_modified_event]], [],
                 [Background_discovery [(100, registry_a)]]]\<rparr>"

definition c5_peer_to_peer :: world where
  "c5_peer_to_peer = quiet_world\<lparr>agent_mode := mode_peer_to_peer_operation,
     windows := [[], [Resource_events [example_event ''nodes/N1'' resource_added_event,
                                      example_event ''devices/D1'' resource_added_event]], [],
                 [Resource_events [example_event ''senders/S1'' resource_added_event]]]\<rparr>"

section \<open>Frame lemmas\<close>

subsection \<open>What the environment leaves alone\<close>

lemma fold_env_frame:
  assumes "\<And>a w. f (apply_env_action a w) = f w"
  shows "f (fold apply_env_action as w) = f w"
  using assms by (induction as arbitrary: w) simp_all

lemma env_action_frame:
  "trace (apply_env_action a w) = trace w"
  "responses (apply_env_action a w) = responses w"
  "error_log (apply_env_action a w) = error_log w"
  "self_id (apply_env_action a w) = self_id w"
  "client (apply_env_action a w) = client w"
  "events (apply_env_action a w) = events w"
  "windows (apply_env_action a w) = windows w"
  "ver (apply_env_action a w) = ver w"
  "model_settings (apply_env_action a w) = model_settings w"
  "most_recent_update (apply_env_action a w) = most_recent_update w"
  "node_registered (apply_env_action a w) = node_registered w"
  "grain_present (apply_env_action a w) = grain_present w"
  "agent_mode (apply_env_action a w) = agent_mode w"
  "discovery_backoff (apply_env_action a w) = discovery_backoff w"
  "discoveries (apply_env_action a w) = discoveries w"
  by (cases a; simp add: insert_resource_events_def Let_def)+

lemma unlocked_frame:
  "trace (unlocked w) = trace w"
  "responses (unlocked w) = responses w"
  "error_log (unlocked w) = error_log w"
  "self_id (unlocked w) = self_id w"
  "client (unlocked w) = client w"
  "events (unlocked w) = events w"
  "ver (unlocked w) = ver w"
  "model_settings (unlocked w) = model_settings w"
  "most_recent_update (unlocked w) = most_recent_update w"
  "node_registered (unlocked w) = node_registered w"
  "grain_present (unlocked w) = grain_present w"
  "agent_mode (unlocked w) = agent_mode w"
  "discovery_backoff (unlocked w) = discovery_backoff w"
  "discoveries (unlocked w) = discoveries w"
  by (simp_all add: unlocked_def fold_env_frame env_action_frame split: list.splits)

lemma unlocked_windows: "windows (unlocked w) = tl (windows w)"
  by (simp add: unlocked_def fold_env_frame env_action_frame split: list.splits)

subsection \<open>What the registration client changes\<close>

lemma io_only_refl: "io_only w w"
  by (simp add: io_only_def)

lemma io_only_trans:
  assumes "io_only a b" and "io_only b c"
  shows "io_only a c"
proof -
  have "c\<lparr>trace := trace a, error_log := error_log a, responses := responses a\<rparr> =
        (c\<lparr>trace := trace b, error_log := error_log b, responses := responses b\<rparr>)
          \<lparr>trace := trace a, error_log := error_log a, responses := responses a\<rparr>"
    by simp
  also have "\<dots> = a"
    using assms by (simp only: io_only_def)
  finally show ?thesis by (simp add: io_only_def)
qed

lemma io_only_update:
  "io_only a b \<Longrightarrow> io_only a (b\<lparr>trace := t\<rparr>)"
  "io_only a b \<Longrightarrow> io_only a (b\<lparr>error_log := l\<rparr>)"
  "io_only a b \<Longrightarrow> io_only a (b\<lparr>responses := rs\<rparr>)"
  by (simp_all add: io_only_def)

lemma io_only_frame:
  assumes "io_only w w'"
  shows "shutdown w' = shutdown w" "model_settings w' = model_settings w" "held w' = held w"
    "grain_present w' = grain_present w" "grain_data w' = grain_data w"
    "grain_updated w' = grain_updated w" "resources_updated w' = resources_updated w"
    "agent_mode w' = agent_mode w" "discovery_backoff w' = discovery_backoff w"
    "registration_services w' = registration_services w" "self_id w' = self_id w"
    "client w' = client w" "events w' = events w"
    "registration_service_error w' = registration_service_error w"
    "node_registered w' = node_registered w" "node_unregistered w' = node_unregistered w"
    "registration_services_discovered w' = registration_services_discovered w"
    "most_recent_update w' = most_recent_update w"
    "background_heartbeats w' = background_heartbeats w"
    "background_discovery w' = background_discovery w" "ver w' = ver w"
    "windows w' = windows w" "discoveries w' = discoveries w"
proof -
  let ?u = "w'\<lparr>trace := trace w, error_log := error_log w, responses := responses w\<rparr>"
  have eq: "?u = w" using assms by (simp add: io_only_def)
  show "shutdown w' = shutdown w" using arg_cong [OF eq, of shutdown] by simp
  show "model_settings w' = model_settings w" using arg_cong [OF eq, of model_settings] by simp
  show "held w' = held w" using arg_cong [OF eq, of held] by simp
  show "grain_present w' = grain_present w" using arg_cong [OF eq, of grain_present] by simp
  show "grain_data w' = grain_data w" using arg_cong [OF eq, of grain_data] by simp
  show "grain_updated w' = grain_updated w" using arg_cong [OF eq, of grain_updated] by simp
  show "resources_updated w' = resources_updated w" using arg_cong [OF eq, of resources_updated] by simp
  show "agent_mode w' = agent_mode w" using arg_cong [OF eq, of agent_mode] by simp
  show "discovery_backoff w' = discovery_backoff w" using arg_cong [OF eq, of discovery_backoff] by simp
  show "registration_services w' = registration_services w" using arg_cong [OF eq, of registration_services] by simp
  show "self_id w' = self_id w" using arg_cong [OF eq, of self_id] by simp
  show "client w' = client w" using arg_cong [OF eq, of client] by simp
  show "events w' = events w" using arg_cong [OF eq, of events] by simp
  show "registration_service_error w' = registration_service_error w" using arg_cong [OF eq, of registration_service_error] by simp
  show "node_registered w' = node_registered w" using arg_cong [OF eq, of node_registered] by simp
  show "node_unregistered w' = node_unregistered w" using arg_cong [OF eq, of node_unregistered] by simp
  show "registration_services_discovered w' = registration_services_discovered w" using arg_cong [OF eq, of registration_services_discovered] by simp
  show "most_recent_update w' = most_recent_update w" using arg_cong [OF eq, of most_recent_update] by simp
  show "background_heartbeats w' = background_heartbeats w" using arg_cong [OF eq, of background_heartbeats] by simp
  show "background_discovery w' = background_discovery w" using arg_cong [OF eq, of background_discovery] by simp
  show "ver w' = ver w" using arg_cong [OF eq, of ver] by simp
  show "windows w' = windows w" using arg_cong [OF eq, of windows] by simp
  show "discoveries w' = discoveries w" using arg_cong [OF eq, of discoveries] by simp
qed

lemma io_only_client_request: "io_only w (snd (client_request q w))"
  by (simp add: io_only_def client_request_def split: list.splits)

lemma io_only_handle: "io_only w (snd (handle_registration_error_conditions s op w))"
  by (simp add: io_only_def handle_registration_error_conditions_def)

lemma io_only_creation_first_response:
  "io_only w (snd (creation_first_response base p body s w))"
  by (auto simp: io_only_def creation_first_response_def client_request_def
      handle_registration_error_conditions_def split: list.splits http_result.splits prod.splits sum.splits)

lemma io_only_creation_final_response: "io_only w (snd (creation_final_response r w))"
  by (auto simp: io_only_def creation_final_response_def
      handle_registration_error_conditions_def split: http_result.splits)

lemma io_only_request_registration: "io_only w (snd (request_registration base ev w))"
  by (auto simp: io_only_def request_registration_def Let_def creation_first_response_def
      creation_final_response_def client_request_def handle_registration_error_conditions_def
      split: list.splits http_result.splits prod.splits sum.splits)

lemma io_only_update_node_health: "io_only w (snd (update_node_health base i w))"
  by (auto simp: io_only_def update_node_health_def client_request_def
      handle_registration_error_conditions_def split: list.splits http_result.splits prod.splits sum.splits)

lemma untouchedD:
  assumes "untouched f"
  shows "f (w\<lparr>shutdown := x1\<rparr>) = f w" "f (w\<lparr>held := x2\<rparr>) = f w"
    "f (w\<lparr>grain_data := x3\<rparr>) = f w" "f (w\<lparr>grain_updated := x4\<rparr>) = f w"
    "f (w\<lparr>registration_services := x5\<rparr>) = f w" "f (w\<lparr>client := x6\<rparr>) = f w"
    "f (w\<lparr>events := x7\<rparr>) = f w" "f (w\<lparr>registration_service_error := x8\<rparr>) = f w"
    "f (w\<lparr>node_registered := x9\<rparr>) = f w" "f (w\<lparr>node_unregistered := x10\<rparr>) = f w"
    "f (w\<lparr>registration_services_discovered := x11\<rparr>) = f w"
    "f (w\<lparr>most_recent_update := x12\<rparr>) = f w" "f (w\<lparr>background_heartbeats := x13\<rparr>) = f w"
    "f (w\<lparr>background_discovery := x14\<rparr>) = f w" "f (w\<lparr>ver := x15\<rparr>) = f w"
    "f (w\<lparr>trace := x16\<rparr>) = f w" "f (w\<lparr>error_log := x17\<rparr>) = f w"
    "f (w\<lparr>responses := x18\<rparr>) = f w" "f (w\<lparr>windows := x19\<rparr>) = f w"
  using assms unfolding untouched_def by blast+

lemma untouched_fields:
  "untouched agent_mode" "untouched discovery_backoff" "untouched model_settings"
  "untouched grain_present" "untouched self_id" "untouched discoveries"
  by (simp_all add: untouched_def)

lemma untouched_io_only:
  assumes "untouched f" and "io_only w w'"
  shows "f w' = f w"
proof -
  have "f w = f (w'\<lparr>trace := trace w, error_log := error_log w, responses := responses w\<rparr>)"
    using assms(2) by (simp add: io_only_def)
  then show ?thesis by (simp add: untouchedD [OF assms(1)])
qed

lemma untouched_env_action: "untouched f \<Longrightarrow> f (apply_env_action a w) = f w"
  by (cases a) (simp_all add: insert_resource_events_def Let_def untouchedD)

lemma untouched_fold_env: "untouched f \<Longrightarrow> f (fold apply_env_action as w) = f w"
  by (induction as arbitrary: w) (simp_all add: untouched_env_action)

lemma untouched_unlocked: "untouched f \<Longrightarrow> f (unlocked w) = f w"
  by (simp add: unlocked_def untouched_fold_env untouchedD split: list.splits)

lemma untouched_wait_windows: "untouched f \<Longrightarrow> f (waited (wait_windows p ws w)) = f w"
  by (induction ws arbitrary: w) (simp_all add: untouched_fold_env untouchedD)

lemma untouched_condition_wait:
  "untouched f \<Longrightarrow> condition_wait p w = Woken w' \<or> condition_wait p w = Waits_forever w' \<Longrightarrow> f w' = f w"
  using untouched_wait_windows [of f p "windows w" w] by (auto simp: condition_wait_def)

lemma untouched_guard:
  "untouched f \<Longrightarrow> f (node_behaviour_grain_guard w) = f w"
  "untouched f \<Longrightarrow> f (node_behaviour_grain_guard_dtor w) = f w"
  by (simp_all add: node_behaviour_grain_guard_def node_behaviour_grain_guard_dtor_def untouchedD)

lemma untouched_request_registration:
  "untouched f \<Longrightarrow> f (snd (request_registration base ev w)) = f w"
  by (rule untouched_io_only [OF _ io_only_request_registration])

lemma untouched_update_node_health:
  "untouched f \<Longrightarrow> f (snd (update_node_health base i w)) = f w"
  by (rule untouched_io_only [OF _ io_only_update_node_health])

lemma untouched_registered_operation_drain:
  "untouched f \<Longrightarrow> f (registered_operation_drain base es w) = f w"
proof (induction es arbitrary: w)
  case Nil
  then show ?case by (simp add: untouchedD)
next
  case (Cons e es)
  obtain r w1 where r: "request_registration base e (unlocked w) = (r, w1)"
    by (cases "request_registration base e (unlocked w)")
  have w1: "f w1 = f w"
    using untouched_request_registration [OF Cons.prems, of base e "unlocked w"] r
    by (simp add: untouched_unlocked [OF Cons.prems])
  show ?case
    using Cons.prems Cons.IH r w1
    by (cases r) (simp_all add: Let_def untouchedD)
qed

lemma untouched_registered_operation_attempt:
  assumes "untouched f"
  shows "f (registered_operation_attempt base w) = f w"
proof -
  obtain r w1 where r: "update_node_health base (self_id w) (w\<lparr>client := Some base\<rparr>) = (r, w1)"
    by (cases "update_node_health base (self_id w) (w\<lparr>client := Some base\<rparr>)")
  have "f w1 = f w"
    using untouched_update_node_health [OF assms, of base "self_id w" "w\<lparr>client := Some base\<rparr>"] r
    by (simp add: untouchedD [OF assms])
  then have hb: "f (first_heartbeat base w) = f w"
    using r by (cases r) (simp_all add: first_heartbeat_def untouchedD [OF assms])
  have cycle: "\<And>w. f (registered_operation_drain_cycle base w) = f w"
    by (simp add: registered_operation_drain_cycle_def Let_def untouched_guard [OF assms]
        untouched_registered_operation_drain [OF assms] untouchedD [OF assms])
  show ?thesis
    by (simp add: registered_operation_attempt_def Let_def hb cycle start_background_heartbeats_def
        untouchedD [OF assms])
qed

lemma untouched_registered_operation_body:
  assumes "untouched f"
    and "registered_operation_body w = Continue w' \<or> registered_operation_body w = Break w' \<or>
         registered_operation_body w = Waits w'"
  shows "f w' = f w"
proof (cases "condition_wait registered_operation_wake w")
  case (Waits_forever w1)
  with assms(2) have "w' = w1" by (simp add: registered_operation_body_def)
  with untouched_condition_wait [OF assms(1), of registered_operation_wake w w1] Waits_forever
  show ?thesis by simp
next
  case (Woken w1)
  with untouched_condition_wait [OF assms(1), of registered_operation_wake w w1]
  have w1: "f w1 = f w" by simp
  have pop: "\<And>w2. pop_and_cancel w1 = Some w2 \<Longrightarrow> f w2 = f w1"
    by (auto simp: pop_and_cancel_def pop_services_def cancel_background_heartbeats_def
        untouched_unlocked [OF assms(1)] untouchedD [OF assms(1)] split: option.splits)
  show ?thesis
    using assms(2) Woken w1 pop
    by (auto simp: registered_operation_body_def untouched_registered_operation_attempt [OF assms(1)]
        split: option.splits if_splits)
qed

lemma untouched_registered_operation_loop:
  assumes "untouched f"
  shows "registered_operation_loop n w = Returned w' \<or> registered_operation_loop n w = Waiting w' \<or>
         registered_operation_loop n w = Out_of_fuel w' \<Longrightarrow> f w' = f w"
proof (induction n arbitrary: w)
  case 0
  then show ?case by simp
next
  case (Suc n)
  show ?case
  proof (cases "registered_operation_body w")
    case (Continue w1)
    with Suc.prems have "registered_operation_loop n w1 = Returned w' \<or>
        registered_operation_loop n w1 = Waiting w' \<or> registered_operation_loop n w1 = Out_of_fuel w'"
      by simp
    from Suc.IH [OF this] untouched_registered_operation_body [OF assms, of w w1] Continue
    show ?thesis by simp
  next
    case (Break w1)
    with Suc.prems have "w' = cancel_background_heartbeats (unlocked w1)" by simp
    with untouched_registered_operation_body [OF assms, of w w1] Break show ?thesis
      by (simp add: cancel_background_heartbeats_def untouched_unlocked [OF assms] untouchedD [OF assms])
  next
    case (Waits w1)
    with Suc.prems untouched_registered_operation_body [OF assms, of w w1] show ?thesis by simp
  next
    case (Fault x)
    with Suc.prems show ?thesis by simp
  qed
qed

lemma untouched_initial_registration_drain:
  assumes "untouched f" and "\<And>w x. f (w\<lparr>self_id := x\<rparr>) = f w"
  shows "f (initial_registration_drain base es w) = f w"
proof (induction es arbitrary: w)
  case Nil
  then show ?case by (simp add: untouchedD [OF assms(1)])
next
  case (Cons e es)
  let ?u = "unlocked (w\<lparr>self_id := fst (get_node_behaviour_event_id_type e)\<rparr>)"
  obtain r w1 where r: "request_registration base e ?u = (r, w1)"
    by (cases "request_registration base e ?u")
  have w1: "f w1 = f w"
    using untouched_request_registration [OF assms(1), of base e ?u] r
    by (simp add: untouched_unlocked [OF assms(1)] assms(2))
  show ?case
    using Cons.IH r w1
    by (cases r) (simp_all add: Let_def untouchedD [OF assms(1)])
qed

lemma untouched_initial_registration_attempt:
  assumes "untouched f" and "\<And>w x. f (w\<lparr>self_id := x\<rparr>) = f w"
  shows "f (initial_registration_attempt base w) = f w"
  by (simp add: initial_registration_attempt_def Let_def untouched_guard [OF assms(1)]
      untouched_initial_registration_drain [OF assms] untouchedD [OF assms(1)])

lemma untouched_initial_registration_body:
  assumes "untouched f" and "\<And>w x. f (w\<lparr>self_id := x\<rparr>) = f w"
    and "initial_registration_body w = Continue w' \<or> initial_registration_body w = Break w' \<or>
         initial_registration_body w = Waits w'"
  shows "f w' = f w"
proof (cases "condition_wait initial_registration_wake w")
  case (Waits_forever w1)
  with assms(3) have "w' = w1" by (simp add: initial_registration_body_def)
  with untouched_condition_wait [OF assms(1), of initial_registration_wake w w1] Waits_forever
  show ?thesis by simp
next
  case (Woken w1)
  with untouched_condition_wait [OF assms(1), of initial_registration_wake w w1]
  have w1: "f w1 = f w" by simp
  have pop: "\<And>w2. pop_services w1 = Some w2 \<Longrightarrow> f w2 = f w1"
    by (auto simp: pop_services_def untouchedD [OF assms(1)] split: option.splits)
  show ?thesis
    using assms(3) Woken w1 pop
    by (auto simp: initial_registration_body_def untouched_initial_registration_attempt [OF assms(1,2)]
        split: option.splits if_splits)
qed

lemma untouched_initial_registration_loop:
  assumes "untouched f" and "\<And>w x. f (w\<lparr>self_id := x\<rparr>) = f w"
  shows "initial_registration_loop n w = Returned w' \<or> initial_registration_loop n w = Waiting w' \<or>
         initial_registration_loop n w = Out_of_fuel w' \<Longrightarrow> f w' = f w"
proof (induction n arbitrary: w)
  case 0
  then show ?case by simp
next
  case (Suc n)
  show ?case
  proof (cases "initial_registration_body w")
    case (Continue w1)
    with Suc.prems have "initial_registration_loop n w1 = Returned w' \<or>
        initial_registration_loop n w1 = Waiting w' \<or> initial_registration_loop n w1 = Out_of_fuel w'"
      by simp
    from Suc.IH [OF this] untouched_initial_registration_body [OF assms, of w w1] Continue
    show ?thesis by simp
  next
    case (Break w1)
    with Suc.prems untouched_initial_registration_body [OF assms, of w w1] show ?thesis by simp
  next
    case (Waits w1)
    with Suc.prems untouched_initial_registration_body [OF assms, of w w1] show ?thesis by simp
  next
    case (Fault x)
    with Suc.prems show ?thesis by simp
  qed
qed

lemma untouched_initial_registration:
  assumes "untouched f" and "\<And>w x. f (w\<lparr>self_id := x\<rparr>) = f w"
    and "initial_registration n w = Returned w' \<or> initial_registration n w = Waiting w' \<or>
         initial_registration n w = Out_of_fuel w'"
  shows "f w' = f w"
proof (cases "grain_present w")
  case False
  with assms(3) show ?thesis by (simp add: initial_registration_def)
next
  case True
  with assms(3) untouched_initial_registration_loop [OF assms(1,2), of n "initial_registration_enter w" w']
  show ?thesis
    by (simp add: initial_registration_def initial_registration_enter_def untouchedD [OF assms(1)])
qed

lemma untouched_registered_operation:
  assumes "untouched f"
    and "registered_operation n w = Returned w' \<or> registered_operation n w = Waiting w' \<or>
         registered_operation n w = Out_of_fuel w'"
  shows "f w' = f w"
proof (cases "grain_present w")
  case False
  with assms(2) show ?thesis by (simp add: registered_operation_def)
next
  case True
  with assms(2) untouched_registered_operation_loop [OF assms(1), of n "registered_operation_enter w" w']
  show ?thesis
    by (simp add: registered_operation_def registered_operation_enter_def untouchedD [OF assms(1)])
qed

lemma untouched_peer_to_peer_body:
  assumes "untouched f"
    and "peer_to_peer_body w = Continue w' \<or> peer_to_peer_body w = Break w' \<or>
         peer_to_peer_body w = Waits w'"
  shows "f w' = f w"
proof (cases "condition_wait peer_to_peer_wake w")
  case (Waits_forever w1)
  with assms(2) have "w' = w1" by (simp add: peer_to_peer_body_def)
  with untouched_condition_wait [OF assms(1), of peer_to_peer_wake w w1] Waits_forever
  show ?thesis by simp
next
  case (Woken w1)
  with untouched_condition_wait [OF assms(1), of peer_to_peer_wake w w1]
  have w1: "f w1 = f w" by simp
  show ?thesis
    using assms(2) Woken w1
    by (auto simp: peer_to_peer_body_def Let_def update_node_service_def
        untouched_guard [OF assms(1)] untouched_unlocked [OF assms(1)] untouchedD [OF assms(1)]
        split: if_splits)
qed

lemma untouched_peer_to_peer_loop:
  assumes "untouched f"
  shows "peer_to_peer_loop n w = Returned w' \<or> peer_to_peer_loop n w = Waiting w' \<or>
         peer_to_peer_loop n w = Out_of_fuel w' \<Longrightarrow> f w' = f w"
proof (induction n arbitrary: w)
  case 0
  then show ?case by simp
next
  case (Suc n)
  show ?case
  proof (cases "peer_to_peer_body w")
    case (Continue w1)
    with Suc.prems have "peer_to_peer_loop n w1 = Returned w' \<or>
        peer_to_peer_loop n w1 = Waiting w' \<or> peer_to_peer_loop n w1 = Out_of_fuel w'"
      by simp
    from Suc.IH [OF this] untouched_peer_to_peer_body [OF assms, of w w1] Continue
    show ?thesis by simp
  next
    case (Break w1)
    with Suc.prems have "w' = peer_to_peer_leave w1" by simp
    with untouched_peer_to_peer_body [OF assms, of w w1] Break show ?thesis
      by (simp add: peer_to_peer_leave_def Let_def update_node_service_def
          untouched_unlocked [OF assms] untouchedD [OF assms])
  next
    case (Waits w1)
    with Suc.prems untouched_peer_to_peer_body [OF assms, of w w1] show ?thesis by simp
  next
    case (Fault x)
    with Suc.prems show ?thesis by simp
  qed
qed

lemma untouched_peer_to_peer_operation:
  assumes "untouched f"
    and "peer_to_peer_operation n w = Returned w' \<or> peer_to_peer_operation n w = Waiting w' \<or>
         peer_to_peer_operation n w = Out_of_fuel w'"
  shows "f w' = f w"
proof (cases "grain_present w")
  case False
  with assms(2) show ?thesis by (simp add: peer_to_peer_operation_def)
next
  case True
  with assms(2) untouched_peer_to_peer_loop [OF assms(1), of n "peer_to_peer_enter w" w']
  show ?thesis
    by (simp add: peer_to_peer_operation_def peer_to_peer_enter_def Let_def update_node_service_def
        untouchedD [OF assms(1)])
qed

subsection \<open>The registry list while no background discovery runs\<close>

lemma services_view_updates:
  "services_view (w\<lparr>shutdown := x1\<rparr>) = services_view w"
  "services_view (w\<lparr>held := x2\<rparr>) = services_view w"
  "services_view (w\<lparr>grain_data := x3\<rparr>) = services_view w"
  "services_view (w\<lparr>grain_updated := x4\<rparr>) = services_view w"
  "services_view (w\<lparr>client := x6\<rparr>) = services_view w"
  "services_view (w\<lparr>events := x7\<rparr>) = services_view w"
  "services_view (w\<lparr>registration_service_error := x8\<rparr>) = services_view w"
  "services_view (w\<lparr>node_registered := x9\<rparr>) = services_view w"
  "services_view (w\<lparr>node_unregistered := x10\<rparr>) = services_view w"
  "services_view (w\<lparr>most_recent_update := x12\<rparr>) = services_view w"
  "services_view (w\<lparr>background_heartbeats := x13\<rparr>) = services_view w"
  "services_view (w\<lparr>ver := x15\<rparr>) = services_view w"
  "services_view (w\<lparr>trace := x16\<rparr>) = services_view w"
  "services_view (w\<lparr>error_log := x17\<rparr>) = services_view w"
  "services_view (w\<lparr>responses := x18\<rparr>) = services_view w"
  "services_view (w\<lparr>windows := x19\<rparr>) = services_view w"
  "services_view (w\<lparr>self_id := x20\<rparr>) = services_view w"
  by (simp_all add: services_view_def)

lemma services_view_quiet:
  "services_view w' = services_view w \<Longrightarrow> background_discovery w' = background_discovery w"
  "services_view w' = services_view w \<Longrightarrow> registration_services w' = registration_services w"
  by (simp_all add: services_view_def)

lemma services_env_action:
  "\<not> background_discovery w \<Longrightarrow> services_view (apply_env_action a w) = services_view w"
  by (cases a) (simp_all add: insert_resource_events_def services_view_def)

lemma services_fold_env:
  "\<not> background_discovery w \<Longrightarrow> services_view (fold apply_env_action as w) = services_view w"
proof (induction as arbitrary: w)
  case Nil
  show ?case by simp
next
  case (Cons a as)
  have 1: "services_view (apply_env_action a w) = services_view w"
    using Cons.prems by (rule services_env_action)
  then have "\<not> background_discovery (apply_env_action a w)"
    using Cons.prems by (simp add: services_view_def)
  from Cons.IH [OF this] 1 show ?case by simp
qed

lemma services_unlocked:
  "\<not> background_discovery w \<Longrightarrow> services_view (unlocked w) = services_view w"
proof (cases "windows w")
  case Nil
  then show ?thesis by (simp add: unlocked_def)
next
  case (Cons a rest)
  assume "\<not> background_discovery w"
  then have "\<not> background_discovery (w\<lparr>windows := rest\<rparr>)" by simp
  from services_fold_env [OF this, of a] Cons show ?thesis
    by (simp add: unlocked_def services_view_updates)
qed

lemma services_wait_windows:
  "\<not> background_discovery w \<Longrightarrow> services_view (waited (wait_windows p ws w)) = services_view w"
proof (induction ws arbitrary: w)
  case Nil
  show ?case by (simp add: services_view_updates)
next
  case (Cons a ws)
  have 1: "services_view (fold apply_env_action a w) = services_view w"
    using Cons.prems by (rule services_fold_env)
  then have "\<not> background_discovery (fold apply_env_action a w)"
    using Cons.prems by (simp add: services_view_def)
  from Cons.IH [OF this] 1 show ?case by (simp add: services_view_updates)
qed

lemma services_condition_wait:
  "\<not> background_discovery w \<Longrightarrow>
   condition_wait p w = Woken w' \<or> condition_wait p w = Waits_forever w' \<Longrightarrow>
   services_view w' = services_view w"
  using services_wait_windows [of w p "windows w"] by (auto simp: condition_wait_def)

lemma services_io_only: "io_only w w' \<Longrightarrow> services_view w' = services_view w"
  by (simp add: services_view_def io_only_frame)

lemma services_guard:
  "services_view (node_behaviour_grain_guard w) = services_view w"
  "services_view (node_behaviour_grain_guard_dtor w) = services_view w"
  by (simp_all add: node_behaviour_grain_guard_def node_behaviour_grain_guard_dtor_def
      services_view_def)

lemma services_registered_operation_drain:
  "\<not> background_discovery w \<Longrightarrow>
   services_view (registered_operation_drain base es w) = services_view w"
proof (induction es arbitrary: w)
  case Nil
  show ?case by (simp add: services_view_updates)
next
  case (Cons e es)
  obtain r w1 where r: "request_registration base e (unlocked w) = (r, w1)"
    by (cases "request_registration base e (unlocked w)")
  have w1: "services_view w1 = services_view w"
    using services_io_only [OF io_only_request_registration [of "unlocked w" base e]] r
      services_unlocked [OF Cons.prems] by simp
  then have q: "\<not> background_discovery w1"
    using Cons.prems by (simp add: services_view_def)
  show ?case
  proof (cases r)
    case (Inl x)
    with r w1 show ?thesis by (simp add: Let_def services_view_updates)
  next
    case (Inr u)
    let ?w2 = "if self_id w1 = fst (get_node_behaviour_event_id_type e) \<and>
                 resource_removed_event = get_resource_event_type e
               then w1\<lparr>node_unregistered := True\<rparr> else w1"
    have 2: "services_view ?w2 = services_view w" "\<not> background_discovery ?w2"
      using w1 q by (simp_all add: services_view_updates)
    from Cons.IH [OF 2(2)] 2(1) Inr r show ?thesis
      by (simp add: Let_def services_view_updates)
  qed
qed

lemma services_first_heartbeat:
  "services_view (first_heartbeat base w) = services_view w"
proof -
  obtain r w1 where r: "update_node_health base (self_id w) (w\<lparr>client := Some base\<rparr>) = (r, w1)"
    by (cases "update_node_health base (self_id w) (w\<lparr>client := Some base\<rparr>)")
  have "services_view w1 = services_view w"
    using services_io_only [OF io_only_update_node_health [of "w\<lparr>client := Some base\<rparr>" base "self_id w"]] r
    by (simp add: services_view_updates)
  then show ?thesis
    using r by (cases r) (simp_all add: first_heartbeat_def services_view_updates)
qed

lemma services_registered_operation_drain_cycle:
  assumes "\<not> background_discovery w"
  shows "services_view (registered_operation_drain_cycle base w) = services_view w"
proof -
  let ?g = "node_behaviour_grain_guard (w\<lparr>events := []\<rparr>)"
  let ?w2 = "?g\<lparr>most_recent_update := grain_updated ?g\<rparr>"
  have 2: "services_view ?w2 = services_view w"
    by (simp add: services_view_updates services_guard)
  then have "\<not> background_discovery ?w2"
    using assms by (simp add: services_view_def)
  from services_registered_operation_drain [OF this, of base "events ?w2"] 2
  show ?thesis
    by (simp add: registered_operation_drain_cycle_def Let_def services_guard services_view_updates)
qed

lemma services_registered_operation_attempt:
  assumes "\<not> background_discovery w"
  shows "services_view (registered_operation_attempt base w) = services_view w"
proof -
  let ?s = "start_background_heartbeats base (first_heartbeat base w)"
  have s: "services_view ?s = services_view w"
    by (simp add: start_background_heartbeats_def services_view_updates services_first_heartbeat)
  then have "\<not> background_discovery ?s"
    using assms by (simp add: services_view_def)
  from services_registered_operation_drain_cycle [OF this, of base] s
    services_registered_operation_drain_cycle [OF assms, of base]
  show ?thesis
    by (simp add: registered_operation_attempt_def Let_def services_first_heartbeat)
qed

lemma services_initial_registration_drain:
  "\<not> background_discovery w \<Longrightarrow>
   services_view (initial_registration_drain base es w) = services_view w"
proof (induction es arbitrary: w)
  case Nil
  show ?case by (simp add: services_view_updates)
next
  case (Cons e es)
  let ?u = "unlocked (w\<lparr>self_id := fst (get_node_behaviour_event_id_type e)\<rparr>)"
  obtain r w1 where r: "request_registration base e ?u = (r, w1)"
    by (cases "request_registration base e ?u")
  have "\<not> background_discovery (w\<lparr>self_id := fst (get_node_behaviour_event_id_type e)\<rparr>)"
    using Cons.prems by simp
  from services_unlocked [OF this]
  have w1: "services_view w1 = services_view w"
    using services_io_only [OF io_only_request_registration [of ?u base e]] r
    by (simp add: services_view_updates)
  then have q: "\<not> background_discovery (w1\<lparr>node_registered := True\<rparr>)"
    using Cons.prems by (simp add: services_view_def)
  from Cons.IH [OF q] Cons.IH [OF Cons.prems] w1 r show ?case
    by (cases r) (simp_all add: Let_def services_view_updates)
qed

lemma services_initial_registration_attempt:
  assumes "\<not> background_discovery w"
  shows "services_view (initial_registration_attempt base w) = services_view w"
proof -
  let ?w2 = "node_behaviour_grain_guard
      ((if client w \<noteq> Some base then w\<lparr>client := Some base\<rparr> else w)\<lparr>events := []\<rparr>)"
  have 2: "services_view ?w2 = services_view w"
    by (simp add: services_view_updates services_guard)
  then have "\<not> background_discovery ?w2"
    using assms by (simp add: services_view_def)
  from services_initial_registration_drain [OF this, of base "events ?w2"] 2
  show ?thesis
    by (simp add: initial_registration_attempt_def Let_def services_guard services_view_updates)
qed

subsection \<open>What a wait leaves alone, and what only grows\<close>

lemma wait_windows_frame:
  "trace (waited (wait_windows p ws w)) = trace w"
  "ver (waited (wait_windows p ws w)) = ver w"
  "model_settings (waited (wait_windows p ws w)) = model_settings w"
  by (induction ws arbitrary: w) (simp_all add: fold_env_frame env_action_frame)

lemma condition_wait_frame:
  assumes "condition_wait p w = Woken w' \<or> condition_wait p w = Waits_forever w'"
  shows "trace w' = trace w" "ver w' = ver w" "model_settings w' = model_settings w"
  using assms wait_windows_frame [of p "windows w" w] by (auto simp: condition_wait_def)

lemma node_unregistered_env_action:
  "node_unregistered w \<Longrightarrow> node_unregistered (apply_env_action a w)"
  by (cases a) (simp_all add: insert_resource_events_def Let_def)

lemma node_unregistered_fold_env:
  "node_unregistered w \<Longrightarrow> node_unregistered (fold apply_env_action as w)"
  by (induction as arbitrary: w) (simp_all add: node_unregistered_env_action)

lemma node_unregistered_unlocked:
  "node_unregistered w \<Longrightarrow> node_unregistered (unlocked w)"
  by (simp add: unlocked_def node_unregistered_fold_env split: list.splits)

lemma grain_updated_env_action: "grain_updated w \<le> grain_updated (apply_env_action a w)"
  by (cases a) (simp_all add: insert_resource_events_def strictly_increasing_update_def Let_def)

lemma grain_updated_fold_env: "grain_updated w \<le> grain_updated (fold apply_env_action as w)"
proof (induction as arbitrary: w)
  case Nil
  show ?case by simp
next
  case (Cons a as)
  from grain_updated_env_action [of w a] Cons.IH [of "apply_env_action a w"]
  show ?case by simp
qed

lemma grain_updated_unlocked: "grain_updated w \<le> grain_updated (unlocked w)"
proof (cases "windows w")
  case Nil
  then show ?thesis by (simp add: unlocked_def)
next
  case (Cons a rest)
  with grain_updated_fold_env [of "w\<lparr>windows := rest\<rparr>" a] show ?thesis
    by (simp add: unlocked_def)
qed

section \<open>What the operations do\<close>

lemma initial_registration_drain_stopped:
  "shutdown w \<or> registration_service_error w \<or> node_registered w \<Longrightarrow>
   initial_registration_drain base es w = w\<lparr>events := es\<rparr>"
  by (cases es) auto

lemma registered_operation_drain_stopped:
  "shutdown w \<or> registration_service_error w \<or> node_unregistered w \<Longrightarrow>
   registered_operation_drain base es w = w\<lparr>events := es\<rparr>"
  by (cases es) auto

lemma creation_starts_with_post:
  assumes "resource_added_event = get_resource_event_type e \<or>
           resource_unchanged_event = get_resource_event_type e"
  shows "\<exists>rest. trace (snd (request_registration base e w)) =
           trace w @ Request (post_resource base (creation_body base e)) # rest"
  using assms
  by (auto simp: request_registration_def Let_def creation_first_response_def
      creation_final_response_def client_request_def handle_registration_error_conditions_def
      creation_body_def
      split: list.splits http_result.splits prod.splits sum.splits)

lemma self_id_switch:
  assumes "agent_mode w \<noteq> mode_initial_registration"
    and "outcome_world (node_behaviour_switch n w) = Some w'"
  shows "self_id w' = self_id w"
proof (cases "agent_mode w")
  case mode_initial_discovery
  have "self_id (discover w0) = self_id w0" for w0
    by (simp add: discover_def discover_registration_services_def resolve_service_def
        split: list.splits prod.splits)
  with assms(2) mode_initial_discovery show ?thesis
    by (auto simp: node_behaviour_switch_def Let_def unlocked_frame split: if_splits)
next
  case mode_initial_registration
  with assms(1) show ?thesis by simp
next
  case mode_registered_operation
  with assms(2) obtain w1 where
    "registered_operation n w = Returned w1 \<or> registered_operation n w = Waiting w1 \<or>
     registered_operation n w = Out_of_fuel w1" and "self_id w' = self_id w1"
    by (cases "registered_operation n w")
      (auto simp: node_behaviour_switch_def after_operation_def after_registered_operation_def)
  with untouched_registered_operation [OF untouched_fields(5), of n w w1] show ?thesis by simp
next
  case mode_rediscovery
  have "self_id (discover w0) = self_id w0" for w0
    by (simp add: discover_def discover_registration_services_def resolve_service_def
        split: list.splits prod.splits)
  with assms(2) mode_rediscovery show ?thesis
    by (auto simp: node_behaviour_switch_def Let_def split: if_splits)
next
  case mode_peer_to_peer_operation
  with assms(2) obtain w1 where
    "peer_to_peer_operation n w = Returned w1 \<or> peer_to_peer_operation n w = Waiting w1 \<or>
     peer_to_peer_operation n w = Out_of_fuel w1" and "self_id w' = self_id w1"
    by (cases "peer_to_peer_operation n w")
      (auto simp: node_behaviour_switch_def after_operation_def after_peer_to_peer_operation_def)
  with untouched_peer_to_peer_operation [OF untouched_fields(5), of n w w1] show ?thesis by simp
qed

lemma request_registration_trace:
  "\<exists>new. trace (snd (request_registration base e w)) = trace w @ new \<and> list_all resource_request new"
  by (auto simp: request_registration_def Let_def creation_first_response_def
      creation_final_response_def client_request_def handle_registration_error_conditions_def
      post_resource_def delete_resource_def
      split: list.splits http_result.splits prod.splits sum.splits)

lemma registered_operation_drain_trace:
  "\<exists>new. trace (registered_operation_drain base es w) = trace w @ new \<and> list_all resource_request new"
proof (induction es arbitrary: w)
  case Nil
  show ?case by simp
next
  case (Cons e es)
  show ?case
  proof (cases "shutdown w \<or> registration_service_error w \<or> node_unregistered w")
    case True
    then show ?thesis by (simp add: registered_operation_drain_stopped)
  next
    case False
    obtain r w1 where r: "request_registration base e (unlocked w) = (r, w1)"
      by (cases "request_registration base e (unlocked w)")
    from request_registration_trace [of base e "unlocked w"] r obtain new1 where
      t1: "trace w1 = trace w @ new1" and a1: "list_all resource_request new1"
      by (auto simp: unlocked_frame)
    show ?thesis
    proof (cases r)
      case (Inl x)
      with False r t1 a1 show ?thesis by (simp add: Let_def)
    next
      case (Inr u)
      let ?w2 = "if self_id w1 = fst (get_node_behaviour_event_id_type e) \<and>
                   resource_removed_event = get_resource_event_type e
                 then w1\<lparr>node_unregistered := True\<rparr> else w1"
      from Cons.IH [of ?w2] obtain new2 where
        t2: "trace (registered_operation_drain base es ?w2) = trace ?w2 @ new2"
        and a2: "list_all resource_request new2"
        by blast
      have D: "registered_operation_drain base (e # es) w = registered_operation_drain base es ?w2"
        using False r Inr by (simp add: Let_def)
      have "trace (registered_operation_drain base (e # es) w) = trace w @ (new1 @ new2) \<and>
            list_all resource_request (new1 @ new2)"
        unfolding D t2 using t1 a1 a2 by simp
      then show ?thesis by blast
    qed
  qed
qed

lemma registered_operation_drain_cycle_trace:
  "\<exists>new. trace (registered_operation_drain_cycle base w) = trace w @ new \<and>
     list_all resource_request new"
proof -
  let ?g = "node_behaviour_grain_guard (w\<lparr>events := []\<rparr>)"
  let ?w2 = "?g\<lparr>most_recent_update := grain_updated ?g\<rparr>"
  have t: "trace ?w2 = trace w"
    by (simp add: node_behaviour_grain_guard_def)
  from registered_operation_drain_trace [of base "events ?w2" ?w2] t
  show ?thesis
    by (simp add: registered_operation_drain_cycle_def Let_def node_behaviour_grain_guard_dtor_def
        node_behaviour_grain_guard_def)
qed

lemma first_heartbeat_effect:
  "trace (first_heartbeat base w) = trace w @ [Request (post_health base (self_id w))]"
  "shutdown (first_heartbeat base w) = shutdown w"
  "self_id (first_heartbeat base w) = self_id w"
  "grain_data (first_heartbeat base w) = grain_data w"
  "background_heartbeats (first_heartbeat base w) = background_heartbeats w"
  "client (first_heartbeat base w) = Some base"
  "(registration_service_error (first_heartbeat base w) \<or> node_unregistered (first_heartbeat base w)) =
     (registration_service_error w \<or> node_unregistered w \<or> \<not> heartbeat_alive (responses w))"
  by (auto simp: first_heartbeat_def update_node_health_def client_request_def
      handle_registration_error_conditions_def heartbeat_alive_def is_server_error_status_code_def
      split: list.splits http_result.splits prod.splits sum.splits)

lemma condition_wait_ready: "p w \<Longrightarrow> condition_wait p w = Woken w"
  by (cases "windows w") (simp_all add: condition_wait_def)

lemma deletion_204:
  assumes "resource_removed_event = ev_type e" and "responses w = Response 204 # rest"
  shows "request_registration base e w =
           (Inr (), w\<lparr>trace := trace w @ [Request (delete_resource base (ev_path e))],
                      responses := rest\<rparr>)"
  using assms
  by (auto simp: request_registration_def Let_def get_resource_event_type_def client_request_def)

lemma registered_operation_body_unregistered:
  assumes "node_unregistered v" and "\<not> registration_service_error v"
  shows "registered_operation_body v = Break v"
  using assms
  by (simp add: registered_operation_body_def registered_operation_wake_def condition_wait_ready)

lemma after_registered_operation_mode:
  "agent_mode (after_registered_operation w) =
     (if registration_services w = [] then mode_rediscovery else mode_initial_registration)"
  by (simp add: after_registered_operation_def)

lemma client_error_first:
  assumes "is_client_error_status_code s" and "responses w = Response s # rest"
  shows "request_registration base e w =
           (Inr (), w\<lparr>trace := trace w @ [Request (event_request base e)],
                      error_log := error_log w @ [(event_operation e, s)],
                      responses := rest\<rparr>)"
  using assms
  by (cases "ev_type e")
    (auto simp: request_registration_def Let_def get_resource_event_type_def client_request_def
      creation_first_response_def creation_final_response_def
      handle_registration_error_conditions_def is_client_error_status_code_def
      is_server_error_status_code_def event_request_def event_operation_def creation_body_def)

lemma unanswered_first:
  assumes "\<not> answered_without_server_error (responses w)"
  shows "\<exists>x. fst (request_registration base e w) = Inl x"
  using assms
  by (cases "ev_type e")
    (auto simp: request_registration_def Let_def get_resource_event_type_def client_request_def
      creation_first_response_def creation_final_response_def
      handle_registration_error_conditions_def answered_without_server_error_def
      is_server_error_status_code_def
      split: list.splits http_result.splits)

lemma registered_operation_body_service_error:
  assumes "registration_service_error v" and "registration_services v = r # rs"
  shows "registered_operation_body v =
           (let v2 = cancel_background_heartbeats (unlocked (v\<lparr>registration_services := rs\<rparr>))
            in if shutdown v2 \<or> registration_services v2 = [] \<or> node_unregistered v2 then Break v2
               else (case top_registration_service (registration_services v2) of
                       None \<Rightarrow> Fault Top_of_empty
                     | Some base_uri \<Rightarrow> Continue (registered_operation_attempt base_uri v2)))"
  using assms
  by (simp add: registered_operation_body_def registered_operation_wake_def condition_wait_ready
      pop_and_cancel_def pop_services_def pop_registration_service_def Let_def)

subsection \<open>Events in the grain\<close>

lemma arrivals_append: "arrivals (xs @ ys) = arrivals xs @ arrivals ys"
  by (simp add: arrivals_def)

lemma arrivals_take_Suc:
  "arrivals (take (Suc 0) ws) @ arrivals (take k (drop (Suc 0) ws)) = arrivals (take (Suc k) ws)"
  using take_add [of 1 k ws] by (simp add: arrivals_append [symmetric])

lemma grain_data_env_action: "grain_data (apply_env_action a w) = grain_data w @ arrived a"
  by (cases a) (simp_all add: insert_resource_events_def Let_def)

lemma grain_data_fold_env:
  "grain_data (fold apply_env_action as w) = grain_data w @ concat (map arrived as)"
  by (induction as arbitrary: w) (simp_all add: grain_data_env_action)

lemma grain_data_unlocked: "grain_data (unlocked w) = grain_data w @ arrivals (take 1 (windows w))"
  by (simp add: unlocked_def arrivals_def grain_data_fold_env split: list.splits)

lemma windows_unlocked: "windows (unlocked w) = drop 1 (windows w)"
  by (simp add: unlocked_windows drop_Suc)

lemma guard_dtor_grain:
  "grain_data (node_behaviour_grain_guard_dtor v) = events v @ grain_data v"
  "windows (node_behaviour_grain_guard_dtor v) = windows v"
  by (simp_all add: node_behaviour_grain_guard_dtor_def)

lemma guard_dtor_updated:
  "events v \<noteq> [] \<Longrightarrow> grain_updated v < grain_updated (node_behaviour_grain_guard_dtor v)"
  "grain_updated v \<le> grain_updated (node_behaviour_grain_guard_dtor v)"
  "most_recent_update (node_behaviour_grain_guard_dtor v) = most_recent_update v"
  "trace (node_behaviour_grain_guard_dtor v) = trace v"
  by (auto simp: node_behaviour_grain_guard_dtor_def strictly_increasing_update_def
      less_Suc_eq_le le_Suc_eq)

lemma request_starts_with_event_request:
  "\<exists>rest. trace (snd (request_registration base e w)) =
           trace w @ Request (event_request base e) # rest"
  by (cases "ev_type e")
    (auto simp: request_registration_def Let_def get_resource_event_type_def client_request_def
      creation_first_response_def creation_final_response_def
      handle_registration_error_conditions_def event_request_def creation_body_def
      split: list.splits http_result.splits prod.splits sum.splits)

section \<open>The rounding of doubles\<close>

text \<open>
  \<open>binary_exponent\<close> brackets a positive number between two neighbouring powers of two,
  and \<open>round_to_double\<close> moves a number by at most half the spacing of the doubles around
  it.
\<close>

lemma binary_exponent_bounds:
  assumes "0 < x"
  shows "2 powi binary_exponent x \<le> x" and "x < 2 powi (binary_exponent x + 1)"
proof -
  have "2 powi binary_exponent x \<le> x \<and> x < 2 powi (binary_exponent x + 1)"
  proof (cases "1 \<le> x")
    case True
    define n where "n = \<lfloor>x\<rfloor>"
    have n: "0 < n" "of_int n \<le> x" "x < of_int n + 1"
      using True by (simp_all add: n_def)
    from bitlen_bounds [OF n(1)] have b: "2 ^ nat (bitlen n - 1) \<le> n" "n < 2 ^ nat (bitlen n)"
      by simp_all
    from n(1) have "1 \<le> bitlen n" by (auto simp: bitlen_alt_def)
    then have pos: "0 < bitlen n" by simp
    have e: "binary_exponent x = bitlen n - 1"
      using True by (simp add: binary_exponent_def n_def)
    have "(2::real) powi (bitlen n - 1) = of_int (2 ^ nat (bitlen n - 1))"
      using pos by (simp add: power_int_def)
    also have "\<dots> \<le> of_int n" using b(1) by (simp only: of_int_le_iff)
    finally have lo: "2 powi (bitlen n - 1) \<le> x" using n(2) by simp
    have "n + 1 \<le> 2 ^ nat (bitlen n)" using b(2) by simp
    then have "(of_int (n + 1) :: real) \<le> of_int (2 ^ nat (bitlen n))"
      by (simp only: of_int_le_iff)
    then have "x < of_int (2 ^ nat (bitlen n))" using n(3) by simp
    also have "(of_int (2 ^ nat (bitlen n)) :: real) = 2 powi (bitlen n)"
      using pos by (simp add: power_int_def)
    finally have hi: "x < 2 powi (bitlen n)" .
    from lo hi show ?thesis by (simp add: e)
  next
    case False
    with assms have x: "0 < x" "x < 1" by simp_all
    define m where "m = \<lceil>1 / x\<rceil> - 1"
    have "1 < 1 / x" using x by simp
    then have m: "0 < m" by (simp add: m_def)
    have u: "of_int m < 1 / x" "1 / x \<le> of_int m + 1"
      by (simp_all add: m_def) linarith+
    from bitlen_bounds [OF m] have b: "2 ^ nat (bitlen m - 1) \<le> m" "m < 2 ^ nat (bitlen m)"
      by simp_all
    from m have "1 \<le> bitlen m" by (auto simp: bitlen_alt_def)
    then have pos: "0 < bitlen m" by simp
    have e: "binary_exponent x = - bitlen m"
      using False by (simp add: binary_exponent_def m_def)
    have "m + 1 \<le> 2 ^ nat (bitlen m)" using b(2) by simp
    then have "(of_int (m + 1) :: real) \<le> of_int (2 ^ nat (bitlen m))"
      by (simp only: of_int_le_iff)
    then have "1 / x \<le> 2 ^ nat (bitlen m)" using u(2) by simp
    then have "1 \<le> x * 2 ^ nat (bitlen m)" using x(1) by (simp add: field_simps)
    then have lo: "2 powi (- bitlen m) \<le> x"
      using pos by (simp add: power_int_def field_simps)
    have "(of_int (2 ^ nat (bitlen m - 1)) :: real) \<le> of_int m"
      using b(1) by (simp only: of_int_le_iff)
    then have "(2::real) ^ nat (bitlen m - 1) \<le> of_int m" by simp
    with u(1) have "2 ^ nat (bitlen m - 1) < 1 / x" by linarith
    then have less: "x < 1 / 2 ^ nat (bitlen m - 1)" using x(1) by (simp add: field_simps)
    have "(2::real) powi (- bitlen m + 1) = 1 / 2 ^ nat (bitlen m - 1)"
    proof (cases "bitlen m = 1")
      case True
      then show ?thesis by simp
    next
      case False
      with pos have "- bitlen m + 1 < 0" by simp
      then show ?thesis
        by (simp add: power_int_def field_simps)
    qed
    with less have hi: "x < 2 powi (- bitlen m + 1)"
      by (simp only:)
    from lo hi show ?thesis by (simp add: e)
  qed
  then show "2 powi binary_exponent x \<le> x" and "x < 2 powi (binary_exponent x + 1)"
    by simp_all
qed

lemma round_half_even_nearest: "\<bar>of_int (round_half_even y) - y\<bar> \<le> 1 / 2"
  by (simp add: round_half_even_def Let_def)

lemma round_to_double_nearest:
  "\<bar>round_to_double x - x\<bar> \<le> 2 powi (max (binary_exponent \<bar>x\<bar>) (- 1022) - 52) / 2"
proof (cases "x = 0")
  case True
  then show ?thesis by (simp add: round_to_double_def)
next
  case False
  define e where "e = max (binary_exponent \<bar>x\<bar>) (- 1022) - 52"
  have p: "(0::real) < 2 powi e" by simp
  have r: "round_to_double x = of_int (round_half_even (x / 2 powi e)) * 2 powi e"
    using False by (simp add: round_to_double_def Let_def e_def)
  have "round_to_double x - x = (of_int (round_half_even (x / 2 powi e)) - x / 2 powi e) * 2 powi e"
    unfolding r using p by (simp add: left_diff_distrib)
  then have "\<bar>round_to_double x - x\<bar> = \<bar>of_int (round_half_even (x / 2 powi e)) - x / 2 powi e\<bar> * 2 powi e"
    using p by (simp only: abs_mult abs_of_pos)
  also have "\<dots> \<le> 1 / 2 * 2 powi e"
    using round_half_even_nearest [of "x / 2 powi e"] p by (intro mult_right_mono) simp_all
  finally show ?thesis by (simp add: e_def)
qed

lemma round_to_double_1000: "round_to_double 1000 = 1000"
  by code_simp

lemma std_max_max: "std_max a b = max a b"
  by (simp add: std_max_def max_def)

lemma std_min_min: "std_min a b = min a b"
  by (simp add: std_min_def min_def)

section \<open>The registry list\<close>

lemma multimap_of_snoc: "multimap_of (xs @ [x]) = mm_insert x (multimap_of xs)"
  by (simp add: multimap_of_def)

lemma mm_insert_not_Nil: "mm_insert e m \<noteq> []"
  by (cases m) auto

lemma multimap_of_eq_Nil: "multimap_of xs = [] \<longleftrightarrow> xs = []"
  by (induction xs rule: rev_induct) (auto simp: multimap_of_snoc mm_insert_not_Nil, simp add: multimap_of_def)


text \<open>
  Claim C8. For every non-empty registry list, the selected registry is the
  minimum-priority entry, pop removes exactly that entry and no other, and a tie is broken
  by insertion order. A multimap is what a sequence \<open>xs\<close> of insertions builds; the entry
  at the front is the \<open>i\<close>-th inserted, no entry has a smaller priority, every entry
  inserted before it has a strictly greater one, and what pop leaves is the multimap of
  the other insertions, in their order (so the next selection is again its
  minimum-priority entry). The selection is a function of the list: one registry.
\<close>

theorem selected_registry_is_first_minimum:
  "xs \<noteq> [] \<Longrightarrow>
   \<exists>i < length xs.
     top_registration_service (multimap_of xs) = Some (snd (xs ! i)) \<and>
     (\<forall>j < length xs. fst (xs ! i) \<le> fst (xs ! j)) \<and>
     (\<forall>j < i. fst (xs ! i) < fst (xs ! j)) \<and>
     pop_registration_service (multimap_of xs) = Some (multimap_of (take i xs @ drop (Suc i) xs)) \<and>
     hd (multimap_of xs) = xs ! i"
proof (induction xs rule: rev_induct)
  case Nil
  then show ?case by simp
next
  case (snoc x ys)
  show ?case
  proof (cases "ys = []")
    case True
    then show ?thesis
      by (simp add: multimap_of_def top_registration_service_def pop_registration_service_def)
  next
    case False
    from snoc.IH [OF False] obtain i where i: "i < length ys"
      and top: "top_registration_service (multimap_of ys) = Some (snd (ys ! i))"
      and least: "\<forall>j < length ys. fst (ys ! i) \<le> fst (ys ! j)"
      and first: "\<forall>j < i. fst (ys ! i) < fst (ys ! j)"
      and pop: "pop_registration_service (multimap_of ys) = Some (multimap_of (take i ys @ drop (Suc i) ys))"
      and hd: "hd (multimap_of ys) = ys ! i"
      by blast
    from False obtain m ms where m: "multimap_of ys = m # ms"
      by (cases "multimap_of ys") (auto simp: multimap_of_eq_Nil)
    with hd have mi: "m = ys ! i" by simp
    from pop m have ms: "ms = multimap_of (take i ys @ drop (Suc i) ys)"
      by (simp add: pop_registration_service_def)
    show ?thesis
    proof (cases "fst x < fst (ys ! i)")
      case True
      have "multimap_of (ys @ [x]) = x # m # ms"
        using True m mi by (simp add: multimap_of_snoc)
      moreover have "\<forall>j < length (ys @ [x]). fst x \<le> fst ((ys @ [x]) ! j)"
        using True least by (auto simp: nth_append less_Suc_eq)
      moreover have "\<forall>j < length ys. fst x < fst ((ys @ [x]) ! j)"
        using True least by (fastforce simp: nth_append)
      ultimately show ?thesis
        using m
        by (intro exI [of _ "length ys"])
           (simp add: top_registration_service_def pop_registration_service_def)
    next
      case False
      have eq: "multimap_of (ys @ [x]) = m # mm_insert x ms"
        using False m mi by (simp add: multimap_of_snoc)
      have rest: "take i (ys @ [x]) @ drop (Suc i) (ys @ [x]) = (take i ys @ drop (Suc i) ys) @ [x]"
        using i by simp
      have nth: "(ys @ [x]) ! i = ys ! i"
        using i by (simp add: nth_append)
      have a: "\<forall>j < length (ys @ [x]). fst ((ys @ [x]) ! i) \<le> fst ((ys @ [x]) ! j)"
        unfolding nth using False least i by (auto simp: nth_append less_Suc_eq)
      have b: "\<forall>j < i. fst ((ys @ [x]) ! i) < fst ((ys @ [x]) ! j)"
        unfolding nth using first i by (auto simp: nth_append)
      have c: "pop_registration_service (multimap_of (ys @ [x])) =
                 Some (multimap_of (take i (ys @ [x]) @ drop (Suc i) (ys @ [x])))"
        unfolding rest multimap_of_snoc [of "take i ys @ drop (Suc i) ys" x]
        using eq ms by (simp add: pop_registration_service_def)
      have d: "top_registration_service (multimap_of (ys @ [x])) = Some (snd ((ys @ [x]) ! i))"
        using eq mi nth by (simp add: top_registration_service_def)
      have e: "hd (multimap_of (ys @ [x])) = (ys @ [x]) ! i"
        using eq mi nth by simp
      from i have "i < length (ys @ [x])" by simp
      with a b c d e show ?thesis by blast
    qed
  qed
qed

theorem selected_registry_is_first_minimum_witness:
  "example_services \<noteq> [] \<and>
   (\<exists>i < length example_services.
     top_registration_service (multimap_of example_services) = Some (snd (example_services ! i)) \<and>
     (\<forall>j < length example_services. fst (example_services ! i) \<le> fst (example_services ! j)) \<and>
     (\<forall>j < i. fst (example_services ! i) < fst (example_services ! j)) \<and>
     pop_registration_service (multimap_of example_services) =
       Some (multimap_of (take i example_services @ drop (Suc i) example_services)) \<and>
     hd (multimap_of example_services) = example_services ! i) \<and>
   top_registration_service (multimap_of example_services) = Some ''b''"
proof -
  have ne: "example_services \<noteq> []"
    by (simp add: example_services_def)
  have "top_registration_service (multimap_of example_services) = Some ''b''"
    by (simp add: example_services_def multimap_of_def top_registration_service_def)
  with ne selected_registry_is_first_minimum [OF ne] show ?thesis
    by blast
qed

section \<open>The drain cycle\<close>

lemma registered_operation_drain_run:
  "\<exists>processed k new.
     es = processed @ events (registered_operation_drain base es w) \<and>
     grain_data (registered_operation_drain base es w) = grain_data w @ arrivals (take k (windows w)) \<and>
     windows (registered_operation_drain base es w) = drop k (windows w) \<and>
     trace (registered_operation_drain base es w) = trace w @ new \<and>
     subseq (map (\<lambda>e. Request (event_request base e)) processed) new"
proof (induction es arbitrary: w)
  case Nil
  have "[] = [] @ events (registered_operation_drain base [] w) \<and>
     grain_data (registered_operation_drain base [] w) = grain_data w @ arrivals (take 0 (windows w)) \<and>
     windows (registered_operation_drain base [] w) = drop 0 (windows w) \<and>
     trace (registered_operation_drain base [] w) = trace w @ [] \<and>
     subseq (map (\<lambda>e. Request (event_request base e)) []) []"
    by (simp add: arrivals_def)
  then show ?case by blast
next
  case (Cons e es)
  let ?D = "registered_operation_drain base (e # es) w"
  let ?f = "\<lambda>e. Request (event_request base e)"
  show ?case
  proof (cases "shutdown w \<or> registration_service_error w \<or> node_unregistered w")
    case True
    then have "e # es = [] @ events ?D \<and> grain_data ?D = grain_data w @ arrivals (take 0 (windows w)) \<and>
       windows ?D = drop 0 (windows w) \<and> trace ?D = trace w @ [] \<and> subseq (map ?f []) []"
      by (simp add: arrivals_def)
    then show ?thesis by blast
  next
    case False
    obtain r w1 where r: "request_registration base e (unlocked w) = (r, w1)"
      by (cases "request_registration base e (unlocked w)")
    have io: "io_only (unlocked w) w1"
      using io_only_request_registration [of "unlocked w" base e] r by simp
    have g1: "grain_data w1 = grain_data w @ arrivals (take 1 (windows w))"
      and win1: "windows w1 = drop 1 (windows w)"
      using io_only_frame [OF io] by (simp_all add: grain_data_unlocked windows_unlocked)
    from request_starts_with_event_request [of base e "unlocked w"] r obtain rest where
      t1: "trace w1 = trace w @ ?f e # rest"
      by (auto simp: unlocked_frame)
    show ?thesis
    proof (cases r)
      case (Inl x)
      with False r have D: "?D = w1\<lparr>registration_service_error := True, events := e # es\<rparr>"
        by (simp add: Let_def)
      have "e # es = [] @ events ?D \<and> grain_data ?D = grain_data w @ arrivals (take 1 (windows w)) \<and>
         windows ?D = drop 1 (windows w) \<and> trace ?D = trace w @ (?f e # rest) \<and>
         subseq (map ?f []) (?f e # rest)"
        unfolding D by (simp add: g1 win1 t1)
      then show ?thesis by blast
    next
      case (Inr u)
      define w2 where "w2 = (if self_id w1 = fst (get_node_behaviour_event_id_type e) \<and>
            resource_removed_event = get_resource_event_type e
          then w1\<lparr>node_unregistered := True\<rparr> else w1)"
      with Inr False r have D: "?D = registered_operation_drain base es w2"
        by (simp add: Let_def)
      have g2: "grain_data w2 = grain_data w1" and win2: "windows w2 = windows w1"
        and t2: "trace w2 = trace w1"
        by (simp_all add: w2_def)
      from Cons.IH [of w2] obtain processed k new where
        p: "es = processed @ events (registered_operation_drain base es w2)"
        and g: "grain_data (registered_operation_drain base es w2) = grain_data w2 @ arrivals (take k (windows w2))"
        and wi: "windows (registered_operation_drain base es w2) = drop k (windows w2)"
        and tr: "trace (registered_operation_drain base es w2) = trace w2 @ new"
        and sq: "subseq (map ?f processed) new"
        by blast
      have c1: "e # es = (e # processed) @ events ?D"
        unfolding D using p by (metis append_Cons)
      have c2: "grain_data ?D = grain_data w @ arrivals (take (Suc k) (windows w))"
        unfolding D g by (simp add: g1 g2 win1 win2 arrivals_take_Suc)
      have c3: "windows ?D = drop (Suc k) (windows w)"
        unfolding D wi by (simp add: win1 win2)
      have c4: "trace ?D = trace w @ (?f e # rest @ new)"
        unfolding D tr t2 t1 by simp
      have "subseq (map ?f processed) (rest @ new)"
        using sq by (rule list_emb_append2)
      then have c5: "subseq (map ?f (e # processed)) (?f e # rest @ new)"
        by simp
      from c1 c2 c3 c4 c5 have "e # es = (e # processed) @ events ?D \<and>
         grain_data ?D = grain_data w @ arrivals (take (Suc k) (windows w)) \<and>
         windows ?D = drop (Suc k) (windows w) \<and>
         trace ?D = trace w @ (?f e # rest @ new) \<and>
         subseq (map ?f (e # processed)) (?f e # rest @ new)"
        by blast
      then show ?thesis by blast
    qed
  qed
qed

lemma registered_operation_drain_left:
  "events (registered_operation_drain base es w) \<noteq> [] \<Longrightarrow>
   shutdown (registered_operation_drain base es w) \<or>
   registration_service_error (registered_operation_drain base es w) \<or>
   node_unregistered (registered_operation_drain base es w)"
proof (induction es arbitrary: w)
  case Nil
  then show ?case by simp
next
  case (Cons e es)
  show ?case
  proof (cases "shutdown w \<or> registration_service_error w \<or> node_unregistered w")
    case True
    then show ?thesis by auto
  next
    case False
    obtain r w1 where r: "request_registration base e (unlocked w) = (r, w1)"
      by (cases "request_registration base e (unlocked w)")
    show ?thesis
    proof (cases r)
      case (Inl x)
      with False r show ?thesis by (simp add: Let_def)
    next
      case (Inr u)
      let ?w2 = "if self_id w1 = fst (get_node_behaviour_event_id_type e) \<and>
            resource_removed_event = get_resource_event_type e
          then w1\<lparr>node_unregistered := True\<rparr> else w1"
      from Inr False r have D: "registered_operation_drain base (e # es) w =
          registered_operation_drain base es ?w2"
        by (simp add: Let_def)
      from Cons.prems Cons.IH [of ?w2] show ?thesis
        unfolding D by blast
    qed
  qed
qed

lemma registered_operation_drain_updated:
  "grain_updated w \<le> grain_updated (registered_operation_drain base es w)"
proof (induction es arbitrary: w)
  case Nil
  show ?case by simp
next
  case (Cons e es)
  show ?case
  proof (cases "shutdown w \<or> registration_service_error w \<or> node_unregistered w")
    case True
    then show ?thesis by auto
  next
    case False
    obtain r w1 where r: "request_registration base e (unlocked w) = (r, w1)"
      by (cases "request_registration base e (unlocked w)")
    have io: "io_only (unlocked w) w1"
      using io_only_request_registration [of "unlocked w" base e] r by simp
    have u1: "grain_updated w \<le> grain_updated w1"
      using io_only_frame(6) [OF io] grain_updated_unlocked [of w] by simp
    show ?thesis
    proof (cases r)
      case (Inl x)
      with False r u1 show ?thesis by (simp add: Let_def)
    next
      case (Inr u)
      let ?w2 = "if self_id w1 = fst (get_node_behaviour_event_id_type e) \<and>
            resource_removed_event = get_resource_event_type e
          then w1\<lparr>node_unregistered := True\<rparr> else w1"
      from Inr False r have D: "registered_operation_drain base (e # es) w =
          registered_operation_drain base es ?w2"
        by (simp add: Let_def)
      have "grain_updated w \<le> grain_updated ?w2" using u1 by simp
      with Cons.IH [of ?w2] show ?thesis
        unfolding D by (rule order_trans [rotated])
    qed
  qed
qed

lemma initial_registration_drain_run:
  "\<exists>processed k new.
     es = processed @ events (initial_registration_drain base es w) \<and>
     grain_data (initial_registration_drain base es w) = grain_data w @ arrivals (take k (windows w)) \<and>
     windows (initial_registration_drain base es w) = drop k (windows w) \<and>
     trace (initial_registration_drain base es w) = trace w @ new \<and>
     subseq (map (\<lambda>e. Request (event_request base e)) (filter node_creation processed)) new"
proof (induction es arbitrary: w)
  case Nil
  have "[] = [] @ events (initial_registration_drain base [] w) \<and>
     grain_data (initial_registration_drain base [] w) = grain_data w @ arrivals (take 0 (windows w)) \<and>
     windows (initial_registration_drain base [] w) = drop 0 (windows w) \<and>
     trace (initial_registration_drain base [] w) = trace w @ [] \<and>
     subseq (map (\<lambda>e. Request (event_request base e)) (filter node_creation [])) []"
    by (simp add: arrivals_def)
  then show ?case by blast
next
  case (Cons e es)
  let ?D = "initial_registration_drain base (e # es) w"
  let ?f = "\<lambda>e. Request (event_request base e)"
  show ?case
  proof (cases "shutdown w \<or> registration_service_error w \<or> node_registered w")
    case True
    then have "e # es = [] @ events ?D \<and> grain_data ?D = grain_data w @ arrivals (take 0 (windows w)) \<and>
       windows ?D = drop 0 (windows w) \<and> trace ?D = trace w @ [] \<and>
       subseq (map ?f (filter node_creation [])) []"
      by (simp add: arrivals_def)
    then show ?thesis by blast
  next
    case False
    show ?thesis
    proof (cases "node_creation e")
      case skip: False
      with False have D: "?D = initial_registration_drain base es w"
        by (simp add: Let_def node_creation_def)
      from Cons.IH [of w] obtain processed k new where
        p: "es = processed @ events (initial_registration_drain base es w)"
        and g: "grain_data (initial_registration_drain base es w) = grain_data w @ arrivals (take k (windows w))"
        and wi: "windows (initial_registration_drain base es w) = drop k (windows w)"
        and tr: "trace (initial_registration_drain base es w) = trace w @ new"
        and sq: "subseq (map ?f (filter node_creation processed)) new"
        by blast
      have c1: "e # es = (e # processed) @ events ?D"
        unfolding D using p by (metis append_Cons)
      have c5: "subseq (map ?f (filter node_creation (e # processed))) new"
        using sq skip by simp
      from c1 g wi tr c5 have "e # es = (e # processed) @ events ?D \<and>
         grain_data ?D = grain_data w @ arrivals (take k (windows w)) \<and>
         windows ?D = drop k (windows w) \<and> trace ?D = trace w @ new \<and>
         subseq (map ?f (filter node_creation (e # processed))) new"
        unfolding D by blast
      then show ?thesis by blast
    next
      case node: True
      let ?u = "unlocked (w\<lparr>self_id := fst (get_node_behaviour_event_id_type e)\<rparr>)"
      obtain r w1 where r: "request_registration base e ?u = (r, w1)"
        by (cases "request_registration base e ?u")
      have io: "io_only ?u w1"
        using io_only_request_registration [of ?u base e] r by simp
      have g1: "grain_data w1 = grain_data w @ arrivals (take (Suc 0) (windows w))"
        and win1: "windows w1 = drop (Suc 0) (windows w)"
        using io_only_frame [OF io] by (simp_all add: grain_data_unlocked windows_unlocked)
      from request_starts_with_event_request [of base e ?u] r obtain rest where
        t1: "trace w1 = trace w @ ?f e # rest"
        by (auto simp: unlocked_frame)
      show ?thesis
      proof (cases r)
        case (Inl x)
        with False node r have D: "?D = w1\<lparr>registration_service_error := True, events := e # es\<rparr>"
          by (auto simp: Let_def node_creation_def)
        have "e # es = [] @ events ?D \<and> grain_data ?D = grain_data w @ arrivals (take (Suc 0) (windows w)) \<and>
           windows ?D = drop (Suc 0) (windows w) \<and> trace ?D = trace w @ (?f e # rest) \<and>
           subseq (map ?f (filter node_creation [])) (?f e # rest)"
          unfolding D by (simp add: g1 win1 t1)
        then show ?thesis by blast
      next
        case (Inr u)
        let ?w2 = "w1\<lparr>node_registered := True\<rparr>"
        from Inr False node r have D: "?D = initial_registration_drain base es ?w2"
          by (auto simp: Let_def node_creation_def)
        from Cons.IH [of ?w2] obtain processed k new where
          p: "es = processed @ events (initial_registration_drain base es ?w2)"
          and g: "grain_data (initial_registration_drain base es ?w2) = grain_data ?w2 @ arrivals (take k (windows ?w2))"
          and wi: "windows (initial_registration_drain base es ?w2) = drop k (windows ?w2)"
          and tr: "trace (initial_registration_drain base es ?w2) = trace ?w2 @ new"
          and sq: "subseq (map ?f (filter node_creation processed)) new"
          by blast
        have c1: "e # es = (e # processed) @ events ?D"
          unfolding D using p by (metis append_Cons)
        have c2: "grain_data ?D = grain_data w @ arrivals (take (Suc k) (windows w))"
          unfolding D g by (simp add: g1 win1 arrivals_take_Suc)
        have c3: "windows ?D = drop (Suc k) (windows w)"
          unfolding D wi by (simp add: win1)
        have c4: "trace ?D = trace w @ (?f e # rest @ new)"
          unfolding D tr by (simp add: t1)
        have "subseq (map ?f (filter node_creation processed)) (rest @ new)"
          using sq by (rule list_emb_append2)
        then have c5: "subseq (map ?f (filter node_creation (e # processed))) (?f e # rest @ new)"
          using node by simp
        from c1 c2 c3 c4 c5 have "e # es = (e # processed) @ events ?D \<and>
           grain_data ?D = grain_data w @ arrivals (take (Suc k) (windows w)) \<and>
           windows ?D = drop (Suc k) (windows w) \<and>
           trace ?D = trace w @ (?f e # rest @ new) \<and>
           subseq (map ?f (filter node_creation (e # processed))) (?f e # rest @ new)"
          by blast
        then show ?thesis by blast
      qed
    qed
  qed
qed

lemma initial_registration_drain_left:
  "events (initial_registration_drain base es w) \<noteq> [] \<Longrightarrow>
   shutdown (initial_registration_drain base es w) \<or>
   registration_service_error (initial_registration_drain base es w) \<or>
   node_registered (initial_registration_drain base es w)"
proof (induction es arbitrary: w)
  case Nil
  then show ?case by simp
next
  case (Cons e es)
  show ?case
  proof (cases "shutdown w \<or> registration_service_error w \<or> node_registered w")
    case True
    then show ?thesis by auto
  next
    case False
    show ?thesis
    proof (cases "node_creation e")
      case skip: False
      with False have D: "initial_registration_drain base (e # es) w =
          initial_registration_drain base es w"
        by (simp add: Let_def node_creation_def)
      from Cons.prems Cons.IH [of w] show ?thesis unfolding D by blast
    next
      case node: True
      let ?u = "unlocked (w\<lparr>self_id := fst (get_node_behaviour_event_id_type e)\<rparr>)"
      obtain r w1 where r: "request_registration base e ?u = (r, w1)"
        by (cases "request_registration base e ?u")
      show ?thesis
      proof (cases r)
        case (Inl x)
        with False node r show ?thesis by (auto simp: Let_def node_creation_def)
      next
        case (Inr u)
        from Inr False node r have D: "initial_registration_drain base (e # es) w =
            initial_registration_drain base es (w1\<lparr>node_registered := True\<rparr>)"
          by (auto simp: Let_def node_creation_def)
        from Cons.prems Cons.IH [of "w1\<lparr>node_registered := True\<rparr>"] show ?thesis
          unfolding D by blast
      qed
    qed
  qed
qed

lemma initial_registration_drain_updated:
  "grain_updated w \<le> grain_updated (initial_registration_drain base es w)"
proof (induction es arbitrary: w)
  case Nil
  show ?case by simp
next
  case (Cons e es)
  show ?case
  proof (cases "shutdown w \<or> registration_service_error w \<or> node_registered w")
    case True
    then show ?thesis by auto
  next
    case False
    show ?thesis
    proof (cases "node_creation e")
      case skip: False
      with False have D: "initial_registration_drain base (e # es) w =
          initial_registration_drain base es w"
        by (simp add: Let_def node_creation_def)
      from Cons.IH [of w] show ?thesis unfolding D .
    next
      case node: True
      let ?u = "unlocked (w\<lparr>self_id := fst (get_node_behaviour_event_id_type e)\<rparr>)"
      obtain r w1 where r: "request_registration base e ?u = (r, w1)"
        by (cases "request_registration base e ?u")
      have io: "io_only ?u w1"
        using io_only_request_registration [of ?u base e] r by simp
      have u1: "grain_updated w \<le> grain_updated w1"
        using io_only_frame(6) [OF io]
          grain_updated_unlocked [of "w\<lparr>self_id := fst (get_node_behaviour_event_id_type e)\<rparr>"]
        by simp
      show ?thesis
      proof (cases r)
        case (Inl x)
        with False node r u1 show ?thesis by (auto simp: Let_def node_creation_def)
      next
        case (Inr u)
        from Inr False node r have D: "initial_registration_drain base (e # es) w =
            initial_registration_drain base es (w1\<lparr>node_registered := True\<rparr>)"
          by (auto simp: Let_def node_creation_def)
        have "grain_updated w \<le> grain_updated (w1\<lparr>node_registered := True\<rparr>)" using u1 by simp
        with Cons.IH [of "w1\<lparr>node_registered := True\<rparr>"] show ?thesis
          unfolding D by (rule order_trans [rotated])
      qed
    qed
  qed
qed

lemma registered_operation_drain_cycle_run:
  "let g = node_behaviour_grain_guard (w\<lparr>events := []\<rparr>);
       d = registered_operation_drain base (events g) (g\<lparr>most_recent_update := grain_updated g\<rparr>);
       w' = registered_operation_drain_cycle base w
   in \<exists>processed k new.
        grain_data w = processed @ events d \<and>
        trace w' = trace w @ new \<and>
        subseq (map (\<lambda>e. Request (event_request base e)) processed) new \<and>
        (events d \<noteq> [] \<longrightarrow>
           shutdown d \<or> registration_service_error d \<or> node_unregistered d) \<and>
        grain_data w' = events d @ arrivals (take k (windows w)) \<and>
        windows w' = drop k (windows w) \<and>
        grain_updated w < grain_updated w' \<and>
        (events d \<noteq> [] \<longrightarrow>
           grain_updated d < grain_updated w' \<and> most_recent_update w' < grain_updated w')"
proof -
  define g where "g = node_behaviour_grain_guard (w\<lparr>events := []\<rparr>)"
  define g2 where "g2 = g\<lparr>most_recent_update := grain_updated g\<rparr>"
  define d where "d = registered_operation_drain base (events g) g2"
  define d2 where "d2 = d\<lparr>most_recent_update := grain_updated d\<rparr>"
  define w' where "w' = registered_operation_drain_cycle base w"
  have g2: "events g2 = grain_data w" "grain_data g2 = []" "windows g2 = windows w"
    "trace g2 = trace w" "grain_updated w < grain_updated g2" "events g = grain_data w"
    by (simp_all add: g2_def g_def node_behaviour_grain_guard_def strictly_increasing_update_def
        less_Suc_eq_le)
  have w': "w' = node_behaviour_grain_guard_dtor d2"
    by (simp add: w'_def registered_operation_drain_cycle_def Let_def d2_def d_def g2_def g_def
        node_behaviour_grain_guard_def)
  from registered_operation_drain_run [of "events g" base g2] obtain processed k new where
    p: "events g = processed @ events d"
    and gd: "grain_data d = grain_data g2 @ arrivals (take k (windows g2))"
    and wi: "windows d = drop k (windows g2)"
    and tr: "trace d = trace g2 @ new"
    and sq: "subseq (map (\<lambda>e. Request (event_request base e)) processed) new"
    unfolding d_def by blast
  have left: "events d \<noteq> [] \<longrightarrow> shutdown d \<or> registration_service_error d \<or> node_unregistered d"
    using registered_operation_drain_left [of base "events g" g2] unfolding d_def by blast
  have up: "grain_updated g2 \<le> grain_updated d"
    using registered_operation_drain_updated [of g2 base "events g"] unfolding d_def .
  have d2: "events d2 = events d" "grain_data d2 = grain_data d" "windows d2 = windows d"
    "trace d2 = trace d" "grain_updated d2 = grain_updated d"
    "most_recent_update d2 = grain_updated d"
    by (simp_all add: d2_def)
  have 1: "grain_data w = processed @ events d" using p g2(6) by simp
  have 2: "trace w' = trace w @ new"
    unfolding w' by (simp add: guard_dtor_updated d2 tr g2)
  have 3: "grain_data w' = events d @ arrivals (take k (windows w))"
    unfolding w' by (simp add: guard_dtor_grain d2 gd g2)
  have 4: "windows w' = drop k (windows w)"
    unfolding w' by (simp add: guard_dtor_grain d2 wi g2)
  have 5: "grain_updated w < grain_updated w'"
    using g2(5) up guard_dtor_updated(2) [of d2] unfolding w' d2(5) [symmetric] by linarith
  have 6: "events d \<noteq> [] \<longrightarrow>
      grain_updated d < grain_updated w' \<and> most_recent_update w' < grain_updated w'"
    using guard_dtor_updated(1) [of d2] unfolding w' by (simp add: guard_dtor_updated d2)
  from 1 2 sq left 3 4 5 6 have "\<exists>processed k new.
        grain_data w = processed @ events d \<and>
        trace w' = trace w @ new \<and>
        subseq (map (\<lambda>e. Request (event_request base e)) processed) new \<and>
        (events d \<noteq> [] \<longrightarrow>
           shutdown d \<or> registration_service_error d \<or> node_unregistered d) \<and>
        grain_data w' = events d @ arrivals (take k (windows w)) \<and>
        windows w' = drop k (windows w) \<and>
        grain_updated w < grain_updated w' \<and>
        (events d \<noteq> [] \<longrightarrow>
           grain_updated d < grain_updated w' \<and> most_recent_update w' < grain_updated w')"
    by blast
  then show ?thesis
    unfolding Let_def g_def [symmetric] g2_def [symmetric] d_def [symmetric] w'_def [symmetric] .
qed

lemma initial_registration_attempt_run:
  "let g = node_behaviour_grain_guard (w\<lparr>client := Some base, events := []\<rparr>);
       d = initial_registration_drain base (events g) g;
       w' = initial_registration_attempt base w
   in \<exists>processed k new.
        grain_data w = processed @ events d \<and>
        trace w' = trace w @ new \<and>
        subseq (map (\<lambda>e. Request (event_request base e)) (filter node_creation processed)) new \<and>
        (events d \<noteq> [] \<longrightarrow>
           shutdown d \<or> registration_service_error d \<or> node_registered d) \<and>
        grain_data w' = events d @ arrivals (take k (windows w)) \<and>
        windows w' = drop k (windows w) \<and>
        grain_updated w < grain_updated w' \<and>
        (events d \<noteq> [] \<longrightarrow>
           grain_updated d < grain_updated w' \<and> most_recent_update w' < grain_updated w')"
proof -
  define g where "g = node_behaviour_grain_guard (w\<lparr>client := Some base, events := []\<rparr>)"
  define d where "d = initial_registration_drain base (events g) g"
  define d2 where "d2 = d\<lparr>most_recent_update := grain_updated d\<rparr>"
  define w' where "w' = initial_registration_attempt base w"
  have cl: "(if client w \<noteq> Some base then w\<lparr>client := Some base\<rparr> else w) = w\<lparr>client := Some base\<rparr>"
    by (cases "client w = Some base") simp_all
  have g: "events g = grain_data w" "grain_data g = []" "windows g = windows w"
    "trace g = trace w" "grain_updated w < grain_updated g"
    by (simp_all add: g_def node_behaviour_grain_guard_def strictly_increasing_update_def
        less_Suc_eq_le)
  have w': "w' = node_behaviour_grain_guard_dtor d2"
    unfolding w'_def initial_registration_attempt_def Let_def cl d2_def d_def g_def
    by (simp add: node_behaviour_grain_guard_def)
  from initial_registration_drain_run [of "events g" base g] obtain processed k new where
    p: "events g = processed @ events d"
    and gd: "grain_data d = grain_data g @ arrivals (take k (windows g))"
    and wi: "windows d = drop k (windows g)"
    and tr: "trace d = trace g @ new"
    and sq: "subseq (map (\<lambda>e. Request (event_request base e)) (filter node_creation processed)) new"
    unfolding d_def by blast
  have left: "events d \<noteq> [] \<longrightarrow> shutdown d \<or> registration_service_error d \<or> node_registered d"
    using initial_registration_drain_left [of base "events g" g] unfolding d_def by blast
  have up: "grain_updated g \<le> grain_updated d"
    using initial_registration_drain_updated [of g base "events g"] unfolding d_def .
  have d2: "events d2 = events d" "grain_data d2 = grain_data d" "windows d2 = windows d"
    "trace d2 = trace d" "grain_updated d2 = grain_updated d"
    "most_recent_update d2 = grain_updated d"
    by (simp_all add: d2_def)
  have 1: "grain_data w = processed @ events d" using p g(1) by simp
  have 2: "trace w' = trace w @ new"
    unfolding w' by (simp add: guard_dtor_updated d2 tr g)
  have 3: "grain_data w' = events d @ arrivals (take k (windows w))"
    unfolding w' by (simp add: guard_dtor_grain d2 gd g)
  have 4: "windows w' = drop k (windows w)"
    unfolding w' by (simp add: guard_dtor_grain d2 wi g)
  have 5: "grain_updated w < grain_updated w'"
    using g(5) up guard_dtor_updated(2) [of d2] unfolding w' d2(5) [symmetric] by linarith
  have 6: "events d \<noteq> [] \<longrightarrow>
      grain_updated d < grain_updated w' \<and> most_recent_update w' < grain_updated w'"
    using guard_dtor_updated(1) [of d2] unfolding w' by (simp add: guard_dtor_updated d2)
  from 1 2 sq left 3 4 5 6 have "\<exists>processed k new.
        grain_data w = processed @ events d \<and>
        trace w' = trace w @ new \<and>
        subseq (map (\<lambda>e. Request (event_request base e)) (filter node_creation processed)) new \<and>
        (events d \<noteq> [] \<longrightarrow>
           shutdown d \<or> registration_service_error d \<or> node_registered d) \<and>
        grain_data w' = events d @ arrivals (take k (windows w)) \<and>
        windows w' = drop k (windows w) \<and>
        grain_updated w < grain_updated w' \<and>
        (events d \<noteq> [] \<longrightarrow>
           grain_updated d < grain_updated w' \<and> most_recent_update w' < grain_updated w')"
    by blast
  then show ?thesis
    unfolding Let_def g_def [symmetric] d_def [symmetric] w'_def [symmetric] .
qed

lemma wait_windows_grain:
  "\<exists>j. windows (waited (wait_windows p ws w)) = drop j ws \<and>
       grain_data (waited (wait_windows p ws w)) = grain_data w @ arrivals (take j ws) \<and>
       grain_updated w \<le> grain_updated (waited (wait_windows p ws w))"
proof (induction ws arbitrary: w)
  case Nil
  have "windows (waited (wait_windows p [] w)) = drop 0 [] \<and>
       grain_data (waited (wait_windows p [] w)) = grain_data w @ arrivals (take 0 []) \<and>
       grain_updated w \<le> grain_updated (waited (wait_windows p [] w))"
    by (simp add: arrivals_def)
  then show ?case by blast
next
  case (Cons a ws)
  show ?case
  proof (cases "p w")
    case True
    then have "windows (waited (wait_windows p (a # ws) w)) = drop 0 (a # ws) \<and>
       grain_data (waited (wait_windows p (a # ws) w)) = grain_data w @ arrivals (take 0 (a # ws)) \<and>
       grain_updated w \<le> grain_updated (waited (wait_windows p (a # ws) w))"
      by (simp add: arrivals_def)
    then show ?thesis by blast
  next
    case False
    from Cons.IH [of "fold apply_env_action a w"] obtain j where
      j: "windows (waited (wait_windows p ws (fold apply_env_action a w))) = drop j ws"
        "grain_data (waited (wait_windows p ws (fold apply_env_action a w))) =
           grain_data (fold apply_env_action a w) @ arrivals (take j ws)"
        "grain_updated (fold apply_env_action a w) \<le>
           grain_updated (waited (wait_windows p ws (fold apply_env_action a w)))"
      by blast
    have "grain_updated w \<le> grain_updated (waited (wait_windows p ws (fold apply_env_action a w)))"
      using grain_updated_fold_env [of w a] j(3) by linarith
    then have "windows (waited (wait_windows p (a # ws) w)) = drop (Suc j) (a # ws) \<and>
       grain_data (waited (wait_windows p (a # ws) w)) = grain_data w @ arrivals (take (Suc j) (a # ws)) \<and>
       grain_updated w \<le> grain_updated (waited (wait_windows p (a # ws) w))"
      using False j(1,2) by (simp add: grain_data_fold_env arrivals_def)
    then show ?thesis by blast
  qed
qed

lemma condition_wait_grain:
  assumes "condition_wait p w = Woken w1"
  shows "\<exists>j. windows w1 = drop j (windows w) \<and>
             grain_data w1 = grain_data w @ arrivals (take j (windows w)) \<and>
             grain_updated w \<le> grain_updated w1"
  using wait_windows_grain [of p "windows w" w] assms by (simp add: condition_wait_def)

lemma registered_operation_body_cycle:
  assumes "condition_wait registered_operation_wake w = Woken w1"
    and "\<not> shutdown w1" and "\<not> registration_service_error w1" and "\<not> node_unregistered w1"
    and "registration_services w1 = (p, base) # rs" and "client w1 = Some base"
  shows "registered_operation_body w = Continue (registered_operation_drain_cycle base w1)"
  using assms
  by (simp add: registered_operation_body_def top_registration_service_def
      registered_operation_attempt_def)

lemma initial_registration_body_cycle:
  assumes "condition_wait initial_registration_wake w = Woken w1"
    and "\<not> shutdown w1" and "\<not> registration_service_error w1" and "\<not> node_registered w1"
    and "registration_services w1 = (p, base) # rs"
  shows "initial_registration_body w = Continue (initial_registration_attempt base w1)"
  using assms
  by (simp add: initial_registration_body_def top_registration_service_def)

lemma peer_to_peer_body_turn:
  assumes "condition_wait peer_to_peer_wake w = Woken w1"
    and "\<not> shutdown w1" and "\<not> registration_services_discovered w1"
  shows "\<exists>u. peer_to_peer_body w = Continue u \<and>
             ver u = update_versions (grain_data w1) (ver w1) \<and>
             trace u = trace w1 @
               (if no_priority \<noteq> pri (model_settings w1) then [Update_service (Some (ver u))] else []) \<and>
             events u = [] \<and>
             grain_data u = arrivals (take 1 (windows w1)) \<and>
             windows u = drop 1 (windows w1) \<and>
             grain_updated w1 < grain_updated u \<and>
             most_recent_update u = grain_updated u"
proof -
  define g where "g = node_behaviour_grain_guard (w1\<lparr>events := []\<rparr>)"
  define w3 where "w3 = unlocked g"
  define u where "u =
      (let w6 = node_behaviour_grain_guard_dtor
                  ((update_node_service (Some (update_versions (events w3) (ver w3)))
                     (w3\<lparr>ver := update_versions (events w3) (ver w3)\<rparr>))\<lparr>events := []\<rparr>)
       in w6\<lparr>most_recent_update := grain_updated w6\<rparr>)"
  have g: "events g = grain_data w1" "grain_data g = []" "windows g = windows w1" "ver g = ver w1"
    "grain_updated w1 < grain_updated g" "trace g = trace w1" "model_settings g = model_settings w1"
    by (simp_all add: g_def node_behaviour_grain_guard_def strictly_increasing_update_def
        less_Suc_eq_le)
  have w3: "events w3 = grain_data w1" "ver w3 = ver w1"
    "grain_data w3 = arrivals (take 1 (windows w1))" "windows w3 = drop 1 (windows w1)"
    "trace w3 = trace w1" "model_settings w3 = model_settings w1"
    by (simp_all add: w3_def unlocked_frame grain_data_unlocked windows_unlocked g)
  have up3: "grain_updated w1 < grain_updated w3"
    using grain_updated_unlocked [of g] g(5) unfolding w3_def by linarith
  from assms have body: "peer_to_peer_body w = Continue u"
    by (simp add: peer_to_peer_body_def Let_def u_def w3_def g_def)
  have "ver u = update_versions (grain_data w1) (ver w1) \<and>
        trace u = trace w1 @
          (if no_priority \<noteq> pri (model_settings w1) then [Update_service (Some (ver u))] else []) \<and>
        events u = [] \<and>
        grain_data u = arrivals (take 1 (windows w1)) \<and>
        windows u = drop 1 (windows w1) \<and>
        grain_updated u = grain_updated w3 \<and>
        most_recent_update u = grain_updated u"
    unfolding u_def
    by (simp add: Let_def node_behaviour_grain_guard_dtor_def update_node_service_def w3)
  with up3 body show ?thesis by simp
qed

text \<open>
  Claim C1. Every drain cycle, of initial registration, registered operation and
  peer-to-peer operation alike, starts with the guard's swap: in one step under the lock
  (no other thread acts in between) the local buffer, empty, is exchanged with the
  grain's events and the grain's \<open>updated\<close> is bumped. When the guard is destroyed with
  events left in the local buffer, it puts them back in front of the events that have
  arrived meanwhile and bumps \<open>updated\<close> again; with none left the grain keeps what has
  arrived. What other threads insert during a wait is appended to the grain.

  A turn of the loop of registered operation that finds no flag set and its client made
  is one cycle. For a whole cycle: the events the grain held split into those processed
  and those left in the local buffer when the inner loop ended (\<open>events d\<close>); the request
  of every processed event has been made, in their order; events are left only when a
  flag stopped the loop; the grain afterwards holds the events left followed by exactly
  what other threads inserted in the \<open>k\<close> windows the cycle went through, so nothing is
  lost and the order is kept; \<open>updated\<close> has grown, and when events are left it has been
  bumped after the loop and is past \<^verbatim>\<open>most_recent_update\<close>, so that the next wait
  returns at once. The same holds for a turn of initial registration, where the
  processed events are the discarded ones and the registered node. A turn of
  peer-to-peer operation that goes on counts every event the grain held at the swap,
  publishes the versions, leaves none in the local buffer, and the grain keeps what
  arrived while the lock was released.
\<close>

theorem drain_cycle_restores_unprocessed_events:
  "(let g = node_behaviour_grain_guard (w\<lparr>events := []\<rparr>)
    in events g = grain_data w \<and> grain_data g = [] \<and> grain_updated w < grain_updated g \<and>
       windows g = windows w) \<and>
   (events v \<noteq> [] \<longrightarrow>
     (let d = node_behaviour_grain_guard_dtor v
      in grain_data d = events v @ grain_data v \<and> grain_updated v < grain_updated d \<and>
         windows d = windows v)) \<and>
   node_behaviour_grain_guard_dtor (v\<lparr>events := []\<rparr>) = v\<lparr>events := []\<rparr> \<and>
   (condition_wait pred w0 = Woken w \<longrightarrow>
      (\<exists>j. windows w = drop j (windows w0) \<and>
           grain_data w = grain_data w0 @ arrivals (take j (windows w0)) \<and>
           grain_updated w0 \<le> grain_updated w)) \<and>
   (condition_wait registered_operation_wake w0 = Woken w \<longrightarrow>
    \<not> shutdown w \<longrightarrow> \<not> registration_service_error w \<longrightarrow> \<not> node_unregistered w \<longrightarrow>
    registration_services w = (p, base) # rs \<longrightarrow> client w = Some base \<longrightarrow>
      registered_operation_body w0 = Continue (registered_operation_drain_cycle base w)) \<and>
   (let g = node_behaviour_grain_guard (w\<lparr>events := []\<rparr>);
        d = registered_operation_drain base (events g) (g\<lparr>most_recent_update := grain_updated g\<rparr>);
        w' = registered_operation_drain_cycle base w
    in \<exists>processed k new.
         grain_data w = processed @ events d \<and>
         trace w' = trace w @ new \<and>
         subseq (map (\<lambda>e. Request (event_request base e)) processed) new \<and>
         (events d \<noteq> [] \<longrightarrow>
            shutdown d \<or> registration_service_error d \<or> node_unregistered d) \<and>
         grain_data w' = events d @ arrivals (take k (windows w)) \<and>
         windows w' = drop k (windows w) \<and>
         grain_updated w < grain_updated w' \<and>
         (events d \<noteq> [] \<longrightarrow>
            grain_updated d < grain_updated w' \<and> most_recent_update w' < grain_updated w')) \<and>
   (condition_wait initial_registration_wake w0 = Woken w \<longrightarrow>
    \<not> shutdown w \<longrightarrow> \<not> registration_service_error w \<longrightarrow> \<not> node_registered w \<longrightarrow>
    registration_services w = (p, base) # rs \<longrightarrow>
      initial_registration_body w0 = Continue (initial_registration_attempt base w)) \<and>
   (let g = node_behaviour_grain_guard (w\<lparr>client := Some base, events := []\<rparr>);
        d = initial_registration_drain base (events g) g;
        w' = initial_registration_attempt base w
    in \<exists>processed k new.
         grain_data w = processed @ events d \<and>
         trace w' = trace w @ new \<and>
         subseq (map (\<lambda>e. Request (event_request base e)) (filter node_creation processed)) new \<and>
         (events d \<noteq> [] \<longrightarrow>
            shutdown d \<or> registration_service_error d \<or> node_registered d) \<and>
         grain_data w' = events d @ arrivals (take k (windows w)) \<and>
         windows w' = drop k (windows w) \<and>
         grain_updated w < grain_updated w' \<and>
         (events d \<noteq> [] \<longrightarrow>
            grain_updated d < grain_updated w' \<and> most_recent_update w' < grain_updated w')) \<and>
   (condition_wait peer_to_peer_wake w0 = Woken w \<longrightarrow>
    \<not> shutdown w \<longrightarrow> \<not> registration_services_discovered w \<longrightarrow>
      (\<exists>u. peer_to_peer_body w0 = Continue u \<and>
           ver u = update_versions (grain_data w) (ver w) \<and>
           trace u = trace w @
             (if no_priority \<noteq> pri (model_settings w) then [Update_service (Some (ver u))] else []) \<and>
           events u = [] \<and>
           grain_data u = arrivals (take 1 (windows w)) \<and>
           windows u = drop 1 (windows w) \<and>
           grain_updated w < grain_updated u \<and>
           most_recent_update u = grain_updated u))"
proof -
  have a: "let g = node_behaviour_grain_guard (w\<lparr>events := []\<rparr>)
    in events g = grain_data w \<and> grain_data g = [] \<and> grain_updated w < grain_updated g \<and>
       windows g = windows w"
    by (simp add: node_behaviour_grain_guard_def strictly_increasing_update_def Let_def)
  have b: "events v \<noteq> [] \<longrightarrow>
     (let d = node_behaviour_grain_guard_dtor v
      in grain_data d = events v @ grain_data v \<and> grain_updated v < grain_updated d \<and>
         windows d = windows v)"
    by (auto simp: node_behaviour_grain_guard_dtor_def strictly_increasing_update_def Let_def
        less_Suc_eq_le)
  have c: "node_behaviour_grain_guard_dtor (v\<lparr>events := []\<rparr>) = v\<lparr>events := []\<rparr>"
    by (simp add: node_behaviour_grain_guard_dtor_def)
  have wt: "condition_wait pred w0 = Woken w \<longrightarrow>
      (\<exists>j. windows w = drop j (windows w0) \<and>
           grain_data w = grain_data w0 @ arrivals (take j (windows w0)) \<and>
           grain_updated w0 \<le> grain_updated w)"
    using condition_wait_grain [of pred w0 w] by blast
  have rl: "condition_wait registered_operation_wake w0 = Woken w \<longrightarrow>
    \<not> shutdown w \<longrightarrow> \<not> registration_service_error w \<longrightarrow> \<not> node_unregistered w \<longrightarrow>
    registration_services w = (p, base) # rs \<longrightarrow> client w = Some base \<longrightarrow>
      registered_operation_body w0 = Continue (registered_operation_drain_cycle base w)"
    using registered_operation_body_cycle [of w0 w p base rs] by blast
  note d = registered_operation_drain_cycle_run [where w = w and base = base]
  have il: "condition_wait initial_registration_wake w0 = Woken w \<longrightarrow>
    \<not> shutdown w \<longrightarrow> \<not> registration_service_error w \<longrightarrow> \<not> node_registered w \<longrightarrow>
    registration_services w = (p, base) # rs \<longrightarrow>
      initial_registration_body w0 = Continue (initial_registration_attempt base w)"
    using initial_registration_body_cycle [of w0 w p base rs] by blast
  note e = initial_registration_attempt_run [where w = w and base = base]
  have f: "condition_wait peer_to_peer_wake w0 = Woken w \<longrightarrow>
    \<not> shutdown w \<longrightarrow> \<not> registration_services_discovered w \<longrightarrow>
      (\<exists>u. peer_to_peer_body w0 = Continue u \<and>
           ver u = update_versions (grain_data w) (ver w) \<and>
           trace u = trace w @
             (if no_priority \<noteq> pri (model_settings w) then [Update_service (Some (ver u))] else []) \<and>
           events u = [] \<and>
           grain_data u = arrivals (take 1 (windows w)) \<and>
           windows u = drop 1 (windows w) \<and>
           grain_updated w < grain_updated u \<and>
           most_recent_update u = grain_updated u)"
    using peer_to_peer_body_turn [of w0 w] by blast
  show ?thesis
    by (intro conjI, (rule a b c wt rl d il e f)+)
qed

theorem drain_cycle_restores_unprocessed_events_witness:
  "events c1_stopped \<noteq> [] \<and>
   (let d = node_behaviour_grain_guard_dtor c1_stopped
    in grain_data d = events c1_stopped @ grain_data c1_stopped \<and>
       grain_updated c1_stopped < grain_updated d \<and> windows d = windows c1_stopped) \<and>
   condition_wait registered_operation_wake c1_world = Woken c1_world \<and>
   registered_operation_body c1_world =
     Continue (registered_operation_drain_cycle registry_a c1_world) \<and>
   (let g = node_behaviour_grain_guard (c1_world\<lparr>events := []\<rparr>);
        d = registered_operation_drain registry_a (events g) (g\<lparr>most_recent_update := grain_updated g\<rparr>);
        w' = registered_operation_drain_cycle registry_a c1_world
    in events d = [c1_sender] \<and> registration_service_error d \<and>
       grain_data w' = [c1_sender, c1_flow] \<and> windows w' = [] \<and>
       grain_updated c1_world < grain_updated w' \<and>
       grain_updated d < grain_updated w' \<and> most_recent_update w' < grain_updated w') \<and>
   condition_wait initial_registration_wake c1_registering = Woken c1_registering \<and>
   initial_registration_body c1_registering =
     Continue (initial_registration_attempt registry_a c1_registering) \<and>
   (let g = node_behaviour_grain_guard (c1_registering\<lparr>client := Some registry_a, events := []\<rparr>);
        d = initial_registration_drain registry_a (events g) g;
        w' = initial_registration_attempt registry_a c1_registering
    in events d = [c1_sender] \<and> node_registered d \<and>
       grain_data w' = [c1_sender, c1_flow] \<and> windows w' = [] \<and>
       grain_updated c1_registering < grain_updated w' \<and>
       grain_updated d < grain_updated w' \<and> most_recent_update w' < grain_updated w') \<and>
   (\<exists>w1 u. condition_wait peer_to_peer_wake c1_peer_to_peer = Woken w1 \<and>
      \<not> shutdown w1 \<and> \<not> registration_services_discovered w1 \<and>
      grain_data w1 = [c1_sender, c1_device] \<and>
      (\<exists>j. windows w1 = drop j (windows c1_peer_to_peer) \<and>
           grain_data w1 = grain_data c1_peer_to_peer @ arrivals (take j (windows c1_peer_to_peer)) \<and>
           grain_updated c1_peer_to_peer \<le> grain_updated w1) \<and>
      peer_to_peer_body c1_peer_to_peer = Continue u \<and>
      ver u = update_versions [c1_sender, c1_device] initial_versions \<and>
      events u = [] \<and> grain_data u = [c1_flow] \<and> windows u = [] \<and>
      grain_updated w1 < grain_updated u \<and>
      most_recent_update u = grain_updated u)"
proof -
  have ne: "events c1_stopped \<noteq> []"
    by (simp add: c1_stopped_def)
  note th1 = drain_cycle_restores_unprocessed_events [where w = c1_world and v = c1_stopped
      and base = registry_a and ?w0.0 = c1_world and p = 100 and rs = "[]"]
  note th2 = drain_cycle_restores_unprocessed_events [where w = c1_registering and v = c1_stopped
      and base = registry_a and ?w0.0 = c1_registering and p = 100 and rs = "[]"]
  have A: "let d = node_behaviour_grain_guard_dtor c1_stopped
    in grain_data d = events c1_stopped @ grain_data c1_stopped \<and>
       grain_updated c1_stopped < grain_updated d \<and> windows d = windows c1_stopped"
    using th1 [THEN conjunct2, THEN conjunct1, THEN mp, OF ne] .
  have r1: "condition_wait registered_operation_wake c1_world = Woken c1_world"
    by (rule condition_wait_ready)
      (simp add: registered_operation_wake_def c1_world_def quiet_world_def)
  have r2: "\<not> shutdown c1_world" and r3: "\<not> registration_service_error c1_world"
    and r4: "\<not> node_unregistered c1_world"
    and r5: "registration_services c1_world = (100, registry_a) # []"
    and r6: "client c1_world = Some registry_a"
    by (simp_all add: c1_world_def quiet_world_def)
  note R = th1 [THEN conjunct2, THEN conjunct2, THEN conjunct2, THEN conjunct2, THEN conjunct1,
      THEN mp, THEN mp, THEN mp, THEN mp, THEN mp, THEN mp, OF r1 r2 r3 r4 r5 r6]
  define g where "g = node_behaviour_grain_guard (c1_world\<lparr>events := []\<rparr>)"
  define d where "d = registered_operation_drain registry_a (events g) (g\<lparr>most_recent_update := grain_updated g\<rparr>)"
  define w' where "w' = registered_operation_drain_cycle registry_a c1_world"
  have ro: "events d = [c1_sender]" "registration_service_error d"
    "grain_data w' = [c1_sender, c1_flow]" "windows w' = []"
    unfolding d_def g_def w'_def by code_simp+
  from ro(1) have ro_ne: "events d \<noteq> []" by simp
  from th1 [THEN conjunct2, THEN conjunct2, THEN conjunct2, THEN conjunct2, THEN conjunct2,
      THEN conjunct1]
  obtain processed k new where
    "grain_updated c1_world < grain_updated w'"
    "events d \<noteq> [] \<longrightarrow>
       grain_updated d < grain_updated w' \<and> most_recent_update w' < grain_updated w'"
    unfolding Let_def g_def [symmetric] d_def [symmetric] w'_def [symmetric] by blast
  with ro_ne have ro_up: "grain_updated c1_world < grain_updated w'"
    "grain_updated d < grain_updated w'" "most_recent_update w' < grain_updated w'"
    by simp_all
  have B: "let g = node_behaviour_grain_guard (c1_world\<lparr>events := []\<rparr>);
        d = registered_operation_drain registry_a (events g) (g\<lparr>most_recent_update := grain_updated g\<rparr>);
        w' = registered_operation_drain_cycle registry_a c1_world
    in events d = [c1_sender] \<and> registration_service_error d \<and>
       grain_data w' = [c1_sender, c1_flow] \<and> windows w' = [] \<and>
       grain_updated c1_world < grain_updated w' \<and>
       grain_updated d < grain_updated w' \<and> most_recent_update w' < grain_updated w'"
    unfolding Let_def g_def [symmetric] d_def [symmetric] w'_def [symmetric]
    by (intro conjI, (rule ro ro_up)+)
  have i1: "condition_wait initial_registration_wake c1_registering = Woken c1_registering"
    by (rule condition_wait_ready)
      (simp add: initial_registration_wake_def c1_registering_def quiet_world_def)
  have i2: "\<not> shutdown c1_registering" and i3: "\<not> registration_service_error c1_registering"
    and i4: "\<not> node_registered c1_registering"
    and i5: "registration_services c1_registering = (100, registry_a) # []"
    by (simp_all add: c1_registering_def quiet_world_def)
  note I = th2 [THEN conjunct2, THEN conjunct2, THEN conjunct2, THEN conjunct2, THEN conjunct2,
      THEN conjunct2, THEN conjunct1, THEN mp, THEN mp, THEN mp, THEN mp, THEN mp,
      OF i1 i2 i3 i4 i5]
  define h where "h = node_behaviour_grain_guard (c1_registering\<lparr>client := Some registry_a, events := []\<rparr>)"
  define e where "e = initial_registration_drain registry_a (events h) h"
  define v' where "v' = initial_registration_attempt registry_a c1_registering"
  have ir: "events e = [c1_sender]" "node_registered e"
    "grain_data v' = [c1_sender, c1_flow]" "windows v' = []"
    unfolding e_def h_def v'_def by code_simp+
  from ir(1) have ir_ne: "events e \<noteq> []" by simp
  from th2 [THEN conjunct2, THEN conjunct2, THEN conjunct2, THEN conjunct2, THEN conjunct2,
      THEN conjunct2, THEN conjunct2, THEN conjunct1]
  obtain processed k new where
    "grain_updated c1_registering < grain_updated v'"
    "events e \<noteq> [] \<longrightarrow>
       grain_updated e < grain_updated v' \<and> most_recent_update v' < grain_updated v'"
    unfolding Let_def h_def [symmetric] e_def [symmetric] v'_def [symmetric] by blast
  with ir_ne have ir_up: "grain_updated c1_registering < grain_updated v'"
    "grain_updated e < grain_updated v'" "most_recent_update v' < grain_updated v'"
    by simp_all
  have C: "let g = node_behaviour_grain_guard (c1_registering\<lparr>client := Some registry_a, events := []\<rparr>);
        d = initial_registration_drain registry_a (events g) g;
        w' = initial_registration_attempt registry_a c1_registering
    in events d = [c1_sender] \<and> node_registered d \<and>
       grain_data w' = [c1_sender, c1_flow] \<and> windows w' = [] \<and>
       grain_updated c1_registering < grain_updated w' \<and>
       grain_updated d < grain_updated w' \<and> most_recent_update w' < grain_updated w'"
    unfolding Let_def h_def [symmetric] e_def [symmetric] v'_def [symmetric]
    by (intro conjI, (rule ir ir_up)+)
  have "woken (condition_wait peer_to_peer_wake c1_peer_to_peer) \<noteq> None"
    by code_simp
  then obtain w1 where p1: "condition_wait peer_to_peer_wake c1_peer_to_peer = Woken w1"
    by (cases "condition_wait peer_to_peer_wake c1_peer_to_peer") simp_all
  have "map_option shutdown (woken (condition_wait peer_to_peer_wake c1_peer_to_peer)) = Some False"
    "map_option registration_services_discovered
       (woken (condition_wait peer_to_peer_wake c1_peer_to_peer)) = Some False"
    "map_option grain_data (woken (condition_wait peer_to_peer_wake c1_peer_to_peer)) =
       Some [c1_sender, c1_device]"
    "map_option ver (woken (condition_wait peer_to_peer_wake c1_peer_to_peer)) =
       Some initial_versions"
    "map_option windows (woken (condition_wait peer_to_peer_wake c1_peer_to_peer)) =
       Some [[Resource_events [c1_flow]]]"
    by code_simp+
  with p1 have p2: "\<not> shutdown w1" and p3: "\<not> registration_services_discovered w1"
    and p4: "grain_data w1 = [c1_sender, c1_device]" and p5: "ver w1 = initial_versions"
    and p6: "windows w1 = [[Resource_events [c1_flow]]]"
    by simp_all
  note th3 = drain_cycle_restores_unprocessed_events [where w = w1 and v = c1_stopped
      and base = registry_a and ?w0.0 = c1_peer_to_peer and p = 100 and rs = "[]"
      and pred = peer_to_peer_wake]
  note W = th3 [THEN conjunct2, THEN conjunct2, THEN conjunct2, THEN conjunct1, THEN mp, OF p1]
  from th3 [THEN conjunct2, THEN conjunct2, THEN conjunct2, THEN conjunct2, THEN conjunct2,
      THEN conjunct2, THEN conjunct2, THEN conjunct2, THEN mp, THEN mp, THEN mp, OF p1 p2 p3]
  obtain u where u: "peer_to_peer_body c1_peer_to_peer = Continue u"
    and u1: "ver u = update_versions (grain_data w1) (ver w1)"
    and u2: "events u = []"
    and u3: "grain_data u = arrivals (take 1 (windows w1))"
    and u4: "windows u = drop 1 (windows w1)"
    and u5: "grain_updated w1 < grain_updated u"
    and u6: "most_recent_update u = grain_updated u"
    by blast
  have u1': "ver u = update_versions [c1_sender, c1_device] initial_versions"
    using u1 by (simp add: p4 p5)
  have u3': "grain_data u = [c1_flow]"
    using u3 by (simp add: p6 arrivals_def)
  have u4': "windows u = []"
    using u4 by (simp add: p6)
  have D: "\<exists>w1 u. condition_wait peer_to_peer_wake c1_peer_to_peer = Woken w1 \<and>
      \<not> shutdown w1 \<and> \<not> registration_services_discovered w1 \<and>
      grain_data w1 = [c1_sender, c1_device] \<and>
      (\<exists>j. windows w1 = drop j (windows c1_peer_to_peer) \<and>
           grain_data w1 = grain_data c1_peer_to_peer @ arrivals (take j (windows c1_peer_to_peer)) \<and>
           grain_updated c1_peer_to_peer \<le> grain_updated w1) \<and>
      peer_to_peer_body c1_peer_to_peer = Continue u \<and>
      ver u = update_versions [c1_sender, c1_device] initial_versions \<and>
      events u = [] \<and> grain_data u = [c1_flow] \<and> windows u = [] \<and>
      grain_updated w1 < grain_updated u \<and>
      most_recent_update u = grain_updated u"
    by (intro exI [of _ w1] exI [of _ u] conjI, (rule p1 p2 p3 p4 W u u1' u2 u3' u4' u5 u6)+)
  show ?thesis
    by (intro conjI, (rule ne A r1 R B i1 I C D)+)
qed

section \<open>The registration client: creation on 200\<close>

lemma creation_on_200:
  assumes creation: "ev_type ev = resource_added_event \<or> ev_type ev = resource_unchanged_event"
    and first: "responses w = Response 200 # rest"
  shows "trace (snd (request_registration base ev w)) =
           trace w @ [Request (post_resource base (creation_body base ev)),
                      Request (delete_resource base (ev_path ev))] @
             (if answered_without_server_error rest
              then [Request (post_resource base (creation_body base ev))] else [])"
    and "(fst (request_registration base ev w) = Inr ()) =
           (answered_without_server_error rest \<and> answered_without_server_error (tl rest))"
  using assms
  by (auto simp: request_registration_def Let_def creation_first_response_def
      creation_final_response_def client_request_def handle_registration_error_conditions_def
      get_resource_event_type_def creation_body_def answered_without_server_error_def
      is_server_error_status_code_def
      split: list.splits http_result.splits prod.splits sum.splits)

text \<open>
  Claim C2, as stated, fails: a creation gets 200, the DELETE gets 204 and the retried
  POST gets 503. The response to the retry goes through
  \<^verbatim>\<open>handle_registration_error_conditions\<close> like any other, which throws on a 5xx: the
  event stays in the buffer and \<^verbatim>\<open>registration_service_error\<close> is set.
\<close>

theorem retried_creation_not_consumed:
  "map (\<lambda>a. case a of Request q \<Rightarrow> (req_method q, req_path q) | _ \<Rightarrow> (POST, [])) (trace (registered_operation_drain registry_a [c2_event] c2_world)) =
     [(POST, ''/resource''), (DEL, ''/resource/devices/D1''), (POST, ''/resource'')] \<and>
   events (registered_operation_drain registry_a [c2_event] c2_world) = [c2_event] \<and>
   registration_service_error (registered_operation_drain registry_a [c2_event] c2_world)"
  by code_simp

text \<open>
  Claim C2, amended. For every creation request (event kind \<open>added\<close> or \<open>sync\<close>) whose POST
  gets 200, the client issues exactly one DELETE of the same resource path; when the
  DELETE is answered with a status that is not 5xx, exactly one retry of the original
  POST follows, and no retry otherwise. The event is consumed (the drain goes on with the
  events after it) exactly when the DELETE and the retry are both answered with a status
  that is not 5xx; otherwise the event stays at the front of the buffer and
  \<^verbatim>\<open>registration_service_error\<close> is set.
\<close>

theorem out_of_sync_creation:
  assumes "ev_type ev = resource_added_event \<or> ev_type ev = resource_unchanged_event"
    and "responses w = Response 200 # rest"
    and "\<not> shutdown w" and "\<not> registration_service_error w" and "\<not> node_unregistered w"
  shows "let r = request_registration base ev (unlocked w);
             consumed = (answered_without_server_error rest \<and> answered_without_server_error (tl rest))
         in trace (snd r) =
              trace w @ [Request (post_resource base (creation_body base ev)),
                         Request (delete_resource base (ev_path ev))] @
                (if answered_without_server_error rest
                 then [Request (post_resource base (creation_body base ev))] else []) \<and>
            (fst r = Inr ()) = consumed \<and>
            (if consumed
             then registered_operation_drain base (ev # es) w =
                    registered_operation_drain base es (snd r)
             else events (registered_operation_drain base (ev # es) w) = ev # es \<and>
                  registration_service_error (registered_operation_drain base (ev # es) w))"
proof -
  let ?r = "request_registration base ev (unlocked w)"
  have first: "responses (unlocked w) = Response 200 # rest"
    using assms(2) by (simp add: unlocked_frame)
  note on200 = creation_on_200 [OF assms(1) first, of base]
  have tr: "trace (snd ?r) =
              trace w @ [Request (post_resource base (creation_body base ev)),
                         Request (delete_resource base (ev_path ev))] @
                (if answered_without_server_error rest
                 then [Request (post_resource base (creation_body base ev))] else [])"
    using on200(1) by (simp add: unlocked_frame)
  have not_removed: "resource_removed_event \<noteq> get_resource_event_type ev"
    using assms(1) by (auto simp: get_resource_event_type_def)
  have flags: "\<not> shutdown (unlocked w) \<or> True" by simp
  show ?thesis
  proof (cases "answered_without_server_error rest \<and> answered_without_server_error (tl rest)")
    case True
    then have c: "(answered_without_server_error rest \<and> answered_without_server_error (tl rest)) = True"
      by simp
    from True on200(2) have ok: "fst ?r = Inr ()" by simp
    then obtain w1 where r: "?r = (Inr (), w1)" by (cases ?r) auto
    have "registered_operation_drain base (ev # es) w = registered_operation_drain base es w1"
      using assms(3-5) r not_removed by (simp add: Let_def)
    with tr ok r show ?thesis
      unfolding Let_def c by simp
  next
    case False
    then have c: "(answered_without_server_error rest \<and> answered_without_server_error (tl rest)) = False"
      by simp
    from False on200(2) have "fst ?r \<noteq> Inr ()" by simp
    then obtain e w1 where r: "?r = (Inl e, w1)" by (cases ?r; cases "fst ?r") auto
    have "registered_operation_drain base (ev # es) w = w1\<lparr>registration_service_error := True, events := ev # es\<rparr>"
      using assms(3-5) r by (simp add: Let_def)
    with tr r show ?thesis
      unfolding Let_def c by simp
  qed
qed

theorem out_of_sync_creation_witness:
  "(ev_type c2_event = resource_added_event \<or> ev_type c2_event = resource_unchanged_event) \<and>
   responses c2_world = Response 200 # [Response 204, Response 503] \<and>
   \<not> shutdown c2_world \<and> \<not> registration_service_error c2_world \<and> \<not> node_unregistered c2_world \<and>
   (let r = request_registration registry_a c2_event (unlocked c2_world);
        consumed = (answered_without_server_error [Response 204, Response 503] \<and>
                    answered_without_server_error (tl [Response 204, Response 503]))
    in trace (snd r) =
         trace c2_world @ [Request (post_resource registry_a (creation_body registry_a c2_event)),
                    Request (delete_resource registry_a (ev_path c2_event))] @
           (if answered_without_server_error [Response 204, Response 503]
            then [Request (post_resource registry_a (creation_body registry_a c2_event))] else []) \<and>
       (fst r = Inr ()) = consumed \<and>
       (if consumed
        then registered_operation_drain registry_a (c2_event # []) c2_world =
               registered_operation_drain registry_a [] (snd r)
        else events (registered_operation_drain registry_a (c2_event # []) c2_world) = c2_event # [] \<and>
             registration_service_error (registered_operation_drain registry_a (c2_event # []) c2_world)))"
proof -
  have h1: "ev_type c2_event = resource_added_event \<or> ev_type c2_event = resource_unchanged_event"
    by (simp add: c2_event_def example_event_def)
  have h2: "responses c2_world = Response 200 # [Response 204, Response 503]"
    by (simp add: c2_world_def)
  have h3: "\<not> shutdown c2_world" and h4: "\<not> registration_service_error c2_world"
    and h5: "\<not> node_unregistered c2_world"
    by (simp_all add: c2_world_def quiet_world_def)
  from h1 h2 h3 h4 h5 out_of_sync_creation [OF h1 h2 h3 h4 h5, of registry_a "[]"]
  show ?thesis by blast
qed

section \<open>The discovery backoff\<close>

lemma discover_frame:
  "trace (discover w) = trace w" "shutdown (discover w) = shutdown w"
  "discovery_backoff (discover w) = discovery_backoff w"
  "model_settings (discover w) = model_settings w"
  "agent_mode (discover w) = agent_mode w"
  "windows (discover w) = windows w"
  "discoveries (discover w) = tl (discoveries w)"
  "registration_services (discover w) =
     discovered_services (case discoveries w of [] \<Rightarrow> [] | d # ds \<Rightarrow> multimap_of d)
       (get_registration_service (model_settings w))"
  by (simp_all add: discover_def discover_registration_services_def resolve_service_def
      split: list.splits prod.splits)

text \<open>
  Claim C3, as stated, fails. The multiplication is in the branch of a discovery that
  found a Registration API; one that finds none leaves the backoff as it is and goes to
  peer-to-peer operation. Here the browse resolves nothing: the backoff stays 0 where
  the claim's update gives 1. The run goes on: the background discovery of peer-to-peer
  operation finds a registry, the initial registration with it fails (no answer), and
  the agent is back in initial discovery with the backoff still 0, after two failed
  attempts.
\<close>

theorem failed_attempts_keep_backoff:
  "map_option registration_services (outcome_world (node_behaviour_switch 1 c3_world)) = Some [] \<and>
   map_option agent_mode (outcome_world (node_behaviour_switch 1 c3_world)) =
     Some mode_peer_to_peer_operation \<and>
   map_option discovery_backoff (outcome_world (node_behaviour_switch 1 c3_world)) = Some 0 \<and>
   next_discovery_backoff (model_settings c3_world) (discovery_backoff c3_world) = 1 \<and>
   map_option agent_mode (outcome_world (node_behaviour_loop 2 5 c3_world)) =
     Some mode_initial_registration \<and>
   map_option agent_mode (outcome_world (node_behaviour_loop 3 5 c3_world)) =
     Some mode_initial_discovery \<and>
   map_option registration_services (outcome_world (node_behaviour_loop 3 5 c3_world)) = Some [] \<and>
   map_option discovery_backoff (outcome_world (node_behaviour_loop 3 5 c3_world)) = Some 0"
  by code_simp

text \<open>
  The backoff is a \<^verbatim>\<open>double\<close> and the wait a whole number of milliseconds. With the
  factor read from \<open>1.001\<close> and a backoff of one second, the next backoff is the double
  nearest to the product, just below \<open>1.001\<close>, and the wait it leads to is 1000 ms, where
  exact arithmetic gives 1001.
\<close>

lemma rounded_backoff_and_wait:
  "map_option discovery_backoff (outcome_world (node_behaviour_switch 1 c3_rounded)) =
     Some (2254051613498933 / 2251799813685248) \<and>
   map_option trace (outcome_world (node_behaviour_switch 1 c3_rounded)) = Some [Wait_for 1000] \<and>
   milliseconds_rep (double_mult (double_of_int 1000) (2254051613498933 / 2251799813685248)) = 1000 \<and>
   \<lfloor>1000 * (1001 / 1000 :: real)\<rfloor> = 1001"
  by code_simp

text \<open>
  Claim C3, amended. The backoff is 0 when the thread starts. In initial discovery the
  agent first waits when the backoff is not 0, for the backoff in whole milliseconds (the
  double product \<open>1000 * backoff\<close> without its fraction), releasing the lock once; if the
  server was shut down during the wait it makes no discovery attempt (no browse is
  consumed) and mode and backoff stay. Otherwise it makes its attempt, one browse, after
  the wait: an attempt that finds at least one Registration API sets the backoff to
  \<open>min (max discovery_backoff_min (backoff * discovery_backoff_factor)) discovery_backoff_max\<close>,
  the product rounded to a double, and enters initial registration; an attempt that finds
  none leaves the backoff unchanged and enters peer-to-peer operation. When initial
  registration returns with a registry left (the agent enters registered operation) the
  backoff is reset to 0; when it returns with the list exhausted the backoff keeps its
  value and the agent is back in initial discovery.
\<close>

theorem discovery_backoff_updates:
  "discovery_backoff (node_behaviour_start w0) = 0 \<and>
   (agent_mode w = mode_initial_discovery \<longrightarrow>
      (\<exists>w'. node_behaviour_switch n w = Returned w' \<and>
        trace w' = trace w @
          (if discovery_backoff w \<noteq> 0
           then [Wait_for (milliseconds_rep (round_to_double (1000 * discovery_backoff w)))] else []) \<and>
        windows w' = (if discovery_backoff w \<noteq> 0 then tl (windows w) else windows w) \<and>
        (if discovery_backoff w \<noteq> 0 \<and> shutdown w'
         then agent_mode w' = mode_initial_discovery \<and> discovery_backoff w' = discovery_backoff w \<and>
              discoveries w' = discoveries w
         else discoveries w' = tl (discoveries w) \<and>
              registration_services w' =
                discovered_services (case discoveries w of [] \<Rightarrow> [] | d # ds \<Rightarrow> multimap_of d)
                  (get_registration_service (model_settings w)) \<and>
              (if registration_services w' \<noteq> []
               then agent_mode w' = mode_initial_registration \<and>
                    discovery_backoff w' =
                      min (max (round_to_double (of_int (discovery_backoff_min (model_settings w))))
                               (round_to_double
                                  (discovery_backoff w * discovery_backoff_factor (model_settings w))))
                          (round_to_double (of_int (discovery_backoff_max (model_settings w))))
               else agent_mode w' = mode_peer_to_peer_operation \<and>
                    discovery_backoff w' = discovery_backoff w)))) \<and>
   (agent_mode w = mode_initial_registration \<longrightarrow> node_behaviour_switch n w = Returned w' \<longrightarrow>
      (if registration_services w' \<noteq> []
       then agent_mode w' = mode_registered_operation \<and> discovery_backoff w' = 0
       else agent_mode w' = mode_initial_discovery \<and> discovery_backoff w' = discovery_backoff w))"
proof -
  have start: "discovery_backoff (node_behaviour_start w0) = 0"
    by (simp add: node_behaviour_start_def Let_def advertise_node_service_def)
  have disc: "agent_mode w = mode_initial_discovery \<longrightarrow>
      (\<exists>w'. node_behaviour_switch n w = Returned w' \<and>
        trace w' = trace w @
          (if discovery_backoff w \<noteq> 0
           then [Wait_for (milliseconds_rep (round_to_double (1000 * discovery_backoff w)))] else []) \<and>
        windows w' = (if discovery_backoff w \<noteq> 0 then tl (windows w) else windows w) \<and>
        (if discovery_backoff w \<noteq> 0 \<and> shutdown w'
         then agent_mode w' = mode_initial_discovery \<and> discovery_backoff w' = discovery_backoff w \<and>
              discoveries w' = discoveries w
         else discoveries w' = tl (discoveries w) \<and>
              registration_services w' =
                discovered_services (case discoveries w of [] \<Rightarrow> [] | d # ds \<Rightarrow> multimap_of d)
                  (get_registration_service (model_settings w)) \<and>
              (if registration_services w' \<noteq> []
               then agent_mode w' = mode_initial_registration \<and>
                    discovery_backoff w' =
                      min (max (round_to_double (of_int (discovery_backoff_min (model_settings w))))
                               (round_to_double
                                  (discovery_backoff w * discovery_backoff_factor (model_settings w))))
                          (round_to_double (of_int (discovery_backoff_max (model_settings w))))
               else agent_mode w' = mode_peer_to_peer_operation \<and>
                    discovery_backoff w' = discovery_backoff w)))"
    by (simp add: node_behaviour_switch_def Let_def discover_frame unlocked_frame unlocked_windows
        next_discovery_backoff_def std_max_max std_min_min double_mult_def double_of_int_def
        round_to_double_1000)
  have reg: "agent_mode w = mode_initial_registration \<longrightarrow> node_behaviour_switch n w = Returned w' \<longrightarrow>
      (if registration_services w' \<noteq> []
       then agent_mode w' = mode_registered_operation \<and> discovery_backoff w' = 0
       else agent_mode w' = mode_initial_discovery \<and> discovery_backoff w' = discovery_backoff w)"
  proof (intro impI)
    assume m: "agent_mode w = mode_initial_registration" and r: "node_behaviour_switch n w = Returned w'"
    from m r obtain w1 where w1: "initial_registration n w = Returned w1"
      and w': "w' = (if registration_services w1 \<noteq> []
                  then w1\<lparr>agent_mode := mode_registered_operation, discovery_backoff := 0\<rparr>
                  else w1\<lparr>agent_mode := mode_initial_discovery\<rparr>)"
      by (cases "initial_registration n w")
        (simp_all add: node_behaviour_switch_def after_operation_def after_initial_registration_def)
    have "discovery_backoff w1 = discovery_backoff w"
      using untouched_initial_registration [OF untouched_fields(2), of n w w1] w1 by simp
    with w' show "if registration_services w' \<noteq> []
       then agent_mode w' = mode_registered_operation \<and> discovery_backoff w' = 0
       else agent_mode w' = mode_initial_discovery \<and> discovery_backoff w' = discovery_backoff w"
      by simp
  qed
  from start disc reg show ?thesis by blast
qed


theorem discovery_backoff_updates_witness:
  "discovery_backoff (node_behaviour_start quiet_world) = 0 \<and>
   agent_mode c3_found = mode_initial_discovery \<and>
   discovery_backoff c3_found \<noteq> 0 \<and>
   (\<exists>w'. node_behaviour_switch 1 c3_found = Returned w' \<and>
      trace w' = trace c3_found @ [Wait_for 2000] \<and> windows w' = tl (windows c3_found) \<and>
      \<not> shutdown w' \<and> discoveries w' = tl (discoveries c3_found) \<and>
      registration_services w' = [(100, registry_a)] \<and>
      agent_mode w' = mode_initial_registration \<and> discovery_backoff w' = 3) \<and>
   agent_mode c3_shut_down = mode_initial_discovery \<and>
   discovery_backoff c3_shut_down \<noteq> 0 \<and>
   (\<exists>w'. node_behaviour_switch 1 c3_shut_down = Returned w' \<and>
      trace w' = trace c3_shut_down @ [Wait_for 2000] \<and> windows w' = tl (windows c3_shut_down) \<and>
      shutdown w' \<and> discoveries w' = discoveries c3_shut_down \<and>
      agent_mode w' = mode_initial_discovery \<and> discovery_backoff w' = 2) \<and>
   agent_mode c3_registering = mode_initial_registration \<and>
   (\<exists>w'. node_behaviour_switch 5 c3_registering = Returned w' \<and>
      registration_services w' \<noteq> [] \<and>
      agent_mode w' = mode_registered_operation \<and> discovery_backoff w' = 0)"
proof -
  have m1: "agent_mode c3_found = mode_initial_discovery" and b1: "discovery_backoff c3_found \<noteq> 0"
    and b2: "discovery_backoff c3_found = 2"
    and st: "model_settings c3_found = example_settings"
    and ds1: "discoveries c3_found = [[(100, registry_a)]]"
    by (simp_all add: c3_found_def quiet_world_def)
  have ms: "milliseconds_rep (round_to_double (1000 * 2)) = 2000"
    by code_simp
  have nx: "min (max (round_to_double (of_int 1)) (round_to_double (2 * (3 / 2))))
              (round_to_double (of_int 30)) = 3"
    by code_simp
  from discovery_backoff_updates [of quiet_world c3_found 1] m1 obtain w1 where
    r1: "node_behaviour_switch 1 c3_found = Returned w1"
    and t1: "trace w1 = trace c3_found @
          (if discovery_backoff c3_found \<noteq> 0
           then [Wait_for (milliseconds_rep (round_to_double (1000 * discovery_backoff c3_found)))] else [])"
    and i1: "windows w1 = (if discovery_backoff c3_found \<noteq> 0 then tl (windows c3_found) else windows c3_found)"
    and c1: "if discovery_backoff c3_found \<noteq> 0 \<and> shutdown w1
         then agent_mode w1 = mode_initial_discovery \<and> discovery_backoff w1 = discovery_backoff c3_found \<and>
              discoveries w1 = discoveries c3_found
         else discoveries w1 = tl (discoveries c3_found) \<and>
              registration_services w1 =
                discovered_services (case discoveries c3_found of [] \<Rightarrow> [] | d # ds \<Rightarrow> multimap_of d)
                  (get_registration_service (model_settings c3_found)) \<and>
              (if registration_services w1 \<noteq> []
               then agent_mode w1 = mode_initial_registration \<and>
                    discovery_backoff w1 =
                      min (max (round_to_double (of_int (discovery_backoff_min (model_settings c3_found))))
                               (round_to_double
                                  (discovery_backoff c3_found * discovery_backoff_factor (model_settings c3_found))))
                          (round_to_double (of_int (discovery_backoff_max (model_settings c3_found))))
               else agent_mode w1 = mode_peer_to_peer_operation \<and>
                    discovery_backoff w1 = discovery_backoff c3_found)"
    by blast
  have e1: "map_option shutdown (outcome_world (node_behaviour_switch 1 c3_found)) = Some False"
    "map_option registration_services (outcome_world (node_behaviour_switch 1 c3_found)) =
       Some [(100, registry_a)]"
    by code_simp+
  from e1 r1 have s1: "\<not> shutdown w1" and g1: "registration_services w1 = [(100, registry_a)]"
    by simp_all
  from c1 s1 g1 have a1: "agent_mode w1 = mode_initial_registration"
    and d1: "discovery_backoff w1 = 3" and k1: "discoveries w1 = tl (discoveries c3_found)"
    using nx by (simp_all add: b2 st example_settings_def)
  from t1 have t1': "trace w1 = trace c3_found @ [Wait_for 2000]"
    using ms by (simp add: b2)
  from i1 b1 have i1': "windows w1 = tl (windows c3_found)" by simp
  have m3: "agent_mode c3_shut_down = mode_initial_discovery"
    and b3: "discovery_backoff c3_shut_down \<noteq> 0" and b4: "discovery_backoff c3_shut_down = 2"
    by (simp_all add: c3_shut_down_def quiet_world_def)
  from discovery_backoff_updates [of quiet_world c3_shut_down 1] m3 obtain w3 where
    r3: "node_behaviour_switch 1 c3_shut_down = Returned w3"
    and t3: "trace w3 = trace c3_shut_down @
          (if discovery_backoff c3_shut_down \<noteq> 0
           then [Wait_for (milliseconds_rep (round_to_double (1000 * discovery_backoff c3_shut_down)))] else [])"
    and i3: "windows w3 = (if discovery_backoff c3_shut_down \<noteq> 0 then tl (windows c3_shut_down) else windows c3_shut_down)"
    and c3: "if discovery_backoff c3_shut_down \<noteq> 0 \<and> shutdown w3
         then agent_mode w3 = mode_initial_discovery \<and> discovery_backoff w3 = discovery_backoff c3_shut_down \<and>
              discoveries w3 = discoveries c3_shut_down
         else discoveries w3 = tl (discoveries c3_shut_down) \<and>
              registration_services w3 =
                discovered_services (case discoveries c3_shut_down of [] \<Rightarrow> [] | d # ds \<Rightarrow> multimap_of d)
                  (get_registration_service (model_settings c3_shut_down)) \<and>
              (if registration_services w3 \<noteq> []
               then agent_mode w3 = mode_initial_registration \<and>
                    discovery_backoff w3 =
                      min (max (round_to_double (of_int (discovery_backoff_min (model_settings c3_shut_down))))
                               (round_to_double
                                  (discovery_backoff c3_shut_down * discovery_backoff_factor (model_settings c3_shut_down))))
                          (round_to_double (of_int (discovery_backoff_max (model_settings c3_shut_down))))
               else agent_mode w3 = mode_peer_to_peer_operation \<and>
                    discovery_backoff w3 = discovery_backoff c3_shut_down)"
    by blast
  have "map_option shutdown (outcome_world (node_behaviour_switch 1 c3_shut_down)) = Some True"
    by code_simp
  with r3 have s3: "shutdown w3" by simp
  from c3 s3 b3 have a3: "agent_mode w3 = mode_initial_discovery"
    and d3: "discovery_backoff w3 = 2" and k3: "discoveries w3 = discoveries c3_shut_down"
    by (simp_all add: b4)
  from t3 have t3': "trace w3 = trace c3_shut_down @ [Wait_for 2000]"
    using ms by (simp add: b4)
  from i3 b3 have i3': "windows w3 = tl (windows c3_shut_down)" by simp
  have m2: "agent_mode c3_registering = mode_initial_registration"
    by (simp add: c3_registering_def)
  have "is_Returned (node_behaviour_switch 5 c3_registering)"
    by code_simp
  then obtain w2 where r2: "node_behaviour_switch 5 c3_registering = Returned w2"
    by (cases "node_behaviour_switch 5 c3_registering") simp_all
  have "map_option registration_services (outcome_world (node_behaviour_switch 5 c3_registering)) =
      Some [(100, registry_a)]"
    by code_simp
  with r2 have g2: "registration_services w2 \<noteq> []" by simp
  from discovery_backoff_updates [of quiet_world c3_registering 5 w2] m2 r2 g2
  have a2: "agent_mode w2 = mode_registered_operation" and d2: "discovery_backoff w2 = 0"
    by simp_all
  have start: "discovery_backoff (node_behaviour_start quiet_world) = 0"
    using discovery_backoff_updates [of quiet_world c3_registering 5 w2] by blast
  have A: "\<exists>w'. node_behaviour_switch 1 c3_found = Returned w' \<and>
      trace w' = trace c3_found @ [Wait_for 2000] \<and> windows w' = tl (windows c3_found) \<and>
      \<not> shutdown w' \<and> discoveries w' = tl (discoveries c3_found) \<and>
      registration_services w' = [(100, registry_a)] \<and>
      agent_mode w' = mode_initial_registration \<and> discovery_backoff w' = 3"
    using r1 t1' i1' s1 k1 g1 a1 d1 by (intro exI [of _ w1] conjI)
  have B: "\<exists>w'. node_behaviour_switch 1 c3_shut_down = Returned w' \<and>
      trace w' = trace c3_shut_down @ [Wait_for 2000] \<and> windows w' = tl (windows c3_shut_down) \<and>
      shutdown w' \<and> discoveries w' = discoveries c3_shut_down \<and>
      agent_mode w' = mode_initial_discovery \<and> discovery_backoff w' = 2"
    using r3 t3' i3' s3 k3 a3 d3 by (intro exI [of _ w3] conjI)
  have C: "\<exists>w'. node_behaviour_switch 5 c3_registering = Returned w' \<and>
      registration_services w' \<noteq> [] \<and>
      agent_mode w' = mode_registered_operation \<and> discovery_backoff w' = 0"
    using r2 g2 a2 d2 by (intro exI [of _ w2] conjI)
  show ?thesis
    by (intro conjI, (rule start m1 b1 A m3 b3 B m2 C)+)
qed

section \<open>The registry list is not empty where its top is taken\<close>

lemma top_registration_service_None: "(top_registration_service rs = None) = (rs = [])"
  by (cases rs) (simp_all add: top_registration_service_def)

lemma initial_registration_body_top: "initial_registration_body w \<noteq> Fault Top_of_empty"
  by (auto simp: initial_registration_body_def top_registration_service_None
      split: wait_result.splits option.splits)

lemma registered_operation_body_top: "registered_operation_body w \<noteq> Fault Top_of_empty"
  by (auto simp: registered_operation_body_def top_registration_service_None
      split: wait_result.splits option.splits)

lemma initial_registration_loop_top: "initial_registration_loop n w \<noteq> Crashed Top_of_empty"
proof (induction n arbitrary: w)
  case 0
  show ?case by simp
next
  case (Suc n)
  show ?case
    using Suc.IH initial_registration_body_top [of w]
    by (cases "initial_registration_body w") simp_all
qed

lemma registered_operation_loop_top: "registered_operation_loop n w \<noteq> Crashed Top_of_empty"
proof (induction n arbitrary: w)
  case 0
  show ?case by simp
next
  case (Suc n)
  show ?case
    using Suc.IH registered_operation_body_top [of w]
    by (cases "registered_operation_body w") simp_all
qed

text \<open>
  Claim C10. \<^verbatim>\<open>top_registration_service\<close> dereferences \<^verbatim>\<open>begin()\<close> without a check, so
  it needs a non-empty list (the model gives \<open>None\<close> exactly on the empty list, and the
  loops turn \<open>None\<close> into the fault \<open>Top_of_empty\<close>). Both call sites come after the
  \<^verbatim>\<open>registration_services.empty()\<close> test that breaks out of the loop: whatever the
  state at entry, the environment and the number of iterations, neither
  \<^verbatim>\<open>initial_registration\<close> nor \<^verbatim>\<open>registered_operation\<close> ends in that fault.
\<close>

theorem top_registration_service_never_on_empty:
  "(top_registration_service rs = None) = (rs = []) \<and>
   initial_registration n w \<noteq> Crashed Top_of_empty \<and>
   registered_operation n w \<noteq> Crashed Top_of_empty"
  by (simp add: top_registration_service_None initial_registration_def registered_operation_def
      initial_registration_loop_top registered_operation_loop_top)

theorem top_registration_service_never_on_empty_witness:
  "initial_registration 5 c10_world \<noteq> Crashed Top_of_empty \<and>
   registered_operation 5 c10_world \<noteq> Crashed Top_of_empty \<and>
   map_option registration_services (outcome_world (initial_registration 5 c10_world)) = Some [] \<and>
   map_option registration_services (outcome_world (registered_operation 5 c10_world)) = Some [] \<and>
   is_Returned (initial_registration 5 c10_world) \<and> is_Returned (registered_operation 5 c10_world)"
proof -
  have "map_option registration_services (outcome_world (initial_registration 5 c10_world)) = Some []"
    "map_option registration_services (outcome_world (registered_operation 5 c10_world)) = Some []"
    "is_Returned (initial_registration 5 c10_world)" "is_Returned (registered_operation 5 c10_world)"
    by code_simp+
  with top_registration_service_never_on_empty [of "[] :: uri multimap" 5 c10_world]
  show ?thesis by blast
qed

section \<open>The node's own id\<close>

text \<open>
  Claim C9, as stated, fails in its last part: \<^verbatim>\<open>self_id\<close> is assigned in every initial
  registration, not once. The node \<open>N1\<close> is registered; then it is removed and a node \<open>N2\<close>
  is added; the removal unregisters the node (DELETE, 204), the agent goes through
  initial registration again, and there \<^verbatim>\<open>self_id\<close> becomes \<open>N2\<close>, without a restart
  of the agent.
\<close>

theorem self_id_changes_on_registration:
  "map_option agent_mode (outcome_world (node_behaviour_thread 2 5 c9_world)) =
     Some mode_registered_operation \<and>
   map_option self_id (outcome_world (node_behaviour_thread 2 5 c9_world)) = Some ''N1'' \<and>
   map_option agent_mode (outcome_world (node_behaviour_thread 3 5 c9_world)) =
     Some mode_initial_registration \<and>
   map_option self_id (outcome_world (node_behaviour_thread 3 5 c9_world)) = Some ''N1'' \<and>
   map_option agent_mode (outcome_world (node_behaviour_thread 4 5 c9_world)) =
     Some mode_registered_operation \<and>
   map_option self_id (outcome_world (node_behaviour_thread 4 5 c9_world)) = Some ''N2''"
  by code_simp

text \<open>
  Claim C9, amended. During initial registration, while no flag is set, the agent discards
  every drained event that is not an \<open>added\<close> or \<open>sync\<close> event of a node, without a
  request; on the first \<open>added\<close> or \<open>sync\<close> event of a node it sets \<^verbatim>\<open>self_id\<close> to that
  event's id and issues its POST, and \<^verbatim>\<open>self_id\<close> has that value when the drain ends.
  Every initial registration assigns \<^verbatim>\<open>self_id\<close> in this way; no other mode modifies it
  (registered operation, peer-to-peer operation and the two discoveries leave it as it
  is).
\<close>

theorem self_id_latched_by_initial_registration:
  "(\<not> shutdown w \<and> \<not> registration_service_error w \<and> \<not> node_registered w \<longrightarrow>
      (if node_creation e
       then self_id (initial_registration_drain base (e # es) w) =
              fst (get_node_behaviour_event_id_type e) \<and>
            (\<exists>rest. trace (initial_registration_drain base (e # es) w) =
               trace w @ Request (post_resource base (creation_body base e)) # rest)
       else initial_registration_drain base (e # es) w = initial_registration_drain base es w)) \<and>
   (agent_mode v \<noteq> mode_initial_registration \<longrightarrow>
      outcome_world (node_behaviour_switch n v) = Some v' \<longrightarrow> self_id v' = self_id v)"
proof -
  have drain: "if node_creation e
       then self_id (initial_registration_drain base (e # es) w) =
              fst (get_node_behaviour_event_id_type e) \<and>
            (\<exists>rest. trace (initial_registration_drain base (e # es) w) =
               trace w @ Request (post_resource base (creation_body base e)) # rest)
       else initial_registration_drain base (e # es) w = initial_registration_drain base es w"
    if flags: "\<not> shutdown w \<and> \<not> registration_service_error w \<and> \<not> node_registered w"
  proof (cases "node_creation e")
    case False
    with flags show ?thesis by (auto simp: node_creation_def Let_def)
  next
    case True
    let ?u = "unlocked (w\<lparr>self_id := fst (get_node_behaviour_event_id_type e)\<rparr>)"
    obtain r w1 where r: "request_registration base e ?u = (r, w1)"
      by (cases "request_registration base e ?u")
    have io: "io_only ?u w1"
      using io_only_request_registration [of ?u base e] r by simp
    have id1: "self_id w1 = fst (get_node_behaviour_event_id_type e)"
      using io_only_frame(11) [OF io] by (simp add: unlocked_frame)
    from True creation_starts_with_post [of e base ?u] r obtain rest where
      tr: "trace w1 = trace w @ Request (post_resource base (creation_body base e)) # rest"
      by (auto simp: node_creation_def unlocked_frame)
    have D: "initial_registration_drain base (e # es) w =
        (case r of Inr _ \<Rightarrow> w1\<lparr>node_registered := True, events := es\<rparr>
         | Inl _ \<Rightarrow> w1\<lparr>registration_service_error := True, events := e # es\<rparr>)"
      using flags True r
      by (cases r) (auto simp: node_creation_def Let_def initial_registration_drain_stopped)
    from True id1 tr show ?thesis
      unfolding D by (cases r) auto
  qed
  from drain self_id_switch [of v n v'] show ?thesis by blast
qed

theorem self_id_latched_by_initial_registration_witness:
  "\<not> shutdown c9_registering \<and> \<not> registration_service_error c9_registering \<and>
   \<not> node_registered c9_registering \<and> node_creation c9_node \<and>
   self_id (initial_registration_drain registry_a [c9_node] c9_registering) = ''N1'' \<and>
   (\<exists>rest. trace (initial_registration_drain registry_a [c9_node] c9_registering) =
      trace c9_registering @ Request (post_resource registry_a (creation_body registry_a c9_node)) # rest) \<and>
   \<not> node_creation c9_device \<and>
   initial_registration_drain registry_a [c9_device, c9_node] c9_registering =
     initial_registration_drain registry_a [c9_node] c9_registering \<and>
   agent_mode quiet_world \<noteq> mode_initial_registration \<and>
   (\<exists>w'. outcome_world (node_behaviour_switch 1 quiet_world) = Some w' \<and>
      self_id w' = self_id quiet_world)"
proof -
  have flags: "\<not> shutdown c9_registering \<and> \<not> registration_service_error c9_registering \<and>
      \<not> node_registered c9_registering"
    by (simp add: c9_registering_def quiet_world_def)
  have node: "node_creation c9_node" and device: "\<not> node_creation c9_device"
    by (simp_all add: node_creation_def c9_node_def c9_device_def get_node_behaviour_event_id_type_def
        type_from_resourceType_def get_resource_event_type_def)
  have id: "fst (get_node_behaviour_event_id_type c9_node) = ''N1''"
    by (simp add: c9_node_def get_node_behaviour_event_id_type_def)
  have mode: "agent_mode quiet_world \<noteq> mode_initial_registration"
    by (simp add: quiet_world_def)
  have "is_Returned (node_behaviour_switch 1 quiet_world)"
    by code_simp
  then obtain w1 where w1: "outcome_world (node_behaviour_switch 1 quiet_world) = Some w1"
    by (cases "node_behaviour_switch 1 quiet_world") simp_all
  from self_id_latched_by_initial_registration [where w = c9_registering and e = c9_node
      and base = registry_a and es = "[]" and v = quiet_world and n = 1 and v' = w1]
    flags node id mode w1
  have a: "self_id (initial_registration_drain registry_a [c9_node] c9_registering) = ''N1''"
    and b: "\<exists>rest. trace (initial_registration_drain registry_a [c9_node] c9_registering) =
      trace c9_registering @ Request (post_resource registry_a (creation_body registry_a c9_node)) # rest"
    and c: "self_id w1 = self_id quiet_world"
    by simp_all
  from self_id_latched_by_initial_registration [where w = c9_registering and e = c9_device
      and base = registry_a and es = "[c9_node]" and v = quiet_world and n = 1 and v' = w1]
    flags device
  have d: "initial_registration_drain registry_a [c9_device, c9_node] c9_registering =
     initial_registration_drain registry_a [c9_node] c9_registering"
    by simp
  from flags node device mode w1 a b c d show ?thesis by blast
qed

section \<open>The first interaction with a new registry\<close>

text \<open>
  Claim C7, as stated, fails in its middle part: the background heartbeats are started
  after a first heartbeat that is answered 400. \<^verbatim>\<open>update_node_health\<close> gives true for
  every status but 404 and 5xx.
\<close>

theorem heartbeats_started_after_400:
  "map_option trace (outcome_world (registered_operation 1 c7_world)) =
     Some [Request (post_health registry_a ''N1''), Start_heartbeats registry_a ''N1''] \<and>
   map_option background_heartbeats (outcome_world (registered_operation 1 c7_world)) = Some True \<and>
   map_option error_log (outcome_world (registered_operation 1 c7_world)) = Some [(''heartbeat'', 400)]"
  by code_simp

text \<open>
  Claim C7, amended. Whenever the agent in registered operation selects a new registry
  (the client is made for a base URI that differs from the current client's), its first
  action on it is one synchronous heartbeat POST to \<open>/health/nodes/<self_id>\<close>. The
  background heartbeats are started right after it, and only if that heartbeat is
  answered with a status that is neither 404 nor 5xx and no flag (shutdown,
  \<^verbatim>\<open>registration_service_error\<close>, \<^verbatim>\<open>node_unregistered\<close>) is set; the requests for the
  pending events (all to \<open>/resource\<close>) come after both. Otherwise the heartbeat is the only
  action of the attempt: no background heartbeats, and the grain is not touched.
\<close>

theorem first_action_on_new_registry_is_heartbeat:
  assumes "client w \<noteq> Some base"
  shows "if heartbeat_alive (responses w) \<and> \<not> shutdown w \<and> \<not> registration_service_error w \<and>
            \<not> node_unregistered w
         then \<exists>new. trace (registered_operation_attempt base w) =
                 trace w @ [Request (post_health base (self_id w)),
                            Start_heartbeats base (self_id w)] @ new \<and>
               list_all resource_request new
         else trace (registered_operation_attempt base w) =
                 trace w @ [Request (post_health base (self_id w))] \<and>
              background_heartbeats (registered_operation_attempt base w) = background_heartbeats w \<and>
              grain_data (registered_operation_attempt base w) = grain_data w"
proof (cases "heartbeat_alive (responses w) \<and> \<not> shutdown w \<and> \<not> registration_service_error w \<and>
            \<not> node_unregistered w")
  case True
  let ?h = "first_heartbeat base w"
  let ?s = "start_background_heartbeats base ?h"
  from True have go: "\<not> (shutdown ?h \<or> registration_service_error ?h \<or> node_unregistered ?h)"
    using first_heartbeat_effect(7) [of base w] by (simp add: first_heartbeat_effect(2))
  then have A: "registered_operation_attempt base w = registered_operation_drain_cycle base ?s"
    using assms by (simp add: registered_operation_attempt_def Let_def)
  have ts: "trace ?s = trace w @ [Request (post_health base (self_id w)), Start_heartbeats base (self_id w)]"
    by (simp add: start_background_heartbeats_def first_heartbeat_effect)
  from registered_operation_drain_cycle_trace [of base ?s] obtain new where
    "trace (registered_operation_drain_cycle base ?s) = trace ?s @ new" "list_all resource_request new"
    by blast
  with A ts have "trace (registered_operation_attempt base w) =
                 trace w @ [Request (post_health base (self_id w)),
                            Start_heartbeats base (self_id w)] @ new \<and>
               list_all resource_request new"
    by simp
  then have "\<exists>new. trace (registered_operation_attempt base w) =
                 trace w @ [Request (post_health base (self_id w)),
                            Start_heartbeats base (self_id w)] @ new \<and>
               list_all resource_request new"
    by blast
  with True show ?thesis by simp
next
  case False
  let ?h = "first_heartbeat base w"
  from False have stop: "shutdown ?h \<or> registration_service_error ?h \<or> node_unregistered ?h"
    using first_heartbeat_effect(7) [of base w] by (auto simp: first_heartbeat_effect(2))
  then have A: "registered_operation_attempt base w = ?h"
    using assms by (simp add: registered_operation_attempt_def Let_def)
  from False show ?thesis
    unfolding A by (simp add: first_heartbeat_effect)
qed

theorem first_action_on_new_registry_is_heartbeat_witness:
  "client c7_selected \<noteq> Some registry_a \<and>
   heartbeat_alive (responses c7_selected) \<and> \<not> shutdown c7_selected \<and>
   \<not> registration_service_error c7_selected \<and> \<not> node_unregistered c7_selected \<and>
   (\<exists>new. trace (registered_operation_attempt registry_a c7_selected) =
       trace c7_selected @ [Request (post_health registry_a (self_id c7_selected)),
                            Start_heartbeats registry_a (self_id c7_selected)] @ new \<and>
     list_all resource_request new) \<and>
   client c7_world \<noteq> Some registry_a \<and> \<not> heartbeat_alive (responses (c7_world\<lparr>responses := [Response 404]\<rparr>)) \<and>
   trace (registered_operation_attempt registry_a (c7_world\<lparr>responses := [Response 404]\<rparr>)) =
     trace c7_world @ [Request (post_health registry_a (self_id c7_world))]"
proof -
  have c: "client c7_selected \<noteq> Some registry_a"
    by (simp add: c7_selected_def quiet_world_def)
  have ok: "heartbeat_alive (responses c7_selected) \<and> \<not> shutdown c7_selected \<and>
      \<not> registration_service_error c7_selected \<and> \<not> node_unregistered c7_selected"
    by (simp add: c7_selected_def quiet_world_def heartbeat_alive_def is_server_error_status_code_def)
  let ?w = "c7_world\<lparr>responses := [Response 404]\<rparr>"
  have c': "client ?w \<noteq> Some registry_a" "client c7_world \<noteq> Some registry_a"
    by (simp_all add: c7_world_def quiet_world_def)
  have dead: "\<not> heartbeat_alive (responses ?w)"
    by (simp add: heartbeat_alive_def)
  have same: "trace ?w = trace c7_world" "self_id ?w = self_id c7_world"
    by simp_all
  from first_action_on_new_registry_is_heartbeat [OF c] ok
    first_action_on_new_registry_is_heartbeat [OF c'(1)] dead c c' same
  show ?thesis by simp
qed

section \<open>Unregistration of the node\<close>

text \<open>
  Claim C6, as stated, fails in where the agent goes. The node is registered and its
  resource is then removed: the DELETE gets 204, the heartbeats are cancelled and
  \<^verbatim>\<open>registered_operation\<close> returns with its registry still in the list, so the
  \<^verbatim>\<open>switch\<close> sets the mode to initial registration, not to initial discovery; and there
  the agent stays (it waits for a node to be added).
\<close>

theorem unregistered_node_enters_initial_registration:
  "map_option agent_mode (outcome_world (node_behaviour_thread 2 5 c6_world)) =
     Some mode_registered_operation \<and>
   map_option agent_mode (outcome_world (node_behaviour_thread 3 5 c6_world)) =
     Some mode_initial_registration \<and>
   map_option node_unregistered (outcome_world (node_behaviour_thread 3 5 c6_world)) = Some True \<and>
   map_option background_heartbeats (outcome_world (node_behaviour_thread 3 5 c6_world)) = Some False \<and>
   map_option trace (outcome_world (node_behaviour_thread 3 5 c6_world)) =
     Some [Register_service,
           Request (post_resource registry_a
             \<lparr>body_type = ''node'', body_data = ''{}'', body_version = ''v1.2''\<rparr>),
           Request (post_health registry_a ''N1''),
           Start_heartbeats registry_a ''N1'',
           Request (delete_resource registry_a ''nodes/N1''),
           Cancel_heartbeats] \<and>
   map_option agent_mode (outcome_world (node_behaviour_thread 4 5 c6_world)) =
     Some mode_initial_registration"
  by code_simp

text \<open>
  Claim C6, amended. When in registered operation the agent successfully DELETEs its own
  node resource (a \<open>removed\<close> event whose id is \<^verbatim>\<open>self_id\<close> gets a 204),
  \<^verbatim>\<open>node_unregistered\<close> is set and the drain stops (the events after it stay in the
  buffer); at the next turn of the loop \<^verbatim>\<open>registered_operation\<close> returns with the
  background heartbeats cancelled. If the background heartbeats signalled no failure
  while the DELETE was out, the registry list is as it was and the agent enters initial
  registration, because of \<^verbatim>\<open>node_unregistered\<close>. If they did, the selected registry is
  popped first, and the agent enters initial registration when a registry is left and
  rediscovery when none is. It does not enter initial discovery.
\<close>

theorem graceful_unregistration:
  assumes "\<not> shutdown w" and "\<not> registration_service_error w" and "\<not> node_unregistered w"
    and "resource_removed_event = ev_type e"
    and "fst (get_node_behaviour_event_id_type e) = self_id w"
    and "responses w = Response 204 # rest"
    and "\<not> background_discovery w" and "registration_services w = (p, base) # rs"
  shows "let D = registered_operation_drain base (e # es) w;
             v = node_behaviour_grain_guard_dtor (D\<lparr>most_recent_update := grain_updated D\<rparr>)
         in trace D = trace w @ [Request (delete_resource base (ev_path e))] \<and>
            node_unregistered D \<and> events D = es \<and>
            registration_service_error D = registration_service_error (unlocked w) \<and>
            (\<exists>w'. registered_operation_loop (Suc n) v = Returned w' \<and>
               \<not> background_heartbeats w' \<and>
               (if registration_service_error (unlocked w)
                then trace w' = trace D @ [Cancel_heartbeats, Cancel_heartbeats] \<and>
                     registration_services w' = rs \<and>
                     agent_mode (after_registered_operation w') =
                       (if rs = [] then mode_rediscovery else mode_initial_registration)
                else trace w' = trace D @ [Cancel_heartbeats] \<and>
                     registration_services w' = (p, base) # rs \<and>
                     agent_mode (after_registered_operation w') = mode_initial_registration))"
proof -
  define w1 where "w1 = (unlocked w)\<lparr>trace := trace w @ [Request (delete_resource base (ev_path e))],
      responses := rest\<rparr>"
  define D where "D = registered_operation_drain base (e # es) w"
  define v where "v = node_behaviour_grain_guard_dtor (D\<lparr>most_recent_update := grain_updated D\<rparr>)"
  have r: "request_registration base e (unlocked w) = (Inr (), w1)"
    using deletion_204 [of e "unlocked w" rest base] assms(4,6)
    by (simp add: w1_def unlocked_frame)
  have D: "D = w1\<lparr>node_unregistered := True, events := es\<rparr>"
    unfolding D_def using assms(1-5) r
    by (simp add: Let_def get_resource_event_type_def w1_def unlocked_frame
        registered_operation_drain_stopped)
  have sv_w1: "services_view w1 = services_view w"
    using services_unlocked [OF assms(7)] by (simp add: w1_def services_view_updates)
  have sv_v: "services_view v = services_view w"
    unfolding v_def D using sv_w1 by (simp add: services_guard services_view_updates)
  then have quiet_v: "\<not> background_discovery v" and regs_v: "registration_services v = (p, base) # rs"
    using assms(7,8) by (simp_all add: services_view_def)
  have 1: "trace D = trace w @ [Request (delete_resource base (ev_path e))]"
    and 2: "node_unregistered D" and 3: "events D = es"
    and 4: "registration_service_error D = registration_service_error (unlocked w)"
    unfolding D by (simp_all add: w1_def)
  have unreg: "node_unregistered v"
    and err: "registration_service_error v = registration_service_error (unlocked w)"
    and tr_v: "trace v = trace D"
    using 2 4 unfolding v_def
    by (simp_all add: node_behaviour_grain_guard_dtor_def)
  have 5: "\<exists>w'. registered_operation_loop (Suc n) v = Returned w' \<and>
               \<not> background_heartbeats w' \<and>
               (if registration_service_error (unlocked w)
                then trace w' = trace D @ [Cancel_heartbeats, Cancel_heartbeats] \<and>
                     registration_services w' = rs \<and>
                     agent_mode (after_registered_operation w') =
                       (if rs = [] then mode_rediscovery else mode_initial_registration)
                else trace w' = trace D @ [Cancel_heartbeats] \<and>
                     registration_services w' = (p, base) # rs \<and>
                     agent_mode (after_registered_operation w') = mode_initial_registration)"
  proof (cases "registration_service_error (unlocked w)")
    case False
    define w' where "w' = cancel_background_heartbeats (unlocked v)"
    from False err have no_err: "\<not> registration_service_error v" by simp
    have a: "registered_operation_loop (Suc n) v = Returned w'"
      using registered_operation_body_unregistered [OF unreg no_err] by (simp add: w'_def)
    have b: "\<not> background_heartbeats w'"
      by (simp add: w'_def cancel_background_heartbeats_def)
    have c: "trace w' = trace D @ [Cancel_heartbeats]"
      by (simp add: w'_def cancel_background_heartbeats_def unlocked_frame tr_v)
    from services_unlocked [OF quiet_v] regs_v have d: "registration_services w' = (p, base) # rs"
      by (simp add: w'_def cancel_background_heartbeats_def services_view_def)
    have e: "agent_mode (after_registered_operation w') = mode_initial_registration"
      using d by (simp add: after_registered_operation_mode)
    from False a b c d e show ?thesis by auto
  next
    case True
    define v2 where "v2 = cancel_background_heartbeats (unlocked (v\<lparr>registration_services := rs\<rparr>))"
    define w' where "w' = cancel_background_heartbeats (unlocked v2)"
    from True err have is_err: "registration_service_error v" by simp
    have "\<not> background_discovery (v\<lparr>registration_services := rs\<rparr>)"
      using quiet_v by simp
    from services_unlocked [OF this]
    have sv2: "registration_services v2 = rs" "\<not> background_discovery v2"
      using quiet_v by (simp_all add: v2_def cancel_background_heartbeats_def services_view_def)
    have un2: "node_unregistered v2"
      using node_unregistered_unlocked [of "v\<lparr>registration_services := rs\<rparr>"] unreg
      by (simp add: v2_def cancel_background_heartbeats_def)
    have body: "registered_operation_body v = Break v2"
      using registered_operation_body_service_error [OF is_err regs_v] un2
      by (simp add: Let_def v2_def [symmetric])
    have a: "registered_operation_loop (Suc n) v = Returned w'"
      using body by (simp add: w'_def)
    have b: "\<not> background_heartbeats w'"
      by (simp add: w'_def cancel_background_heartbeats_def)
    have c: "trace w' = trace D @ [Cancel_heartbeats, Cancel_heartbeats]"
      by (simp add: w'_def v2_def cancel_background_heartbeats_def unlocked_frame tr_v)
    from services_unlocked [OF sv2(2)] sv2(1) have d: "registration_services w' = rs"
      by (simp add: w'_def cancel_background_heartbeats_def services_view_def)
    have e: "agent_mode (after_registered_operation w') =
        (if rs = [] then mode_rediscovery else mode_initial_registration)"
      using d by (simp add: after_registered_operation_mode)
    from True a b c d e show ?thesis by auto
  qed
  from 1 2 3 4 5 show ?thesis
    unfolding D_def [symmetric] Let_def v_def [symmetric] by blast
qed

theorem graceful_unregistration_witness:
  "\<not> shutdown c6_draining \<and> \<not> registration_service_error c6_draining \<and>
   \<not> node_unregistered c6_draining \<and> resource_removed_event = ev_type c6_removal \<and>
   fst (get_node_behaviour_event_id_type c6_removal) = self_id c6_draining \<and>
   responses c6_draining = Response 204 # [] \<and> \<not> background_discovery c6_draining \<and>
   registration_services c6_draining = (100, registry_a) # [] \<and>
   \<not> registration_service_error (unlocked c6_draining) \<and>
   (let D = registered_operation_drain registry_a (c6_removal # []) c6_draining;
        v = node_behaviour_grain_guard_dtor (D\<lparr>most_recent_update := grain_updated D\<rparr>)
    in trace D = trace c6_draining @ [Request (delete_resource registry_a (ev_path c6_removal))] \<and>
       node_unregistered D \<and> events D = [] \<and> \<not> registration_service_error D \<and>
       (\<exists>w'. registered_operation_loop (Suc 0) v = Returned w' \<and>
          \<not> background_heartbeats w' \<and>
          trace w' = trace D @ [Cancel_heartbeats] \<and>
          registration_services w' = (100, registry_a) # [] \<and>
          agent_mode (after_registered_operation w') = mode_initial_registration)) \<and>
   \<not> shutdown c6_failing \<and> \<not> registration_service_error c6_failing \<and>
   \<not> node_unregistered c6_failing \<and>
   fst (get_node_behaviour_event_id_type c6_removal) = self_id c6_failing \<and>
   responses c6_failing = Response 204 # [] \<and> \<not> background_discovery c6_failing \<and>
   registration_services c6_failing = (100, registry_a) # [] \<and>
   registration_service_error (unlocked c6_failing) \<and>
   (let D = registered_operation_drain registry_a (c6_removal # []) c6_failing;
        v = node_behaviour_grain_guard_dtor (D\<lparr>most_recent_update := grain_updated D\<rparr>)
    in trace D = trace c6_failing @ [Request (delete_resource registry_a (ev_path c6_removal))] \<and>
       node_unregistered D \<and> events D = [] \<and> registration_service_error D \<and>
       (\<exists>w'. registered_operation_loop (Suc 0) v = Returned w' \<and>
          \<not> background_heartbeats w' \<and>
          trace w' = trace D @ [Cancel_heartbeats, Cancel_heartbeats] \<and>
          registration_services w' = [] \<and>
          agent_mode (after_registered_operation w') = mode_rediscovery))"
proof -
  have h1: "\<not> shutdown c6_draining" and h2: "\<not> registration_service_error c6_draining"
    and h3: "\<not> node_unregistered c6_draining" and h7: "\<not> background_discovery c6_draining"
    and h8: "registration_services c6_draining = (100, registry_a) # []"
    and h6: "responses c6_draining = Response 204 # []"
    by (simp_all add: c6_draining_def quiet_world_def)
  have h4: "resource_removed_event = ev_type c6_removal"
    and h5: "fst (get_node_behaviour_event_id_type c6_removal) = self_id c6_draining"
    by (simp_all add: c6_removal_def example_event_def c6_draining_def
        get_node_behaviour_event_id_type_def)
  have h9: "\<not> registration_service_error (unlocked c6_draining)"
    by (simp add: c6_draining_def quiet_world_def unlocked_def)
  have f1: "\<not> shutdown c6_failing" and f2: "\<not> registration_service_error c6_failing"
    and f3: "\<not> node_unregistered c6_failing" and f7: "\<not> background_discovery c6_failing"
    and f8: "registration_services c6_failing = (100, registry_a) # []"
    and f6: "responses c6_failing = Response 204 # []"
    by (simp_all add: c6_failing_def c6_draining_def quiet_world_def)
  have f5: "fst (get_node_behaviour_event_id_type c6_removal) = self_id c6_failing"
    by (simp add: c6_removal_def example_event_def c6_failing_def c6_draining_def
        get_node_behaviour_event_id_type_def)
  have f9: "registration_service_error (unlocked c6_failing)"
    by (simp add: c6_failing_def c6_draining_def quiet_world_def unlocked_def)
  note A = graceful_unregistration [OF h1 h2 h3 h4 h5 h6 h7 h8, of "[]" 0]
  note B = graceful_unregistration [OF f1 f2 f3 h4 f5 f6 f7 f8, of "[]" 0]
  define D where "D = registered_operation_drain registry_a (c6_removal # []) c6_draining"
  define v where "v = node_behaviour_grain_guard_dtor (D\<lparr>most_recent_update := grain_updated D\<rparr>)"
  define E where "E = registered_operation_drain registry_a (c6_removal # []) c6_failing"
  define u where "u = node_behaviour_grain_guard_dtor (E\<lparr>most_recent_update := grain_updated E\<rparr>)"
  from A have A0: "trace D = trace c6_draining @ [Request (delete_resource registry_a (ev_path c6_removal))] \<and>
       node_unregistered D \<and> events D = [] \<and>
       registration_service_error D = registration_service_error (unlocked c6_draining) \<and>
       (\<exists>w'. registered_operation_loop (Suc 0) v = Returned w' \<and>
          \<not> background_heartbeats w' \<and>
          (if registration_service_error (unlocked c6_draining)
           then trace w' = trace D @ [Cancel_heartbeats, Cancel_heartbeats] \<and>
                registration_services w' = [] \<and>
                agent_mode (after_registered_operation w') =
                  (if [] = ([] :: uri multimap) then mode_rediscovery else mode_initial_registration)
           else trace w' = trace D @ [Cancel_heartbeats] \<and>
                registration_services w' = (100, registry_a) # [] \<and>
                agent_mode (after_registered_operation w') = mode_initial_registration))"
    unfolding Let_def D_def [symmetric] v_def [symmetric] .
  from A0 h9 have a4: "\<not> registration_service_error D" by blast
  from A0 obtain w1 where a5: "registered_operation_loop (Suc 0) v = Returned w1"
    and a6: "\<not> background_heartbeats w1"
    and a7: "if registration_service_error (unlocked c6_draining)
           then trace w1 = trace D @ [Cancel_heartbeats, Cancel_heartbeats] \<and>
                registration_services w1 = [] \<and>
                agent_mode (after_registered_operation w1) =
                  (if [] = ([] :: uri multimap) then mode_rediscovery else mode_initial_registration)
           else trace w1 = trace D @ [Cancel_heartbeats] \<and>
                registration_services w1 = (100, registry_a) # [] \<and>
                agent_mode (after_registered_operation w1) = mode_initial_registration"
    by blast
  from a7 h9 have a8: "trace w1 = trace D @ [Cancel_heartbeats] \<and>
                registration_services w1 = (100, registry_a) # [] \<and>
                agent_mode (after_registered_operation w1) = mode_initial_registration"
    by simp
  from a5 a6 a8 have a9: "\<exists>w'. registered_operation_loop (Suc 0) v = Returned w' \<and>
          \<not> background_heartbeats w' \<and>
          trace w' = trace D @ [Cancel_heartbeats] \<and>
          registration_services w' = (100, registry_a) # [] \<and>
          agent_mode (after_registered_operation w') = mode_initial_registration"
    by blast
  from A0 a4 a9 have A': "let D = registered_operation_drain registry_a (c6_removal # []) c6_draining;
        v = node_behaviour_grain_guard_dtor (D\<lparr>most_recent_update := grain_updated D\<rparr>)
    in trace D = trace c6_draining @ [Request (delete_resource registry_a (ev_path c6_removal))] \<and>
       node_unregistered D \<and> events D = [] \<and> \<not> registration_service_error D \<and>
       (\<exists>w'. registered_operation_loop (Suc 0) v = Returned w' \<and>
          \<not> background_heartbeats w' \<and>
          trace w' = trace D @ [Cancel_heartbeats] \<and>
          registration_services w' = (100, registry_a) # [] \<and>
          agent_mode (after_registered_operation w') = mode_initial_registration)"
    unfolding Let_def D_def [symmetric] v_def [symmetric] by blast
  from B have B0: "trace E = trace c6_failing @ [Request (delete_resource registry_a (ev_path c6_removal))] \<and>
       node_unregistered E \<and> events E = [] \<and>
       registration_service_error E = registration_service_error (unlocked c6_failing) \<and>
       (\<exists>w'. registered_operation_loop (Suc 0) u = Returned w' \<and>
          \<not> background_heartbeats w' \<and>
          (if registration_service_error (unlocked c6_failing)
           then trace w' = trace E @ [Cancel_heartbeats, Cancel_heartbeats] \<and>
                registration_services w' = [] \<and>
                agent_mode (after_registered_operation w') =
                  (if [] = ([] :: uri multimap) then mode_rediscovery else mode_initial_registration)
           else trace w' = trace E @ [Cancel_heartbeats] \<and>
                registration_services w' = (100, registry_a) # [] \<and>
                agent_mode (after_registered_operation w') = mode_initial_registration))"
    unfolding Let_def E_def [symmetric] u_def [symmetric] .
  from B0 f9 have b4: "registration_service_error E" by blast
  from B0 obtain w2 where b5: "registered_operation_loop (Suc 0) u = Returned w2"
    and b6: "\<not> background_heartbeats w2"
    and b7: "if registration_service_error (unlocked c6_failing)
           then trace w2 = trace E @ [Cancel_heartbeats, Cancel_heartbeats] \<and>
                registration_services w2 = [] \<and>
                agent_mode (after_registered_operation w2) =
                  (if [] = ([] :: uri multimap) then mode_rediscovery else mode_initial_registration)
           else trace w2 = trace E @ [Cancel_heartbeats] \<and>
                registration_services w2 = (100, registry_a) # [] \<and>
                agent_mode (after_registered_operation w2) = mode_initial_registration"
    by blast
  from b7 f9 have b8: "trace w2 = trace E @ [Cancel_heartbeats, Cancel_heartbeats] \<and>
                registration_services w2 = [] \<and>
                agent_mode (after_registered_operation w2) = mode_rediscovery"
    by simp
  from b5 b6 b8 have b9: "\<exists>w'. registered_operation_loop (Suc 0) u = Returned w' \<and>
          \<not> background_heartbeats w' \<and>
          trace w' = trace E @ [Cancel_heartbeats, Cancel_heartbeats] \<and>
          registration_services w' = [] \<and>
          agent_mode (after_registered_operation w') = mode_rediscovery"
    by blast
  from B0 b4 b9 have B': "let D = registered_operation_drain registry_a (c6_removal # []) c6_failing;
        v = node_behaviour_grain_guard_dtor (D\<lparr>most_recent_update := grain_updated D\<rparr>)
    in trace D = trace c6_failing @ [Request (delete_resource registry_a (ev_path c6_removal))] \<and>
       node_unregistered D \<and> events D = [] \<and> registration_service_error D \<and>
       (\<exists>w'. registered_operation_loop (Suc 0) v = Returned w' \<and>
          \<not> background_heartbeats w' \<and>
          trace w' = trace D @ [Cancel_heartbeats, Cancel_heartbeats] \<and>
          registration_services w' = [] \<and>
          agent_mode (after_registered_operation w') = mode_rediscovery)"
    unfolding Let_def E_def [symmetric] u_def [symmetric] by blast
  show ?thesis
    by (intro conjI, (rule h1 h2 h3 h4 h5 h6 h7 h8 h9 A' f1 f2 f3 f5 f6 f7 f8 f9 B')+)
qed

section \<open>Registration errors while draining\<close>

text \<open>
  What one registration request of the drain of registered operation leads to. A request
  whose first answer is a 5xx, a connection failure or a timeout ends in an exception;
  after an exception \<^verbatim>\<open>registration_service_error\<close> is set, the drain stops with the
  event retained (it and the events after it go back to the front of the grain), and the
  next turn of the loop pops the front of the registry list before anything else. A
  request whose first answer is a 4xx is logged, the event is consumed and the registry
  list is unchanged; the draining continues with the next event unless the event was the
  \<open>removed\<close> event of the node itself, where \<^verbatim>\<open>node_unregistered\<close> is set and the drain
  stops.
\<close>

lemma registration_errors_while_draining:
  "(\<not> answered_without_server_error (responses w) \<longrightarrow>
      (\<exists>x. fst (request_registration base e (unlocked w)) = Inl x)) \<and>
   (\<not> shutdown w \<and> \<not> registration_service_error w \<and> \<not> node_unregistered w \<and>
    \<not> background_discovery w \<and> registration_services w = (p, base) # rs \<and>
    fst (request_registration base e (unlocked w)) = Inl x \<longrightarrow>
      (let D = registered_operation_drain base (e # es) w;
           v = node_behaviour_grain_guard_dtor (D\<lparr>most_recent_update := grain_updated D\<rparr>);
           v2 = cancel_background_heartbeats (unlocked (v\<lparr>registration_services := rs\<rparr>))
       in registration_service_error D \<and> events D = e # es \<and>
          trace D = trace (snd (request_registration base e (unlocked w))) \<and>
          grain_data v = e # es @ grain_data D \<and>
          registration_services v = (p, base) # rs \<and>
          registration_services v2 = rs \<and>
          registered_operation_body v =
            (if shutdown v2 \<or> rs = [] \<or> node_unregistered v2 then Break v2
             else Continue (registered_operation_attempt (snd (hd rs)) v2)))) \<and>
   (\<not> shutdown w \<and> \<not> registration_service_error w \<and> \<not> node_unregistered w \<and>
    \<not> background_discovery w \<and> responses w = Response s # rest \<and>
    is_client_error_status_code s \<longrightarrow>
      (let w1 = snd (request_registration base e (unlocked w))
       in fst (request_registration base e (unlocked w)) = Inr () \<and>
          trace w1 = trace w @ [Request (event_request base e)] \<and>
          error_log w1 = error_log w @ [(event_operation e, s)] \<and>
          registration_services w1 = registration_services w \<and>
          registered_operation_drain base (e # es) w =
            (if self_id w = fst (get_node_behaviour_event_id_type e) \<and>
                resource_removed_event = ev_type e
             then w1\<lparr>node_unregistered := True, events := es\<rparr>
             else registered_operation_drain base es w1)))"
proof -
  have a: "\<not> answered_without_server_error (responses w) \<longrightarrow>
      (\<exists>x. fst (request_registration base e (unlocked w)) = Inl x)"
    using unanswered_first [of "unlocked w" base e] by (simp add: unlocked_frame)
  have b: "let D = registered_operation_drain base (e # es) w;
           v = node_behaviour_grain_guard_dtor (D\<lparr>most_recent_update := grain_updated D\<rparr>);
           v2 = cancel_background_heartbeats (unlocked (v\<lparr>registration_services := rs\<rparr>))
       in registration_service_error D \<and> events D = e # es \<and>
          trace D = trace (snd (request_registration base e (unlocked w))) \<and>
          grain_data v = e # es @ grain_data D \<and>
          registration_services v = (p, base) # rs \<and>
          registration_services v2 = rs \<and>
          registered_operation_body v =
            (if shutdown v2 \<or> rs = [] \<or> node_unregistered v2 then Break v2
             else Continue (registered_operation_attempt (snd (hd rs)) v2))"
    if h: "\<not> shutdown w \<and> \<not> registration_service_error w \<and> \<not> node_unregistered w \<and>
      \<not> background_discovery w \<and> registration_services w = (p, base) # rs \<and>
      fst (request_registration base e (unlocked w)) = Inl x"
  proof -
    define w1 where "w1 = snd (request_registration base e (unlocked w))"
    define D where "D = registered_operation_drain base (e # es) w"
    define v where "v = node_behaviour_grain_guard_dtor (D\<lparr>most_recent_update := grain_updated D\<rparr>)"
    define v2 where "v2 = cancel_background_heartbeats (unlocked (v\<lparr>registration_services := rs\<rparr>))"
    from h have r: "request_registration base e (unlocked w) = (Inl x, w1)"
      by (simp add: w1_def prod_eq_iff)
    have D: "D = w1\<lparr>registration_service_error := True, events := e # es\<rparr>"
      unfolding D_def using h r by (simp add: Let_def)
    have sv_w1: "services_view w1 = services_view w"
      using services_io_only [OF io_only_request_registration [of "unlocked w" base e]]
        services_unlocked [of w] h by (simp add: w1_def)
    have 1: "registration_service_error D" and 2: "events D = e # es" and 3: "trace D = trace w1"
      unfolding D by simp_all
    have 4: "grain_data v = e # es @ grain_data D"
      unfolding v_def using 2 by (simp add: guard_dtor_grain)
    have sv_v: "services_view v = services_view w"
      unfolding v_def D using sv_w1 by (simp add: services_guard services_view_updates)
    then have 5: "registration_services v = (p, base) # rs" and q: "\<not> background_discovery v"
      using h by (simp_all add: services_view_def)
    from q have "\<not> background_discovery (v\<lparr>registration_services := rs\<rparr>)" by simp
    from services_unlocked [OF this] have 6: "registration_services v2 = rs"
      by (simp add: v2_def cancel_background_heartbeats_def services_view_def)
    have err_v: "registration_service_error v"
      unfolding v_def using 1 by (simp add: node_behaviour_grain_guard_dtor_def)
    have 7: "registered_operation_body v =
            (if shutdown v2 \<or> rs = [] \<or> node_unregistered v2 then Break v2
             else Continue (registered_operation_attempt (snd (hd rs)) v2))"
    proof -
      have "registered_operation_body v =
           (if shutdown v2 \<or> registration_services v2 = [] \<or> node_unregistered v2 then Break v2
            else (case top_registration_service (registration_services v2) of
                    None \<Rightarrow> Fault Top_of_empty
                  | Some base_uri \<Rightarrow> Continue (registered_operation_attempt base_uri v2)))"
        using registered_operation_body_service_error [OF err_v 5]
        unfolding Let_def v2_def by simp
      then show ?thesis
        unfolding 6 by (cases rs) (simp_all add: top_registration_service_def)
    qed
    from 1 2 3 4 5 6 7 show ?thesis
      unfolding D_def [symmetric] Let_def v_def [symmetric] v2_def [symmetric] w1_def [symmetric]
      by blast
  qed
  have c: "let w1 = snd (request_registration base e (unlocked w))
       in fst (request_registration base e (unlocked w)) = Inr () \<and>
          trace w1 = trace w @ [Request (event_request base e)] \<and>
          error_log w1 = error_log w @ [(event_operation e, s)] \<and>
          registration_services w1 = registration_services w \<and>
          registered_operation_drain base (e # es) w =
            (if self_id w = fst (get_node_behaviour_event_id_type e) \<and>
                resource_removed_event = ev_type e
             then w1\<lparr>node_unregistered := True, events := es\<rparr>
             else registered_operation_drain base es w1)"
    if h: "\<not> shutdown w \<and> \<not> registration_service_error w \<and> \<not> node_unregistered w \<and>
      \<not> background_discovery w \<and> responses w = Response s # rest \<and>
      is_client_error_status_code s"
  proof -
    define w1 where "w1 = (unlocked w)\<lparr>trace := trace w @ [Request (event_request base e)],
        error_log := error_log w @ [(event_operation e, s)], responses := rest\<rparr>"
    have r: "request_registration base e (unlocked w) = (Inr (), w1)"
      using client_error_first [of s "unlocked w" rest base e] h
      by (simp add: w1_def unlocked_frame)
    have sv: "registration_services w1 = registration_services w"
      using services_unlocked [of w] h by (simp add: w1_def services_view_def)
    have id: "self_id w1 = self_id w"
      by (simp add: w1_def unlocked_frame)
    have D: "registered_operation_drain base (e # es) w =
            (if self_id w = fst (get_node_behaviour_event_id_type e) \<and>
                resource_removed_event = ev_type e
             then w1\<lparr>node_unregistered := True, events := es\<rparr>
             else registered_operation_drain base es w1)"
      using h r id
      by (simp add: Let_def get_resource_event_type_def registered_operation_drain_stopped)
    have t: "trace w1 = trace w @ [Request (event_request base e)]"
      and l: "error_log w1 = error_log w @ [(event_operation e, s)]"
      by (simp_all add: w1_def)
    from r sv D t l show ?thesis by (simp add: Let_def)
  qed
  from a b c show ?thesis by blast
qed

text \<open>
  The node's own \<open>removed\<close> event gets 404 on its DELETE: the error is logged and the
  event consumed, but \<^verbatim>\<open>node_unregistered\<close> is set as after a 204, the drain stops and
  \<^verbatim>\<open>registered_operation\<close> returns; the update of the device that follows is never
  requested and stays in the grain.
\<close>

lemma drain_stops_after_404_on_node_removal:
  "is_Returned (registered_operation 3 c4_world) \<and>
   map_option trace (outcome_world (registered_operation 3 c4_world)) =
     Some [Request (post_health registry_a ''N1''), Start_heartbeats registry_a ''N1'',
           Request (delete_resource registry_a ''nodes/N1''), Cancel_heartbeats] \<and>
   map_option error_log (outcome_world (registered_operation 3 c4_world)) =
     Some [(''deletion'', 404)] \<and>
   map_option grain_data (outcome_world (registered_operation 3 c4_world)) =
     Some [example_event ''devices/D1'' resource_modified_event] \<and>
   map_option registration_services (outcome_world (registered_operation 3 c4_world)) =
     Some [(100, registry_a)]"
  by code_simp

text \<open>
  Claim C4: a 5xx response, a connection failure or a timeout makes the state machine pop
  exactly the currently selected registry. The source says so itself (``If the chosen
  Registration API does not respond correctly at any time, another Registration API
  should be selected from the discovered list''), but the code drops every registry:
  \<^verbatim>\<open>registration_service_error\<close> is set at the error and never reset, neither in
  \<^verbatim>\<open>registered_operation\<close> nor in \<^verbatim>\<open>initial_registration\<close>, so each later turn of the
  loop pops again.

  Here the browse finds two registries. The node is registered with the first and the
  heartbeats start; the POST of a device that is added is answered 503 by the first
  registry, which is popped. The second registry answers the first heartbeat with 200,
  and is popped at the next turn all the same: the device is never sent to it (its 201
  is never asked for), the event stays in the grain, the list is empty and the agent
  goes to rediscovery.
\<close>

theorem service_error_flag_is_never_reset:
  "map_option agent_mode (outcome_world (node_behaviour_thread 2 6 c4_thread)) =
     Some mode_registered_operation \<and>
   map_option registration_services (outcome_world (node_behaviour_thread 2 6 c4_thread)) =
     Some [(50, registry_b), (100, registry_a)] \<and>
   map_option agent_mode (outcome_world (node_behaviour_thread 3 6 c4_thread)) =
     Some mode_rediscovery \<and>
   map_option registration_services (outcome_world (node_behaviour_thread 3 6 c4_thread)) = Some [] \<and>
   map_option trace (outcome_world (node_behaviour_thread 3 6 c4_thread)) =
     Some [Register_service,
           Request (post_resource registry_b
             \<lparr>body_type = ''node'', body_data = ''{}'', body_version = ''v1.2''\<rparr>),
           Request (post_health registry_b ''N1''),
           Start_heartbeats registry_b ''N1'',
           Request (post_resource registry_b
             \<lparr>body_type = ''device'', body_data = ''{}'', body_version = ''v1.2''\<rparr>),
           Cancel_heartbeats,
           Request (post_health registry_a ''N1''),
           Cancel_heartbeats, Cancel_heartbeats] \<and>
   map_option error_log (outcome_world (node_behaviour_thread 3 6 c4_thread)) =
     Some [(''creation'', 503)] \<and>
   map_option grain_data (outcome_world (node_behaviour_thread 3 6 c4_thread)) =
     Some [example_event ''devices/D1'' resource_added_event] \<and>
   map_option responses (outcome_world (node_behaviour_thread 3 6 c4_thread)) = Some [Response 201]"
  by code_simp

section \<open>Peer-to-peer version counters\<close>

lemma published_append: "published (xs @ ys) = published xs @ published ys"
  by (induction xs rule: published.induct) simp_all

lemma versions_le_refl: "versions_le v v"
  by (simp add: versions_le_def)

lemma versions_le_trans: "versions_le a b \<Longrightarrow> versions_le b c \<Longrightarrow> versions_le a c"
  by (auto simp: versions_le_def)

lemma update_resource_version_grows: "versions_le v (update_resource_version v ty)"
  by (simp add: update_resource_version_def versions_le_def Let_def)

lemma update_versions_grows: "versions_le v (update_versions evs v)"
proof (induction evs arbitrary: v)
  case Nil
  show ?case by (simp add: update_versions_def versions_le_refl)
next
  case (Cons e evs)
  have "versions_le v (update_resource_version v (snd (get_node_behaviour_event_id_type e)))"
    by (rule update_resource_version_grows)
  moreover have "versions_le (update_resource_version v (snd (get_node_behaviour_event_id_type e)))
      (update_versions evs (update_resource_version v (snd (get_node_behaviour_event_id_type e))))"
    by (rule Cons.IH)
  ultimately show ?case
    by (auto simp: update_versions_def intro: versions_le_trans)
qed

lemma publications_none: "trace w' = trace w \<Longrightarrow> ver w' = ver w \<Longrightarrow> publications w [] w'"
  by (simp add: publications_def versions_le_refl)

lemma publications_trans:
  assumes "publications a xs b" and "publications b ys c"
  shows "publications a (xs @ ys) c"
  using assms
  by (auto simp: publications_def sorted_wrt_append intro: versions_le_trans)

lemma peer_to_peer_body_publications:
  assumes "peer_to_peer_body w = Continue w' \<or> peer_to_peer_body w = Break w' \<or>
           peer_to_peer_body w = Waits w'"
  shows "\<exists>vs. publications w vs w'"
proof (cases "condition_wait peer_to_peer_wake w")
  case (Waits_forever w1)
  with assms have "w' = w1" by (simp add: peer_to_peer_body_def)
  with condition_wait_frame [of peer_to_peer_wake w w1] Waits_forever
  have "publications w [] w'" by (simp add: publications_none)
  then show ?thesis by blast
next
  case (Woken w1)
  from condition_wait_frame [of peer_to_peer_wake w w1] Woken
  have t1: "trace w1 = trace w" and v1: "ver w1 = ver w" by simp_all
  show ?thesis
  proof (cases "shutdown w1 \<or> registration_services_discovered w1")
    case True
    with assms Woken have "w' = w1" by (simp add: peer_to_peer_body_def)
    with t1 v1 have "publications w [] w'" by (simp add: publications_none)
    then show ?thesis by blast
  next
    case False
    define w3 where "w3 = unlocked (node_behaviour_grain_guard (w1\<lparr>events := []\<rparr>))"
    define v' where "v' = update_versions (events w3) (ver w3)"
    have t3: "trace w3 = trace w" and v3: "ver w3 = ver w"
      by (simp_all add: w3_def unlocked_frame node_behaviour_grain_guard_def t1 v1)
    have le: "versions_le (ver w) v'"
      unfolding v'_def v3 [symmetric] by (rule update_versions_grows)
    from assms Woken False have w': "w' =
        (let w6 = node_behaviour_grain_guard_dtor
                    ((update_node_service (Some v') (w3\<lparr>ver := v'\<rparr>))\<lparr>events := []\<rparr>)
         in w6\<lparr>most_recent_update := grain_updated w6\<rparr>)"
      by (simp add: peer_to_peer_body_def Let_def w3_def v'_def)
    have ver': "ver w' = v'"
      by (simp add: w' Let_def node_behaviour_grain_guard_dtor_def update_node_service_def)
    have tr': "trace w' = trace w @ (if no_priority \<noteq> pri (model_settings w3) then [Update_service (Some v')] else [])"
      by (simp add: w' Let_def node_behaviour_grain_guard_dtor_def update_node_service_def t3)
    have "publications w (if no_priority \<noteq> pri (model_settings w3) then [v'] else []) w'"
      using le by (simp add: publications_def tr' ver' published_append versions_le_refl)
    then show ?thesis by blast
  qed
qed

lemma peer_to_peer_loop_publications:
  "peer_to_peer_loop n w = Returned w' \<or> peer_to_peer_loop n w = Waiting w' \<or>
   peer_to_peer_loop n w = Out_of_fuel w' \<Longrightarrow> \<exists>vs. publications w vs w'"
proof (induction n arbitrary: w)
  case 0
  then have "publications w [] w'" by (simp add: publications_none)
  then show ?case by blast
next
  case (Suc n)
  show ?case
  proof (cases "peer_to_peer_body w")
    case (Continue w1)
    with Suc.prems have "peer_to_peer_loop n w1 = Returned w' \<or>
        peer_to_peer_loop n w1 = Waiting w' \<or> peer_to_peer_loop n w1 = Out_of_fuel w'"
      by simp
    from Suc.IH [OF this] obtain ys where ys: "publications w1 ys w'" by blast
    from peer_to_peer_body_publications [of w w1] Continue obtain xs where
      "publications w xs w1" by auto
    from publications_trans [OF this ys] show ?thesis by blast
  next
    case (Break w1)
    with Suc.prems have w': "w' = peer_to_peer_leave w1" by simp
    from peer_to_peer_body_publications [of w w1] Break obtain xs where
      xs: "publications w xs w1" by auto
    have "publications w1 [] w'"
      unfolding w'
      by (simp add: publications_def peer_to_peer_leave_def Let_def update_node_service_def
          unlocked_frame published_append versions_le_refl)
    from publications_trans [OF xs this] show ?thesis by auto
  next
    case (Waits w1)
    with Suc.prems peer_to_peer_body_publications [of w w1] show ?thesis by auto
  next
    case (Fault x)
    with Suc.prems show ?thesis by simp
  qed
qed

lemma peer_to_peer_operation_publications:
  assumes "outcome_world (peer_to_peer_operation n w) = Some w'"
  shows "\<exists>vs. published (trace w') = published (trace w) @ vs \<and> sorted_wrt versions_le vs \<and>
           (\<forall>v \<in> set vs. versions_le initial_versions v) \<and>
           (grain_present w \<and> no_priority \<noteq> pri (model_settings w) \<longrightarrow>
              vs \<noteq> [] \<and> hd vs = initial_versions)"
proof (cases "grain_present w")
  case False
  with assms have "w' = w" by (simp add: peer_to_peer_operation_def)
  then have "published (trace w') = published (trace w) @ [] \<and> sorted_wrt versions_le [] \<and>
           (\<forall>v \<in> set []. versions_le initial_versions v) \<and>
           (grain_present w \<and> no_priority \<noteq> pri (model_settings w) \<longrightarrow>
              [] \<noteq> [] \<and> hd [] = initial_versions)"
    using False by simp
  then show ?thesis by blast
next
  case True
  let ?e = "peer_to_peer_enter w"
  let ?first = "if no_priority \<noteq> pri (model_settings w) then [initial_versions] else []"
  have e: "published (trace ?e) = published (trace w) @ ?first" "ver ?e = initial_versions"
    by (simp_all add: peer_to_peer_enter_def Let_def update_node_service_def published_append)
  from assms True have "peer_to_peer_loop n ?e = Returned w' \<or> peer_to_peer_loop n ?e = Waiting w' \<or>
      peer_to_peer_loop n ?e = Out_of_fuel w'"
    by (cases "peer_to_peer_loop n ?e") (simp_all add: peer_to_peer_operation_def)
  from peer_to_peer_loop_publications [OF this] obtain vs where vs: "publications ?e vs w'"
    by blast
  then have "published (trace w') = published (trace w) @ (?first @ vs) \<and>
      sorted_wrt versions_le (?first @ vs) \<and>
      (\<forall>v \<in> set (?first @ vs). versions_le initial_versions v) \<and>
      (grain_present w \<and> no_priority \<noteq> pri (model_settings w) \<longrightarrow>
         ?first @ vs \<noteq> [] \<and> hd (?first @ vs) = initial_versions)"
    by (auto simp: publications_def e versions_le_refl)
  then show ?thesis by blast
qed

text \<open>
  Claim C5, as stated, fails across two stays in peer-to-peer operation: the counters are
  a local variable of \<^verbatim>\<open>peer_to_peer_operation\<close>, made anew at every entry. In the first
  stay the node is modified and \<open>ver_slf = 1\<close> is published; a registry is then discovered,
  the registration with it fails, and the second stay starts by publishing \<open>ver_slf = 0\<close>.
\<close>

theorem versions_restart_at_zero:
  "map_option agent_mode (outcome_world (node_behaviour_thread 2 5 c5_world)) =
     Some mode_initial_registration \<and>
   map_option (\<lambda>w. map ver_self (published (trace w))) (outcome_world (node_behaviour_thread 2 5 c5_world)) =
     Some [0, 0, 1] \<and>
   map_option agent_mode (outcome_world (node_behaviour_thread 5 5 c5_world)) =
     Some mode_peer_to_peer_operation \<and>
   map_option (\<lambda>w. map ver_self (published (trace w))) (outcome_world (node_behaviour_thread 5 5 c5_world)) =
     Some [0, 0, 1, 0, 1] \<and>
   map_option (\<lambda>w. sorted_wrt versions_le (published (trace w)))
     (outcome_world (node_behaviour_thread 5 5 c5_world)) = Some False"
  by code_simp

text \<open>
  Claim C5, amended. An event never decreases a counter, and within one stay in
  peer-to-peer operation the counters start at zero and every TXT-record publication
  carries counters componentwise greater than or equal to those of all previous
  publications of that stay (\<open>vs\<close> is what the stay publishes, in order; the first
  publication is the all-zero one). The counters are the spec's non-negative integers.
\<close>

theorem versions_grow_within_peer_to_peer_operation:
  "versions_le v (update_resource_version v ty) \<and>
   (outcome_world (peer_to_peer_operation n w) = Some w' \<longrightarrow>
      (\<exists>vs. published (trace w') = published (trace w) @ vs \<and> sorted_wrt versions_le vs \<and>
         (\<forall>v \<in> set vs. versions_le initial_versions v) \<and>
         (grain_present w \<and> no_priority \<noteq> pri (model_settings w) \<longrightarrow>
            vs \<noteq> [] \<and> hd vs = initial_versions)))"
  using update_resource_version_grows [of v ty] peer_to_peer_operation_publications [of n w w']
  by blast

theorem versions_grow_within_peer_to_peer_operation_witness:
  "(\<exists>w'. outcome_world (peer_to_peer_operation 4 c5_peer_to_peer) = Some w' \<and>
      (\<exists>vs. published (trace w') = published (trace c5_peer_to_peer) @ vs \<and>
         sorted_wrt versions_le vs \<and> vs \<noteq> [] \<and> hd vs = initial_versions \<and>
         map ver_self vs = [0, 0, 1, 1] \<and> map ver_devices vs = [0, 0, 1, 1] \<and>
         map ver_senders vs = [0, 0, 0, 1])) \<and>
   grain_present c5_peer_to_peer \<and> no_priority \<noteq> pri (model_settings c5_peer_to_peer)"
proof -
  have g: "grain_present c5_peer_to_peer \<and> no_priority \<noteq> pri (model_settings c5_peer_to_peer)"
    by (simp add: c5_peer_to_peer_def quiet_world_def example_settings_def no_priority_def)
  have e: "map_option (\<lambda>w. map ver_self (published (trace w)))
        (outcome_world (peer_to_peer_operation 4 c5_peer_to_peer)) = Some [0, 0, 1, 1]"
    "map_option (\<lambda>w. map ver_devices (published (trace w)))
        (outcome_world (peer_to_peer_operation 4 c5_peer_to_peer)) = Some [0, 0, 1, 1]"
    "map_option (\<lambda>w. map ver_senders (published (trace w)))
        (outcome_world (peer_to_peer_operation 4 c5_peer_to_peer)) = Some [0, 0, 0, 1]"
    by code_simp+
  then obtain w' where w': "outcome_world (peer_to_peer_operation 4 c5_peer_to_peer) = Some w'"
    by (cases "outcome_world (peer_to_peer_operation 4 c5_peer_to_peer)") simp_all
  have t0: "published (trace c5_peer_to_peer) = []"
    by (simp add: c5_peer_to_peer_def quiet_world_def)
  from versions_grow_within_peer_to_peer_operation [of initial_versions "''node''" 4 c5_peer_to_peer w']
    w' g
  obtain vs where vs: "published (trace w') = published (trace c5_peer_to_peer) @ vs"
    "sorted_wrt versions_le vs" "vs \<noteq> []" "hd vs = initial_versions"
    by blast
  from vs(1) t0 e w' have "map ver_self vs = [0, 0, 1, 1]" "map ver_devices vs = [0, 0, 1, 1]"
    "map ver_senders vs = [0, 0, 0, 1]"
    by simp_all
  with vs have "\<exists>vs. published (trace w') = published (trace c5_peer_to_peer) @ vs \<and>
         sorted_wrt versions_le vs \<and> vs \<noteq> [] \<and> hd vs = initial_versions \<and>
         map ver_self vs = [0, 0, 1, 1] \<and> map ver_devices vs = [0, 0, 1, 1] \<and>
         map ver_senders vs = [0, 0, 0, 1]"
    by (intro exI [of _ vs] conjI)
  with w' have "\<exists>w'. outcome_world (peer_to_peer_operation 4 c5_peer_to_peer) = Some w' \<and>
      (\<exists>vs. published (trace w') = published (trace c5_peer_to_peer) @ vs \<and>
         sorted_wrt versions_le vs \<and> vs \<noteq> [] \<and> hd vs = initial_versions \<and>
         map ver_self vs = [0, 0, 1, 1] \<and> map ver_devices vs = [0, 0, 1, 1] \<and>
         map ver_senders vs = [0, 0, 0, 1])"
    by (intro exI [of _ w'] conjI)
  with g show ?thesis by (intro conjI) simp_all
qed

end
